(* ===== verification/Go_Prelude.thy ===== *)
theory Go_Prelude
  imports Main
begin

text \<open>
  The part of Go's run time that every other theory uses: a computation over a state, which
  returns a value or panics; sequencing; early return on an error; nil dereference and indexing;
  deferred clean-up; and 64-bit signed integers with their wrap-around. The interface
  \<open>step_preorder\<close> states once how a fact about "what a run may do to the state" passes
  through sequencing; the later theories interpret it for the event log and for the fields of
  the driver.
\<close>

section \<open>Computations that may panic\<close>

datatype 'a outcome = Ret 'a | Panic string

type_synonym ('s, 'a) go = "'s \<Rightarrow> 'a outcome \<times> 's"

definition ret :: "'a \<Rightarrow> ('s, 'a) go" where
  "ret x = (\<lambda>s. (Ret x, s))"

definition panic :: "string \<Rightarrow> ('s, 'a) go" where
  "panic msg = (\<lambda>s. (Panic msg, s))"

text \<open>Sequencing: a panic skips the rest and keeps the state reached so far.\<close>

definition bindG :: "('s, 'a) go \<Rightarrow> ('a \<Rightarrow> ('s, 'b) go) \<Rightarrow> ('s, 'b) go" where
  "bindG m k = (\<lambda>s. case m s of
      (Ret x, s') \<Rightarrow> k x s'
    | (Panic p, s') \<Rightarrow> (Panic p, s'))"

text \<open>\<open>x, err := m; if err != nil { return err }; k x\<close>\<close>

definition tryG :: "('s, 'e + 'a) go \<Rightarrow> ('a \<Rightarrow> ('s, 'e + 'b) go) \<Rightarrow> ('s, 'e + 'b) go" where
  "tryG m k = bindG m (\<lambda>r. case r of Inl e \<Rightarrow> ret (Inl e) | Inr x \<Rightarrow> k x)"

text \<open>\<open>*p\<close> and \<open>p.f\<close> for a pointer, \<open>xs[i]\<close> for a slice.\<close>

definition derefG :: "'a option \<Rightarrow> ('s, 'a) go" where
  "derefG p = (case p of
      None \<Rightarrow> panic ''invalid memory address or nil pointer dereference''
    | Some x \<Rightarrow> ret x)"

definition indexG :: "'a list \<Rightarrow> int \<Rightarrow> ('s, 'a) go" where
  "indexG xs i =
     (if 0 \<le> i \<and> i < int (length xs) then ret (xs ! nat i)
      else panic ''index out of range'')"

text \<open>\<open>defer f()\<close>: runs on a return and while a panic unwinds.\<close>

definition deferG :: "('s \<Rightarrow> 's) \<Rightarrow> ('s, 'a) go \<Rightarrow> ('s, 'a) go" where
  "deferG f m = (\<lambda>s. case m s of (r, s') \<Rightarrow> (r, f s'))"

definition getG :: "('s, 's) go" where
  "getG = (\<lambda>s. (Ret s, s))"

definition updG :: "('s \<Rightarrow> 's) \<Rightarrow> ('s, unit) go" where
  "updG f = (\<lambda>s. (Ret (), f s))"

text \<open>\<open>for _, x := range xs { out = append(out, f x) }\<close>\<close>

fun mapG :: "('a \<Rightarrow> ('s, 'b) go) \<Rightarrow> 'a list \<Rightarrow> ('s, 'b list) go" where
  "mapG f [] = ret []"
| "mapG f (x # xs) = bindG (f x) (\<lambda>y. bindG (mapG f xs) (\<lambda>ys. ret (y # ys)))"

text \<open>The same with an early return on the first error.\<close>

fun mapTryG :: "('a \<Rightarrow> ('s, 'e + 'b) go) \<Rightarrow> 'a list \<Rightarrow> ('s, 'e + 'b list) go" where
  "mapTryG f [] = ret (Inr [])"
| "mapTryG f (x # xs) = tryG (f x) (\<lambda>y. tryG (mapTryG f xs) (\<lambda>ys. ret (Inr (y # ys))))"

named_theorems go_eval \<open>rules that run a computation on a state\<close>

lemma ret_run [go_eval]: "ret x s = (Ret x, s)"
  by (simp add: ret_def)

lemma panic_run [go_eval]: "panic p s = (Panic p, s)"
  by (simp add: panic_def)

lemma bindG_run [go_eval]:
  "bindG m k s = (case m s of (Ret x, s') \<Rightarrow> k x s' | (Panic p, s') \<Rightarrow> (Panic p, s'))"
  by (simp add: bindG_def)

lemma tryG_run [go_eval]:
  "tryG m k s = (case m s of
      (Ret (Inl e), s') \<Rightarrow> (Ret (Inl e), s')
    | (Ret (Inr x), s') \<Rightarrow> k x s'
    | (Panic p, s') \<Rightarrow> (Panic p, s'))"
  by (auto simp: tryG_def bindG_def ret_def split: prod.splits outcome.splits sum.splits)

lemma derefG_run [go_eval]:
  "derefG None s = (Panic ''invalid memory address or nil pointer dereference'', s)"
  "derefG (Some x) s = (Ret x, s)"
  by (simp_all add: derefG_def panic_def ret_def)

lemma indexG_run [go_eval]:
  "indexG xs i s = (if 0 \<le> i \<and> i < int (length xs) then (Ret (xs ! nat i), s)
                    else (Panic ''index out of range'', s))"
  by (simp add: indexG_def panic_def ret_def)

lemma deferG_run [go_eval]: "deferG f m s = (fst (m s), f (snd (m s)))"
  by (simp add: deferG_def split_beta)

lemma getG_run [go_eval]: "getG s = (Ret s, s)"
  by (simp add: getG_def)

lemma updG_run [go_eval]: "updG f s = (Ret (), f s)"
  by (simp add: updG_def)

lemma bindG_ret [simp]: "bindG (ret x) k = k x"
  by (rule ext) (simp add: go_eval)

lemma derefG_Some [simp]: "derefG (Some x) = ret x"
  by (simp add: derefG_def)

lemma bindG_assoc: "bindG (bindG m k) h = bindG m (\<lambda>x. bindG (k x) h)"
  by (rule ext) (simp add: go_eval split: prod.splits outcome.splits)

lemma tryG_ret_Inl [simp]: "tryG (ret (Inl e)) k = ret (Inl e)"
  by (rule ext) (simp add: go_eval)

lemma tryG_ret_Inr [simp]: "tryG (ret (Inr x)) k = k x"
  by (rule ext) (simp add: go_eval)

section \<open>What a run may do to the state\<close>

text \<open>
  \<open>frame R m\<close>: whatever \<open>m\<close> returns, and also when it panics, the state it leaves is
  related by \<open>R\<close> to the state it was given.
\<close>

definition frame :: "('s \<Rightarrow> 's \<Rightarrow> bool) \<Rightarrow> ('s, 'a) go \<Rightarrow> bool" where
  "frame R m \<longleftrightarrow> (\<forall>s. R s (snd (m s)))"

named_theorems frame_intros \<open>rules that split a frame fact along the program's structure\<close>

text \<open>The interface: any reflexive and transitive relation passes through the constructs.\<close>

locale step_preorder =
  fixes R :: "'s \<Rightarrow> 's \<Rightarrow> bool"
  assumes R_refl: "R s s"
    and R_trans: "R s t \<Longrightarrow> R t u \<Longrightarrow> R s u"
begin

lemma frame_ret: "frame R (ret x)"
  by (simp add: frame_def go_eval R_refl)

lemma frame_panic: "frame R (panic p)"
  by (simp add: frame_def go_eval R_refl)

lemma frame_bind:
  assumes "frame R m" and "\<And>x. frame R (k x)"
  shows "frame R (bindG m k)"
  unfolding frame_def
proof
  fix s
  obtain r s' where m: "m s = (r, s')" by fastforce
  with assms(1) have "R s s'" by (metis frame_def snd_conv)
  with assms(2) m show "R s (snd (bindG m k s))"
    by (cases r) (auto simp: go_eval frame_def intro: R_trans)
qed

lemma frame_try:
  assumes "frame R m" and "\<And>x. frame R (k x)"
  shows "frame R (tryG m k)"
  unfolding tryG_def
  using assms by (intro frame_bind) (auto simp: frame_ret split: sum.splits)

text \<open>With a fact about every value the first part returns.\<close>

lemma frame_try_post:
  assumes "frame R m" and "\<And>s x s'. m s = (Ret (Inr x), s') \<Longrightarrow> P x"
    and "\<And>x. P x \<Longrightarrow> frame R (k x)"
  shows "frame R (tryG m k)"
  unfolding frame_def
proof
  fix s
  obtain r s' where m: "m s = (r, s')" by fastforce
  with assms(1) have "R s s'" by (metis frame_def snd_conv)
  with m assms(2,3) show "R s (snd (tryG m k s))"
    by (auto simp: go_eval frame_def split: outcome.splits sum.splits intro: R_trans)
qed

lemma frame_bind_post:
  assumes "frame R m" and "\<And>s x s'. m s = (Ret x, s') \<Longrightarrow> P x"
    and "\<And>x. P x \<Longrightarrow> frame R (k x)"
  shows "frame R (bindG m k)"
  unfolding frame_def
proof
  fix s
  obtain r s' where m: "m s = (r, s')" by fastforce
  with assms(1) have "R s s'" by (metis frame_def snd_conv)
  with m assms(2,3) show "R s (snd (bindG m k s))"
    by (auto simp: go_eval frame_def split: outcome.splits intro: R_trans)
qed

lemma frame_deref: "frame R (derefG p)"
  by (cases p) (simp_all add: frame_def go_eval R_refl)

lemma frame_index: "frame R (indexG xs i)"
  by (simp add: frame_def go_eval R_refl)

lemma frame_get: "frame R getG"
  by (simp add: frame_def go_eval R_refl)

lemma frame_map: "(\<And>x. frame R (f x)) \<Longrightarrow> frame R (mapG f xs)"
  by (induction xs) (auto intro!: frame_bind frame_ret)

lemma frame_mapTry: "(\<And>x. frame R (f x)) \<Longrightarrow> frame R (mapTryG f xs)"
  by (induction xs) (auto intro!: frame_try frame_ret)

lemmas frame_rules =
  frame_ret frame_panic frame_bind frame_try frame_deref frame_index frame_get
  frame_map frame_mapTry

end

lemma frameD: "frame R m \<Longrightarrow> m s = (r, s') \<Longrightarrow> R s s'"
  by (metis frame_def snd_conv)

lemma frameI: "(\<And>s. R s (snd (m s))) \<Longrightarrow> frame R m"
  by (simp add: frame_def)

text \<open>Case distinctions pass a frame on to their branches, for any relation.\<close>

lemma frame_branches [frame_intros]:
  "frame R a \<Longrightarrow> frame R b \<Longrightarrow> frame R (if c then a else b)"
  "frame R a \<Longrightarrow> (\<And>x. frame R (f x)) \<Longrightarrow> frame R (case p of None \<Rightarrow> a | Some x \<Rightarrow> f x)"
  "(\<And>e. frame R (g e)) \<Longrightarrow> (\<And>y. frame R (h y)) \<Longrightarrow> frame R (case r of Inl e \<Rightarrow> g e | Inr y \<Rightarrow> h y)"
  "(\<And>x y. frame R (k x y)) \<Longrightarrow> frame R (case q of (x, y) \<Rightarrow> k x y)"
  "frame R l \<Longrightarrow> (\<And>x xs. frame R (m x xs)) \<Longrightarrow> frame R (case zs of [] \<Rightarrow> l | x # xs \<Rightarrow> m x xs)"
  "(\<And>x. frame R (t x)) \<Longrightarrow> frame R (let x = u in t x)"
  by (simp_all split: option.splits sum.splits prod.splits list.splits)

section \<open>Runs that return\<close>

text \<open>\<open>returns m Q\<close>: from every state \<open>m\<close> returns, without a panic, a value with \<open>Q\<close>.\<close>

definition returns :: "('s, 'a) go \<Rightarrow> ('a \<Rightarrow> bool) \<Rightarrow> bool" where
  "returns m Q \<longleftrightarrow> (\<forall>s. \<exists>x s'. m s = (Ret x, s') \<and> Q x)"

named_theorems returns_intros \<open>rules for \<open>returns\<close> along the program's structure\<close>

lemma returns_ret [returns_intros]: "Q x \<Longrightarrow> returns (ret x) Q"
  by (simp add: returns_def go_eval)

lemma returns_deref: "p = Some x \<Longrightarrow> Q x \<Longrightarrow> returns (derefG p) Q"
  by (simp add: returns_def go_eval)

lemma returns_index: "0 \<le> i \<Longrightarrow> i < int (length xs) \<Longrightarrow> Q (xs ! nat i) \<Longrightarrow> returns (indexG xs i) Q"
  by (simp add: returns_def go_eval)

lemma returns_upd [returns_intros]: "Q () \<Longrightarrow> returns (updG f) Q"
  by (simp add: returns_def go_eval)

lemma returns_bind:
  assumes "returns m A" and "\<And>x. A x \<Longrightarrow> returns (k x) Q"
  shows "returns (bindG m k) Q"
  unfolding returns_def
proof
  fix s
  from assms(1) obtain x s' where m: "m s = (Ret x, s')" "A x"
    unfolding returns_def by blast
  with assms(2) obtain y s'' where "k x s' = (Ret y, s'')" "Q y"
    unfolding returns_def by blast
  with m show "\<exists>y s'. bindG m k s = (Ret y, s') \<and> Q y"
    by (simp add: go_eval)
qed

lemma returns_try:
  assumes "returns m A"
    and "\<And>e. A (Inl e) \<Longrightarrow> Q (Inl e)"
    and "\<And>x. A (Inr x) \<Longrightarrow> returns (k x) Q"
  shows "returns (tryG m k) Q"
  unfolding tryG_def using assms(1)
  by (rule returns_bind) (auto split: sum.splits intro: assms returns_ret)

lemma returns_weaken: "returns m A \<Longrightarrow> (\<And>x. A x \<Longrightarrow> Q x) \<Longrightarrow> returns m Q"
  unfolding returns_def by blast

lemma returns_mapTry:
  "(\<And>x. x \<in> set xs \<Longrightarrow> returns (f x) (\<lambda>r. case r of Inl _ \<Rightarrow> True | Inr y \<Rightarrow> P y)) \<Longrightarrow>
   returns (mapTryG f xs) (\<lambda>r. case r of Inl _ \<Rightarrow> True | Inr ys \<Rightarrow> list_all P ys)"
proof (induction xs)
  case (Cons x xs)
  show ?case
    unfolding mapTryG.simps
    by (rule returns_try [OF Cons.prems]) (auto intro!: returns_try [OF Cons.IH] returns_ret Cons.prems)
qed (simp add: returns_ret)

lemma returnsD: "returns m Q \<Longrightarrow> m s = (r, s') \<Longrightarrow> \<exists>x. r = Ret x \<and> Q x"
  unfolding returns_def by (metis prod.inject)

lemma returns_no_panic: "returns m Q \<Longrightarrow> fst (m s) \<noteq> Panic p"
  unfolding returns_def by (metis fst_conv outcome.distinct(1))

section \<open>Costs and retries\<close>

text \<open>The interface of a bound that adds up: at most \<open>k\<close> of something from one state to another.\<close>

locale step_cost =
  fixes C :: "nat \<Rightarrow> 's \<Rightarrow> 's \<Rightarrow> bool"
  assumes cost_refl: "C 0 s s"
    and cost_trans: "C m s t \<Longrightarrow> C n t u \<Longrightarrow> C (m + n) s u"
    and cost_mono: "C m s t \<Longrightarrow> m \<le> n \<Longrightarrow> C n s t"
begin

lemma cost_any: "C n s s"
  using cost_refl cost_mono by blast

lemma cost_bind:
  assumes "frame (C m) a" and "\<And>x. frame (C n) (k x)"
  shows "frame (C (m + n)) (bindG a k)"
proof (rule frameI)
  fix s
  obtain r s' where a: "a s = (r, s')" by fastforce
  have "C m s s'" by (rule frameD [OF assms(1) a])
  then show "C (m + n) s (snd (bindG a k s))"
    using a assms(2) by (cases r) (auto simp: go_eval frame_def intro: cost_trans cost_mono)
qed

lemma cost_ret: "frame (C n) (ret x)"
  by (simp add: frame_def go_eval cost_any)

end

text \<open>The interface of a loop that tries something until it is decided or the tries are used up.
  An attempt decides the result (\<open>Inl\<close>) or asks for another round (\<open>Inr\<close>).\<close>

locale retry_loop =
  fixes loop :: "nat \<Rightarrow> 'c \<Rightarrow> ('s, 'r) go"
    and attempt :: "'c \<Rightarrow> ('s, 'r + 'c) go"
    and pause :: "('s, unit) go"
    and giveup :: "'c \<Rightarrow> 'r"
  assumes loop_unfold: "loop n c = bindG (attempt c) (\<lambda>r. case r of
      Inl d \<Rightarrow> ret d
    | Inr c' \<Rightarrow> (case n of 0 \<Rightarrow> ret (giveup c') | Suc n' \<Rightarrow> bindG pause (\<lambda>_. loop n' c')))"
begin

lemma loop_frame:
  assumes "step_preorder R" and "\<And>c. frame R (attempt c)" and "frame R pause"
  shows "frame R (loop n c)"
proof (induction n arbitrary: c)
  case 0
  show ?case
    by (subst loop_unfold) (auto intro!: step_preorder.frame_bind [OF assms(1)]
        step_preorder.frame_ret [OF assms(1)] assms(2) split: sum.splits)
next
  case (Suc n)
  show ?case
    by (subst loop_unfold) (auto intro!: step_preorder.frame_bind [OF assms(1)]
        step_preorder.frame_ret [OF assms(1)] assms(2,3) Suc split: sum.splits)
qed

text \<open>Every attempt costs at most \<open>k\<close>, and \<open>n\<close> retries at most \<open>k * (n + 1)\<close>.\<close>

lemma loop_cost:
  assumes "step_cost C" and "\<And>c. frame (C k) (attempt c)" and "frame (C 0) pause"
  shows "frame (C (k * Suc n)) (loop n c)"
proof (induction n arbitrary: c)
  case 0
  have "frame (C (k + 0)) (loop 0 c)"
    by (subst loop_unfold, rule step_cost.cost_bind [OF assms(1) assms(2)])
      (auto intro!: step_cost.cost_ret [OF assms(1)] split: sum.splits)
  then show ?case by simp
next
  case (Suc n)
  have again: "frame (C (0 + k * Suc n)) (bindG pause (\<lambda>_. loop n c'))" for c'
    by (intro step_cost.cost_bind [OF assms(1,3)] Suc)
  have "frame (C (k + k * Suc n)) (loop (Suc n) c)"
    by (subst loop_unfold, rule step_cost.cost_bind [OF assms(1) assms(2)])
      (use again in \<open>auto intro!: step_cost.cost_ret [OF assms(1)] split: sum.splits\<close>)
  then show ?case by simp
qed

text \<open>The result is an attempt's, or the loop gave up.\<close>

lemma loop_result:
  assumes "\<And>c s d s'. attempt c s = (Ret (Inl d), s') \<Longrightarrow> P d" and "\<And>c. P (giveup c)"
  shows "loop n c s = (Ret r, s') \<Longrightarrow> P r"
proof (induction n arbitrary: c s)
  case 0
  then show ?case
    by (subst (asm) loop_unfold)
      (auto simp: go_eval assms split: prod.splits outcome.splits sum.splits dest: assms(1))
next
  case (Suc n)
  from Suc.prems show ?case
    by (subst (asm) loop_unfold)
      (auto simp: go_eval split: prod.splits outcome.splits sum.splits dest: assms(1) Suc.IH)
qed

text \<open>\<open>R k c s\<close> says that at most \<open>k\<close> more attempts fail.\<close>

lemma loop_succeeds:
  assumes "\<And>k c s. R k c s \<Longrightarrow>
      (\<exists>d s'. attempt c s = (Ret (Inl d), s') \<and> Q d) \<or>
      (\<exists>c' s1 s2 j. k = Suc j \<and> attempt c s = (Ret (Inr c'), s1) \<and> pause s1 = (Ret (), s2) \<and> R j c' s2)"
    and "R k c s" and "k \<le> n"
  shows "\<exists>d s'. loop n c s = (Ret d, s') \<and> Q d"
  using assms(2,3)
proof (induction k arbitrary: n c s)
  case 0
  with assms(1) [OF 0(1)] show ?case by (subst loop_unfold) (auto simp: go_eval)
next
  case (Suc k)
  from assms(1) [OF Suc.prems(1)] show ?case
  proof
    assume "\<exists>d s'. attempt c s = (Ret (Inl d), s') \<and> Q d"
    then show ?case by (subst loop_unfold) (auto simp: go_eval)
  next
    assume "\<exists>c' s1 s2 j. Suc k = Suc j \<and> attempt c s = (Ret (Inr c'), s1) \<and> pause s1 = (Ret (), s2) \<and> R j c' s2"
    then obtain c' s1 s2 where step: "attempt c s = (Ret (Inr c'), s1)" "pause s1 = (Ret (), s2)" "R k c' s2"
      by auto
    from Suc.prems(2) obtain m where "n = Suc m" "k \<le> m" by (cases n) auto
    with Suc.IH [OF step(3), of m] step(1,2) show ?case
      by (subst loop_unfold) (simp add: go_eval)
  qed
qed

lemma loop_returns:
  assumes "\<And>c. returns (attempt c) (\<lambda>r. case r of Inl d \<Rightarrow> Q d | Inr _ \<Rightarrow> True)"
    and "returns pause (\<lambda>_. True)" and "\<And>c. Q (giveup c)"
  shows "returns (loop n c) Q"
proof (induction n arbitrary: c)
  case 0
  show ?case
    by (subst loop_unfold, rule returns_bind [OF assms(1)])
      (auto intro!: returns_ret assms(3) split: sum.splits)
next
  case (Suc n)
  show ?case
    by (subst loop_unfold, rule returns_bind [OF assms(1)])
      (auto intro!: returns_ret returns_bind [OF assms(2)] Suc split: sum.splits)
qed

end

section \<open>Go's 64-bit integers\<close>

text \<open>\<open>int\<close> and \<open>int64\<close> are two's complement numbers of 64 bits: an arithmetic result is
  reduced to the range by \<open>wrap64\<close>. Division truncates towards zero.\<close>

definition wrap64 :: "int \<Rightarrow> int" where
  "wrap64 x = (x + 2 ^ 63) mod 2 ^ 64 - 2 ^ 63"

definition int64 :: "int \<Rightarrow> bool" where
  "int64 x \<longleftrightarrow> - (2 ^ 63) \<le> x \<and> x < 2 ^ 63"

definition add64 :: "int \<Rightarrow> int \<Rightarrow> int" where
  "add64 a b = wrap64 (a + b)"

definition sub64 :: "int \<Rightarrow> int \<Rightarrow> int" where
  "sub64 a b = wrap64 (a - b)"

definition mul64 :: "int \<Rightarrow> int \<Rightarrow> int" where
  "mul64 a b = wrap64 (a * b)"

definition quot64 :: "int \<Rightarrow> int \<Rightarrow> int" where
  "quot64 a b = wrap64 (sgn a * sgn b * (\<bar>a\<bar> div \<bar>b\<bar>))"

lemma wrap64_range [simp]: "int64 (wrap64 x)"
  by (simp add: wrap64_def int64_def)

lemma wrap64_id [simp]: "int64 x \<Longrightarrow> wrap64 x = x"
  by (simp add: wrap64_def int64_def)

lemma wrap64_wrap64 [simp]: "wrap64 (wrap64 x) = wrap64 x"
  by simp

lemma wrap64_mult_left: "wrap64 (wrap64 a * b) = wrap64 (a * b)"
proof -
  have "wrap64 a * b + 2 ^ 63 = ((a + 2 ^ 63) mod 2 ^ 64 - 2 ^ 63) * b + 2 ^ 63"
    by (simp add: wrap64_def)
  also have "\<dots> mod 2 ^ 64 = ((a + 2 ^ 63 - 2 ^ 63) * b + 2 ^ 63) mod 2 ^ 64"
    by (metis (no_types, opaque_lifting) mod_add_left_eq mod_diff_left_eq mod_mult_left_eq)
  finally show ?thesis by (simp add: wrap64_def)
qed

lemma quot64_nonneg:
  assumes "0 \<le> a" and "0 < b" and "int64 a"
  shows "quot64 a b = a div b"
proof -
  have "0 \<le> a div b" using assms by (simp add: pos_imp_zdiv_nonneg_iff)
  moreover have "a div b \<le> a"
  proof (cases "a = 0")
    case False
    then show ?thesis using assms zdiv_mono2 [of a 1 b] by simp
  qed simp
  ultimately have "int64 (a div b)" using assms(3) by (simp add: int64_def)
  then show ?thesis using assms(1,2) by (cases "a = 0") (simp_all add: quot64_def)
qed

end
