(* ===== verification/Go_Strings.thy ===== *)
theory Go_Strings
  imports Go_Prelude "HOL-Library.Sublist"
begin

text \<open>
  The functions of Go's \<open>strings\<close> and \<open>strconv\<close> packages that the driver calls. A Go string
  is a sequence of bytes, here a \<open>string\<close> (its \<open>char\<close>s are bytes). \<open>TrimSpace\<close> is modelled for
  the ASCII white space. The lemmas are the round trips the components rest on: splitting a
  joined list, joining a split string, and parsing a formatted number.
\<close>

section \<open>Package strings\<close>

text \<open>\<open>strings.Split(s, sep)\<close> for a separator of one byte, the only ones the driver uses.\<close>

fun splitOn :: "char \<Rightarrow> string \<Rightarrow> string list" where
  "splitOn c [] = [[]]"
| "splitOn c (x # xs) =
     (if x = c then [] # splitOn c xs
      else (case splitOn c xs of [] \<Rightarrow> [[x]] | y # ys \<Rightarrow> (x # y) # ys))"

fun joinWith :: "string \<Rightarrow> string list \<Rightarrow> string" where
  "joinWith sep [] = []"
| "joinWith sep [x] = x"
| "joinWith sep (x # y # ys) = x @ sep @ joinWith sep (y # ys)"

fun contains :: "string \<Rightarrow> string \<Rightarrow> bool" where
  "contains [] t = (t = [])"
| "contains (x # xs) t = (prefix t (x # xs) \<or> contains xs t)"

definition trimBytes :: "(char \<Rightarrow> bool) \<Rightarrow> string \<Rightarrow> string" where
  "trimBytes p s = rev (dropWhile p (rev (dropWhile p s)))"

definition isSpace :: "char \<Rightarrow> bool" where
  "isSpace c \<longleftrightarrow> c = CHR '' '' \<or> (9 \<le> (of_char c :: nat) \<and> (of_char c :: nat) \<le> 13)"

definition TrimSpace :: "string \<Rightarrow> string" where
  "TrimSpace s = trimBytes isSpace s"

definition TrimSuffix :: "string \<Rightarrow> string \<Rightarrow> string" where
  "TrimSuffix s suf = (if suffix suf s then take (length s - length suf) s else s)"

lemma splitOn_nonempty [simp]: "splitOn c s \<noteq> []"
  by (induction s) (auto split: list.splits)

lemma splitOn_no_sep: "c \<notin> set s \<Longrightarrow> splitOn c s = [s]"
  by (induction s) auto

lemma splitOn_append:
  "c \<notin> set a \<Longrightarrow> splitOn c (a @ c # b) = a # splitOn c b"
  by (induction a) auto

lemma length_splitOn: "length (splitOn c s) = Suc (count_list s c)"
  by (induction s) (auto split: list.splits)

lemma splitOn_free: "p \<in> set (splitOn c s) \<Longrightarrow> c \<notin> set p"
proof (induction s arbitrary: p)
  case (Cons x xs)
  then show ?case
    by (cases "splitOn c xs") (auto split: if_splits)
qed simp

lemma join_splitOn: "joinWith [c] (splitOn c s) = s"
proof (induction s)
  case (Cons x xs)
  obtain y ys where ys: "splitOn c xs = y # ys"
    by (cases "splitOn c xs") auto
  with Cons show ?case by (cases ys) auto
qed simp

lemma splitOn_join:
  "xs \<noteq> [] \<Longrightarrow> (\<forall>x \<in> set xs. c \<notin> set x) \<Longrightarrow> splitOn c (joinWith [c] xs) = xs"
proof (induction "[c]" xs rule: joinWith.induct)
  case (2 x)
  then show ?case by (simp add: splitOn_no_sep)
next
  case (3 x y ys)
  then show ?case by (simp add: splitOn_append)
qed simp

lemma splitOn_two:
  "splitOn c s = [a, b] \<longleftrightarrow> s = a @ c # b \<and> c \<notin> set a \<and> c \<notin> set b"
proof
  assume split: "splitOn c s = [a, b]"
  then have "s = a @ c # b" using join_splitOn [of c s] by simp
  moreover from split have "c \<notin> set a" "c \<notin> set b"
    using splitOn_free [of _ c s] by simp_all
  ultimately show "s = a @ c # b \<and> c \<notin> set a \<and> c \<notin> set b" by simp
next
  assume "s = a @ c # b \<and> c \<notin> set a \<and> c \<notin> set b"
  then show "splitOn c s = [a, b]" by (simp add: splitOn_append splitOn_no_sep)
qed

lemma contains_iff: "contains s t \<longleftrightarrow> (\<exists>a b. s = a @ t @ b)"
proof (induction s)
  case (Cons x xs)
  show ?case
  proof
    assume "contains (x # xs) t"
    then consider (here) "prefix t (x # xs)" | (later) "contains xs t" by auto
    then show "\<exists>a b. x # xs = a @ t @ b"
    proof cases
      case here
      then obtain b where "x # xs = [] @ t @ b" by (auto elim: prefixE)
      then show ?thesis by blast
    next
      case later
      with Cons obtain a b where "x # xs = (x # a) @ t @ b" by auto
      then show ?thesis by blast
    qed
  next
    assume "\<exists>a b. x # xs = a @ t @ b"
    then obtain a b where ab: "x # xs = a @ t @ b" by blast
    show "contains (x # xs) t"
    proof (cases a)
      case Nil
      with ab have "prefix t (x # xs)" by (auto intro: prefixI)
      then show ?thesis by simp
    next
      case (Cons y ys)
      with ab have "xs = ys @ t @ b" by simp
      with Cons.IH show ?thesis by auto
    qed
  qed
qed auto

lemma contains_infix [simp]: "contains (a @ t @ b) t"
  by (auto simp: contains_iff)

lemma dropWhile_hd_id: "\<not> p (hd s) \<Longrightarrow> dropWhile p s = s"
  by (cases s) auto

lemma trimBytes_id:
  "s = [] \<or> (\<not> p (hd s) \<and> \<not> p (last s)) \<Longrightarrow> trimBytes p s = s"
  by (cases "s = []") (simp_all add: trimBytes_def dropWhile_hd_id hd_rev)

section \<open>Package strconv\<close>

text \<open>
  \<open>ParseUint\<close> reads digits until a bad byte (a syntax error) or until the value leaves 64 bits
  (a range error, found before any later bad byte). Base 0 takes the base from the prefix and
  allows underscores.
\<close>

datatype parsed = PNum nat | PSyntax | PRange

definition lowerc :: "char \<Rightarrow> nat" where
  "lowerc c = (let n = of_char c in if 65 \<le> n \<and> n \<le> 90 then n + 32 else n)"

definition digitOf :: "char \<Rightarrow> nat option" where
  "digitOf c = (let n = of_char c; l = lowerc c in
     if 48 \<le> n \<and> n \<le> 57 then Some (n - 48)
     else if 97 \<le> l \<and> l \<le> 122 then Some (l - 97 + 10) else None)"

fun parseDigits :: "bool \<Rightarrow> nat \<Rightarrow> nat \<Rightarrow> string \<Rightarrow> parsed" where
  "parseDigits base0 base acc [] = PNum acc"
| "parseDigits base0 base acc (c # cs) =
     (if c = CHR ''_'' \<and> base0 then parseDigits base0 base acc cs
      else case digitOf c of
        None \<Rightarrow> PSyntax
      | Some d \<Rightarrow>
          if base \<le> d then PSyntax
          else if 2 ^ 64 \<le> acc * base + d then PRange
          else parseDigits base0 base (acc * base + d) cs)"

text \<open>\<open>underscoreOK\<close>: the flags say whether the last byte was a digit (or a base prefix) and
  whether it was an underscore.\<close>

fun underscoreLoop :: "bool \<Rightarrow> bool \<Rightarrow> bool \<Rightarrow> string \<Rightarrow> bool" where
  "underscoreLoop hex dig und [] = (\<not> und)"
| "underscoreLoop hex dig und (c # cs) =
     (let n = (of_char c :: nat) in
      if (48 \<le> n \<and> n \<le> 57) \<or> (hex \<and> 97 \<le> lowerc c \<and> lowerc c \<le> 102)
      then underscoreLoop hex True False cs
      else if c = CHR ''_'' then (dig \<and> underscoreLoop hex False True cs)
      else (\<not> und \<and> underscoreLoop hex False False cs))"

definition prefixLetter :: "string \<Rightarrow> nat option" where
  "prefixLetter s = (case s of
      a # b # rest \<Rightarrow>
        if a = CHR ''0'' \<and> (lowerc b = 98 \<or> lowerc b = 111 \<or> lowerc b = 120)
        then Some (lowerc b) else None
    | _ \<Rightarrow> None)"

definition underscoreOK :: "string \<Rightarrow> bool" where
  "underscoreOK s = (case prefixLetter s of
      Some l \<Rightarrow> underscoreLoop (l = 120) True False (drop 2 s)
    | None \<Rightarrow> underscoreLoop False False False s)"

text \<open>The base and the digits that remain, for base 0.\<close>

definition basePrefix :: "string \<Rightarrow> nat \<times> string" where
  "basePrefix s =
     (if \<not> prefix ''0'' s then (10, s)
      else case (if 3 \<le> length s then prefixLetter s else None) of
        Some l \<Rightarrow> (if l = 98 then 2 else if l = 111 then 8 else 16, drop 2 s)
      | None \<Rightarrow> (8, drop 1 s))"

definition ParseUint :: "string \<Rightarrow> nat \<Rightarrow> parsed" where
  "ParseUint s base =
     (if s = [] then PSyntax
      else let base0 = (base = 0);
               (b, ds) = (if base0 then basePrefix s else (base, s));
               r = parseDigits base0 b 0 ds
           in case r of
                PNum n \<Rightarrow>
                  if base0 \<and> CHR ''_'' \<in> set ds \<and> \<not> underscoreOK s then PSyntax else PNum n
              | _ \<Rightarrow> r)"

datatype numErr = ErrSyntax | ErrRange

text \<open>\<open>ParseInt(s, base, 0)\<close>: Go returns the value and the error together; on a range error
  the value is the nearest bound.\<close>

definition ParseInt :: "string \<Rightarrow> nat \<Rightarrow> int \<times> numErr option" where
  "ParseInt s base =
     (if s = [] then (0, Some ErrSyntax)
      else let neg = (hd s = CHR ''-'');
               ds = (if hd s = CHR ''+'' \<or> hd s = CHR ''-'' then tl s else s)
           in case ParseUint ds base of
                PSyntax \<Rightarrow> (0, Some ErrSyntax)
              | PRange \<Rightarrow> (if neg then - (2 ^ 63) else 2 ^ 63 - 1, Some ErrRange)
              | PNum n \<Rightarrow>
                  if \<not> neg \<and> 2 ^ 63 \<le> n then (2 ^ 63 - 1, Some ErrRange)
                  else if neg \<and> 2 ^ 63 < n then (- (2 ^ 63), Some ErrRange)
                  else (if neg then - int n else int n, None))"

definition ParseBool :: "string \<Rightarrow> bool option" where
  "ParseBool s =
     (if s \<in> {''1'', ''t'', ''T'', ''TRUE'', ''true'', ''True''} then Some True
      else if s \<in> {''0'', ''f'', ''F'', ''FALSE'', ''false'', ''False''} then Some False
      else None)"

definition digitChar :: "nat \<Rightarrow> char" where
  "digitChar d = char_of (48 + d)"

fun natDigits :: "nat \<Rightarrow> string" where
  "natDigits n = (if n < 10 then [digitChar n] else natDigits (n div 10) @ [digitChar (n mod 10)])"

declare natDigits.simps [simp del]

definition FormatInt :: "int \<Rightarrow> string" where
  "FormatInt i = (if i < 0 then CHR ''-'' # natDigits (nat (- i)) else natDigits (nat i))"

definition FormatBool :: "bool \<Rightarrow> string" where
  "FormatBool b = (if b then ''true'' else ''false'')"

section \<open>Parsing what was formatted\<close>

lemma of_char_digitChar: "d < 10 \<Longrightarrow> of_char (digitChar d) = 48 + d"
  by (simp add: digitChar_def)

lemma digitOf_digitChar: "d < 10 \<Longrightarrow> digitOf (digitChar d) = Some d"
  by (simp add: digitOf_def of_char_digitChar Let_def)

lemma digitChar_neq:
  "d < 10 \<Longrightarrow> (of_char c :: nat) < 48 \<or> 57 < (of_char c :: nat) \<Longrightarrow> digitChar d \<noteq> c"
  using of_char_digitChar [of d] by auto

lemma parseDigits_append:
  "parseDigits False 10 acc (xs @ ys) =
     (case parseDigits False 10 acc xs of
        PNum n \<Rightarrow> parseDigits False 10 n ys
      | r \<Rightarrow> r)"
  by (induction "False" "10::nat" acc xs rule: parseDigits.induct) (auto split: option.splits)

lemma parseDigits_natDigits:
  "n < 2 ^ 64 \<Longrightarrow> parseDigits False 10 0 (natDigits n) = PNum n"
proof (induction n rule: natDigits.induct)
  case (1 n)
  show ?case
  proof (cases "n < 10")
    case True
    then show ?thesis
      by (simp add: natDigits.simps [of n] digitOf_digitChar)
  next
    case False
    with 1 have "parseDigits False 10 0 (natDigits (n div 10)) = PNum (n div 10)"
      by simp
    with False 1 show ?thesis
      by (simp add: natDigits.simps [of n] parseDigits_append digitOf_digitChar)
  qed
qed

lemma natDigits_bytes: "set (natDigits n) \<subseteq> digitChar ` {..<10}"
proof (induction n rule: natDigits.induct)
  case (1 n)
  then show ?case by (subst natDigits.simps) auto
qed

lemma natDigits_nonempty [simp]: "natDigits n \<noteq> []"
  by (subst natDigits.simps) simp

lemma hd_natDigits_sign: "hd (natDigits n) \<noteq> CHR ''+''" "hd (natDigits n) \<noteq> CHR ''-''"
proof -
  obtain d where "d < 10" "hd (natDigits n) = digitChar d"
    using natDigits_bytes [of n] hd_in_set [OF natDigits_nonempty] by blast
  then show "hd (natDigits n) \<noteq> CHR ''+''" "hd (natDigits n) \<noteq> CHR ''-''"
    by (simp_all add: digitChar_neq)
qed

lemma ParseInt_FormatInt:
  assumes "int64 i"
  shows "ParseInt (FormatInt i) 10 = (i, None)"
proof -
  have u: "n < 2 ^ 64 \<Longrightarrow> ParseUint (natDigits n) 10 = PNum n" for n
    by (simp add: ParseUint_def parseDigits_natDigits)
  show ?thesis
  proof (cases "i < 0")
    case True
    with assms have "nat (- i) \<le> 2 ^ 63" by (simp add: int64_def)
    with True u [of "nat (- i)"] show ?thesis
      by (simp add: ParseInt_def FormatInt_def Let_def)
  next
    case False
    with assms have "nat i < 2 ^ 63" by (simp add: int64_def)
    with False u [of "nat i"] show ?thesis
      by (simp add: ParseInt_def FormatInt_def Let_def hd_natDigits_sign)
  qed
qed

lemma ParseInt_range: "ParseInt s b = (v, e) \<Longrightarrow> int64 v"
  by (auto simp: ParseInt_def int64_def Let_def split: if_splits parsed.splits)

lemma ParseBool_FormatBool [simp]: "ParseBool (FormatBool b) = Some b"
  by (simp add: ParseBool_def FormatBool_def)

end
