(* ===== verification/Sdk_Interface.thy ===== *)
theory Sdk_Interface
  imports Complex_Main Go_Strings
begin

text \<open>
  The outside world of the driver. The packages the driver calls and this repository does not
  hold (the Datera SDK \<open>dsdk\<close>, the iSCSI connector, \<open>uuid\<close>, the text of gRPC errors) and the
  host's file system and programs are the fields of the record \<open>env\<close>: functions on an
  unspecified world \<open>'w\<close>. Nothing is assumed of them here.
  The records of the SDK hold the fields the driver reads or writes. A pointer field that the
  driver dereferences is an \<open>option\<close>; an SDK call returns Go's three results (response, API
  error, transport error).
  Every call is also recorded in the state's \<open>log\<close>, which no code reads: it is what the
  theorems about effects ("nothing is deleted", "only these calls") speak of.
\<close>

section \<open>Errors\<close>

datatype code =
    Aborted | InvalidArgument | AlreadyExists | Unknown | FailedPrecondition
  | Unimplemented | NotFound | Unauthenticated | Unavailable

text \<open>An \<open>error\<close> value: from \<open>fmt.Errorf\<close> or another package (known by its text), from gRPC's
  \<open>status.Errorf\<close>, or from \<open>strconv\<close> (function, input, reason).\<close>

datatype goerr =
    PlainErr string
  | StatusErr code string
  | NumError string string numErr

record apierr =
  ae_Name :: string
  ae_Message :: string
  ae_Code :: int

type_synonym 'r sdkres = "'r \<times> apierr option \<times> goerr option"

section \<open>The SDK's records\<close>

record initiator =
  in_Name :: string
  in_Path :: string
  in_Id :: string
  in_Tenant :: string

record acl_policy =
  acl_Initiators :: "initiator list"

record dsnapshot =
  sn_Uuid :: string
  sn_UtcTs :: string
  sn_Path :: string
  sn_OpState :: string

record perf_policy =
  pp_ReadIopsMax :: int
  pp_WriteIopsMax :: int
  pp_TotalIopsMax :: int
  pp_ReadBandwidthMax :: int
  pp_WriteBandwidthMax :: int
  pp_TotalBandwidthMax :: int

record dvolume =
  dv_Path :: string
  dv_ReplicaCount :: int
  dv_PlacementMode :: string
  dv_Size :: int
  dv_CapacityInUse :: int
  dv_Snapshots :: "dsnapshot list"

record storage_instance =
  si_Path :: string
  si_OpState :: string
  si_Ips :: "string list"
  si_Iqn :: string
  si_AclPolicy :: "acl_policy option"
  si_Volumes :: "dvolume list"

record app_instance =
  ai_Name :: string
  ai_AdminState :: string
  ai_RepairPriority :: string
  ai_AppTemplate :: "string option"  \<comment> \<open>the template's \<open>Path\<close>\<close>
  ai_StorageInstances :: "storage_instance list"

text \<open>Requests: what \<open>CreateVolume\<close> and \<open>CreateSnapshot\<close> send.\<close>

record auth =
  au_Type :: string
  au_InitiatorUserName :: string
  au_InitiatorPassword :: string
  au_TargetUserName :: string
  au_TargetPassword :: string

record vol_create =
  vc_Name :: string
  vc_Size :: int
  vc_PlacementMode :: string
  vc_PlacementPolicy :: "string option"
  vc_ReplicaCount :: int
  vc_PerformancePolicy :: perf_policy

record si_create =
  sc_Name :: string
  sc_IpPool :: string
  sc_Volumes :: "vol_create list"
  sc_Auth :: auth

record ai_create =
  ac_Name :: string
  ac_CreateMode :: string
  ac_AppTemplate :: "string option"
  ac_TemplateOverride :: "string option"  \<comment> \<open>the nested map's only leaf, the volume's size\<close>
  ac_CloneVolumeSrc :: "string option"
  ac_CloneSnapshotSrc :: "string option"
  ac_StorageInstances :: "si_create list"

record snap_create =
  snc_Uuid :: string
  snc_RemoteProviderUuid :: string
  snc_Type :: string

record sysinfo =
  sy_TotalCapacity :: int
  sy_TotalProvisionedCapacity :: int
  sy_AllFlashTotalCapacity :: int
  sy_AllFlashProvisionedCapacity :: int
  sy_HybridTotalCapacity :: int
  sy_HybridProvisionedCapacity :: int
  sy_BuildVersion :: string
  sy_CallhomeEnabled :: bool
  sy_CompressionEnabled :: bool
  sy_Health :: string
  sy_L3Enabled :: bool
  sy_Name :: string
  sy_OpState :: string
  sy_SwVersion :: string
  sy_Timezone :: string
  sy_Uuid :: string

record ip_pool =
  ipp_Name :: string
  ipp_Path :: string

record chap_secrets =
  cs_Type :: string
  cs_UserName :: string
  cs_Password :: string
  cs_UserNameIn :: string
  cs_PasswordIn :: string

record connector =
  cn_Targets :: "(string \<times> string \<times> string) list"  \<comment> \<open>IQN, portal, port\<close>
  cn_Lun :: int
  cn_Multipath :: bool
  cn_RetryCount :: int
  cn_AuthType :: string
  cn_SessionSecrets :: chap_secrets
  cn_DoDiscovery :: bool
  cn_DoCHAPDiscovery :: bool

type_synonym smap = "string \<rightharpoonup> string"

text \<open>What \<open>mount.go\<close> has decoded from the output of \<open>lsblk\<close>: \<open>LsBlk\<close> and \<open>LsBlkEntry\<close>. An entry that
  is \<open>null\<close> in the JSON text is a nil pointer.\<close>

record LsBlkEntry =
  lbe_Name :: string
  lbe_FsType :: string
  lbe_Label :: string
  lbe_Uuid :: string
  lbe_MountPoint :: string

record LsBlk =
  lb_BlockDevices :: "LsBlkEntry option list"

section \<open>The calls, and the log of them\<close>

datatype event =
    AiGet string | AiCreate ai_create | AiList int int
  | AiSet string string bool | AiDelete string bool | AiReload string
  | MdGet string | MdSet string smap
  | VolSet string int | PpGet string | PpCreate string perf_policy
  | SnapList string | SnapCreate string snap_create | SnapReload string | SnapDelete string
  | InitGet string | InitCreate string string bool | InitDelete string
  | AclGet string | AclSet string "initiator list"
  | SysGet | IpPoolGet string | SiSet string string | LogRotate string string
  | IscsiConnect connector | IscsiDisconnect string "string list"
  | Exec "string list" | ReadFile string | WriteFile string string
  | StatFile string | MkdirAll string | RemoveAll string
  | SleepSeconds nat | RandInt nat | NewUuid
  | NewSdk string | RemoveFile string | ListenOn string string | RegisterService string
  | Spawn string | ServeRpcs | StopServer

record 'w env =
  x_ai_get :: "string \<Rightarrow> 'w \<Rightarrow> app_instance option sdkres \<times> 'w"
  x_ai_create :: "ai_create \<Rightarrow> 'w \<Rightarrow> app_instance option sdkres \<times> 'w"
  x_ai_list :: "int \<Rightarrow> int \<Rightarrow> 'w \<Rightarrow> app_instance list sdkres \<times> 'w"
  x_ai_set :: "app_instance \<Rightarrow> string \<Rightarrow> bool \<Rightarrow> 'w \<Rightarrow> app_instance option sdkres \<times> 'w"
  x_ai_delete :: "app_instance \<Rightarrow> bool \<Rightarrow> 'w \<Rightarrow> app_instance option sdkres \<times> 'w"
  x_ai_reload :: "app_instance \<Rightarrow> 'w \<Rightarrow> app_instance option sdkres \<times> 'w"
  x_md_get :: "app_instance \<Rightarrow> 'w \<Rightarrow> smap option sdkres \<times> 'w"
  x_md_set :: "app_instance \<Rightarrow> smap \<Rightarrow> 'w \<Rightarrow> smap option sdkres \<times> 'w"
  x_vol_set :: "dvolume \<Rightarrow> int \<Rightarrow> 'w \<Rightarrow> dvolume option sdkres \<times> 'w"
  x_pp_get :: "dvolume \<Rightarrow> 'w \<Rightarrow> perf_policy option sdkres \<times> 'w"
  x_pp_create :: "dvolume \<Rightarrow> perf_policy \<Rightarrow> 'w \<Rightarrow> perf_policy option sdkres \<times> 'w"
  x_snap_list :: "dvolume \<Rightarrow> 'w \<Rightarrow> dsnapshot list sdkres \<times> 'w"
  x_snap_create :: "dvolume \<Rightarrow> snap_create \<Rightarrow> 'w \<Rightarrow> dsnapshot option sdkres \<times> 'w"
  x_snap_reload :: "dsnapshot \<Rightarrow> 'w \<Rightarrow> dsnapshot option sdkres \<times> 'w"
  x_snap_delete :: "dsnapshot \<Rightarrow> 'w \<Rightarrow> dsnapshot option sdkres \<times> 'w"
  x_init_get :: "string \<Rightarrow> 'w \<Rightarrow> initiator option sdkres \<times> 'w"
  x_init_create :: "string \<Rightarrow> string \<Rightarrow> bool \<Rightarrow> 'w \<Rightarrow> initiator option sdkres \<times> 'w"
  x_init_delete :: "initiator \<Rightarrow> string \<Rightarrow> 'w \<Rightarrow> initiator option sdkres \<times> 'w"
  x_acl_get :: "storage_instance \<Rightarrow> 'w \<Rightarrow> acl_policy option sdkres \<times> 'w"
  x_acl_set :: "acl_policy \<Rightarrow> initiator list \<Rightarrow> 'w \<Rightarrow> acl_policy option sdkres \<times> 'w"
  x_sys_get :: "'w \<Rightarrow> sysinfo option sdkres \<times> 'w"
  x_ippool_get :: "string \<Rightarrow> 'w \<Rightarrow> ip_pool option sdkres \<times> 'w"
  x_si_set :: "storage_instance \<Rightarrow> string \<Rightarrow> 'w \<Rightarrow> storage_instance option sdkres \<times> 'w"
  x_log_rotate :: "string \<Rightarrow> string \<Rightarrow> 'w \<Rightarrow> goerr option \<times> 'w"
  x_iscsi_connect :: "connector \<Rightarrow> 'w \<Rightarrow> (string \<times> goerr option) \<times> 'w"
  x_iscsi_disconnect :: "string \<Rightarrow> string list \<Rightarrow> 'w \<Rightarrow> goerr option \<times> 'w"
  x_exec :: "string list \<Rightarrow> 'w \<Rightarrow> (string \<times> goerr option) \<times> 'w"
  x_read_file :: "string \<Rightarrow> 'w \<Rightarrow> (string \<times> goerr option) \<times> 'w"
  x_write_file :: "string \<Rightarrow> string \<Rightarrow> 'w \<Rightarrow> goerr option \<times> 'w"
  x_not_exist :: "string \<Rightarrow> 'w \<Rightarrow> bool \<times> 'w"
  x_mkdir_all :: "string \<Rightarrow> 'w \<Rightarrow> goerr option \<times> 'w"
  x_remove_all :: "string \<Rightarrow> 'w \<Rightarrow> goerr option \<times> 'w"
  x_rand_intn :: "nat \<Rightarrow> 'w \<Rightarrow> int \<times> 'w"
  x_new_uuid :: "'w \<Rightarrow> string \<times> 'w"
  x_uuid_sha1 :: "string \<Rightarrow> string \<Rightarrow> string"
  x_status_text :: "code \<Rightarrow> string \<Rightarrow> string"
  x_quote :: "string \<Rightarrow> string"
  x_sprintf0 :: "string \<Rightarrow> string"
  x_parse_float :: "string \<Rightarrow> goerr + rat"
  x_timestamp_proto :: "int \<times> int \<Rightarrow> goerr + (int \<times> int)"
  x_rune_cap :: "nat \<Rightarrow> nat"
  x_schedule :: "nat \<Rightarrow> nat list"  \<comment> \<open>the order in which goroutines \<open>0..<n\<close> run\<close>
  x_lsblk_json :: "string \<Rightarrow> goerr + LsBlk option"  \<comment> \<open>\<open>json.Unmarshal\<close> into a pointer: \<open>null\<close> is nil\<close>
  x_ss_new :: "string list \<Rightarrow> string list"  \<comment> \<open>\<open>dsdk.StringSet\<close>\<close>
  x_ss_add :: "string \<Rightarrow> string list \<Rightarrow> string list"
  x_ss_delete :: "string \<Rightarrow> string list \<Rightarrow> string list"
  x_ss_list :: "string list \<Rightarrow> string list"

text \<open>What \<open>err.Error()\<close> returns.\<close>

definition ErrorText :: "'w env \<Rightarrow> goerr \<Rightarrow> string" where
  "ErrorText E e = (case e of
      PlainErr m \<Rightarrow> m
    | StatusErr c m \<Rightarrow> x_status_text E c m
    | NumError f s r \<Rightarrow> ''strconv.'' @ f @ '': parsing '' @ x_quote E s @ '': '' @
        (case r of ErrSyntax \<Rightarrow> ''invalid syntax'' | ErrRange \<Rightarrow> ''value out of range''))"

section \<open>The state\<close>

record manifest =
  mf_BuildVersion :: string
  mf_CallhomeEnabled :: string
  mf_CompressionEnabled :: string
  mf_Health :: string
  mf_L3Enabled :: string
  mf_Name :: string
  mf_OpState :: string
  mf_SwVersion :: string
  mf_Timezone :: string
  mf_Uuid :: string

text \<open>The mutable fields of \<open>Driver\<close> and \<open>DateraClient\<close>, the world and the log.\<close>

record 'w st =
  log :: "event list"
  ext :: 'w
  rpcStatus :: "string set"
  healthy :: bool
  d_manifest :: "manifest option"
  d_vendorVersion :: string
  c_vendorVersion :: string

type_synonym ('w, 'a) io = "('w st, 'a) go"

definition extG :: "event \<Rightarrow> ('w \<Rightarrow> 'a \<times> 'w) \<Rightarrow> ('w, 'a) io" where
  "extG ev f = (\<lambda>s. let (r, w) = f (ext s) in (Ret r, s\<lparr>log := log s @ [ev], ext := w\<rparr>))"

definition sleepG :: "nat \<Rightarrow> ('w, unit) io" where
  "sleepG n = updG (\<lambda>s. s\<lparr>log := log s @ [SleepSeconds n]\<rparr>)"

lemma extG_run [go_eval]:
  "extG ev f s = (Ret (fst (f (ext s))), s\<lparr>log := log s @ [ev], ext := snd (f (ext s))\<rparr>)"
  by (simp add: extG_def split_beta)

section \<open>Effects read off the log\<close>

definition logs :: "(event \<Rightarrow> bool) \<Rightarrow> 'w st \<Rightarrow> 'w st \<Rightarrow> bool" where
  "logs Q s t \<longleftrightarrow> (\<exists>es. log t = log s @ es \<and> list_all Q es)"

definition keeps :: "('s \<Rightarrow> 'b) \<Rightarrow> 's \<Rightarrow> 's \<Rightarrow> bool" where
  "keeps f s t \<longleftrightarrow> f t = f s"

interpretation lg: step_preorder "logs Q" for Q
proof
  show "logs Q s s" for s :: "'a st"
    by (simp add: logs_def)
  show "logs Q s u" if "logs Q s t" "logs Q t u" for s t u :: "'a st"
  proof -
    from that obtain es fs where "log t = log s @ es" "list_all Q es"
      and "log u = log t @ fs" "list_all Q fs" by (auto simp: logs_def)
    then have "log u = log s @ (es @ fs)" "list_all Q (es @ fs)" by simp_all
    then show ?thesis unfolding logs_def by blast
  qed
qed

interpretation kp: step_preorder "keeps f" for f
  by unfold_locales (auto simp: keeps_def)

lemmas [frame_intros] = lg.frame_rules kp.frame_rules

lemma logs_extG [frame_intros]: "Q ev \<Longrightarrow> frame (logs Q) (extG ev f)"
  by (auto simp: frame_def logs_def go_eval)

lemma logs_sleepG [frame_intros]: "Q (SleepSeconds n) \<Longrightarrow> frame (logs Q) (sleepG n)"
  by (auto simp: frame_def logs_def go_eval sleepG_def)

text \<open>The fields of the driver, which no call to the outside changes.\<close>

definition driver_fields :: "'w st \<Rightarrow> string set \<times> bool \<times> manifest option \<times> string" where
  "driver_fields s = (rpcStatus s, healthy s, d_manifest s, d_vendorVersion s)"

lemma keeps_driver_extG [frame_intros]: "frame (keeps driver_fields) (extG ev f)"
  by (simp add: frame_def keeps_def driver_fields_def go_eval)

lemma keeps_driver_sleepG [frame_intros]: "frame (keeps driver_fields) (sleepG n)"
  by (simp add: frame_def keeps_def driver_fields_def go_eval sleepG_def)

lemma logs_mono: "logs Q s t \<Longrightarrow> (\<And>e. Q e \<Longrightarrow> Q' e) \<Longrightarrow> logs Q' s t"
  by (auto simp: logs_def list_all_iff)

lemma frame_logs_mono: "frame (logs Q) m \<Longrightarrow> (\<And>e. Q e \<Longrightarrow> Q' e) \<Longrightarrow> frame (logs Q') m"
  unfolding frame_def by (blast intro: logs_mono)

text \<open>At most \<open>k\<close> calls with \<open>P\<close>.\<close>

definition made :: "(event \<Rightarrow> bool) \<Rightarrow> nat \<Rightarrow> 'w st \<Rightarrow> 'w st \<Rightarrow> bool" where
  "made P k s t \<longleftrightarrow> (\<exists>es. log t = log s @ es \<and> length (filter P es) \<le> k)"

interpretation made: step_cost "made P" for P
proof
  show "made P 0 s s" for s :: "'a st"
    by (simp add: made_def)
  show "made P (m + n) s u" if "made P m s t" "made P n t u" for m n and s t u :: "'a st"
  proof -
    from that obtain es fs where "log t = log s @ es" "length (filter P es) \<le> m"
      and "log u = log t @ fs" "length (filter P fs) \<le> n" by (auto simp: made_def)
    then have "log u = log s @ (es @ fs)" "length (filter P (es @ fs)) \<le> m + n" by simp_all
    then show ?thesis unfolding made_def by blast
  qed
  show "made P n s t" if "made P m s t" "m \<le> n" for m n and s t :: "'a st"
    using that le_trans by (fastforce simp: made_def)
qed

lemma made_extG: "frame (made P 1) (extG ev f)"
  by (simp add: frame_def made_def go_eval)

lemma made_none: "frame (logs (\<lambda>e. \<not> P e)) m \<Longrightarrow> frame (made P 0) m"
  by (fastforce simp: frame_def made_def logs_def list_all_iff filter_empty_conv)

text \<open>The calls that only read, and those that can destroy data.\<close>

fun reads :: "event \<Rightarrow> bool" where
  "reads (AiGet _) = True"
| "reads (AiList _ _) = True"
| "reads (AiReload _) = True"
| "reads (MdGet _) = True"
| "reads (PpGet _) = True"
| "reads (SnapList _) = True"
| "reads (SnapReload _) = True"
| "reads (InitGet _) = True"
| "reads (AclGet _) = True"
| "reads SysGet = True"
| "reads (IpPoolGet _) = True"
| "reads _ = False"

fun destroys :: "event \<Rightarrow> bool" where
  "destroys (AiDelete _ _) = True"
| "destroys (SnapDelete _) = True"
| "destroys (AiSet _ st _) = (st \<noteq> ''online'')"
| "destroys _ = False"

lemma reads_not_destroys: "reads e \<Longrightarrow> \<not> destroys e"
  by (cases e) auto

end
