(* ===== verification/Common_Util.thy ===== *)
theory Common_Util
  imports Sdk_Interface
begin

text \<open>
  \<open>pkg/common/util.go\<close>: names and snapshot identifiers, translation of API errors, version
  comparison, the stripping of CHAP secrets, and the running of host programs.
\<close>

section \<open>Definitions\<close>

definition Ext4 :: string where "Ext4 = ''ext4''"

definition Xfs :: string where "Xfs = ''xfs''"

definition RunCmd :: "'w env \<Rightarrow> string list \<Rightarrow> ('w, string \<times> goerr option) io" where
  "RunCmd E cmd =
     (let ncmd = filter (\<lambda>c. c \<noteq> []) (map TrimSpace cmd)
      in if ncmd = [] then panic ''index out of range''
         else extG (Exec ncmd) (x_exec E ncmd))"

definition GenId :: "'w env \<Rightarrow> ('w, string) io" where
  "GenId E = extG NewUuid (x_new_uuid E)"

text \<open>\<open>MustS\<close> makes an error a panic; the package's \<open>host\<close> is \<open>MustS(os.Hostname())\<close>, which is what
  \<open>GetHost\<close> returns. \<open>Prettify\<close> drops the error of \<open>json.MarshalIndent\<close>, a parameter.\<close>

definition MustS :: "'w env \<Rightarrow> string \<Rightarrow> goerr option \<Rightarrow> ('w, string) io" where
  "MustS E s err = (case err of Some e \<Rightarrow> panic (ErrorText E e) | None \<Rightarrow> ret s)"

definition initHost :: "'w env \<Rightarrow> string \<times> goerr option \<Rightarrow> ('w, string) io" where
  "initHost E hostname = (case hostname of (s, err) \<Rightarrow> MustS E s err)"

definition GetHost :: "string \<Rightarrow> string" where
  "GetHost host = host"

definition Prettify :: "('v \<Rightarrow> string \<times> goerr option) \<Rightarrow> 'v \<Rightarrow> string" where
  "Prettify marshalIndent v = fst (marshalIndent v)"

text \<open>A \<open>context.Context\<close>: the values under the keys the driver uses, and gRPC's incoming
  metadata.\<close>

record rpc_ctx =
  ctx_TraceId :: "string option"
  ctx_ReqName :: "string option"
  ctx_Incoming :: "(string \<rightharpoonup> string list) option"

text \<open>\<open>WithCtxt\<close> starts from the package's top context: the argument's values are not kept.\<close>

definition topctxt :: rpc_ctx where
  "topctxt = \<lparr>ctx_TraceId = None, ctx_ReqName = None, ctx_Incoming = None\<rparr>"

definition WithCtxt :: "'w env \<Rightarrow> rpc_ctx \<Rightarrow> string \<Rightarrow> string \<Rightarrow> ('w, rpc_ctx) io" where
  "WithCtxt E ctxt reqName traceId =
     bindG (if traceId = [] then GenId E else ret traceId) (\<lambda>traceId.
     ret (topctxt\<lparr>ctx_TraceId := Some traceId, ctx_ReqName := Some reqName\<rparr>))"

text \<open>\<open>[]rune(s)\<close> and \<open>string(rs)\<close>: UTF-8, with U+FFFD for a byte that starts no valid
  sequence and for a rune that has none.\<close>

definition contByte :: "nat \<Rightarrow> nat \<Rightarrow> string \<Rightarrow> nat \<Rightarrow> bool" where
  "contByte lo hi bs i \<longleftrightarrow> i < length bs \<and> lo \<le> of_char (bs ! i) \<and> of_char (bs ! i) \<le> hi"

definition byteAt :: "string \<Rightarrow> nat \<Rightarrow> nat" where
  "byteAt bs i = of_char (bs ! i) mod 64"

fun decodeRunes :: "string \<Rightarrow> nat list" where
  "decodeRunes [] = []"
| "decodeRunes (b # bs) =
     (let n = (of_char b :: nat) in
      if n < 128 then n # decodeRunes bs
      else if 194 \<le> n \<and> n \<le> 223 \<and> contByte 128 191 bs 0 then
        ((n - 192) * 64 + byteAt bs 0) # decodeRunes (drop 1 bs)
      else if 224 \<le> n \<and> n \<le> 239
          \<and> contByte (if n = 224 then 160 else 128) (if n = 237 then 159 else 191) bs 0
          \<and> contByte 128 191 bs 1 then
        ((n - 224) * 4096 + byteAt bs 0 * 64 + byteAt bs 1) # decodeRunes (drop 2 bs)
      else if 240 \<le> n \<and> n \<le> 244
          \<and> contByte (if n = 240 then 144 else 128) (if n = 244 then 143 else 191) bs 0
          \<and> contByte 128 191 bs 1 \<and> contByte 128 191 bs 2 then
        ((n - 240) * 262144 + byteAt bs 0 * 4096 + byteAt bs 1 * 64 + byteAt bs 2)
          # decodeRunes (drop 3 bs)
      else 65533 # decodeRunes bs)"

definition encodeRune :: "nat \<Rightarrow> string" where
  "encodeRune r =
     (if r < 128 then [char_of r]
      else if r < 2048 then [char_of (192 + r div 64), char_of (128 + r mod 64)]
      else if (55296 \<le> r \<and> r \<le> 57343) \<or> 1114111 < r then
        [char_of (239::nat), char_of (191::nat), char_of (189::nat)]
      else if r < 65536 then
        [char_of (224 + r div 4096), char_of (128 + r div 64 mod 64), char_of (128 + r mod 64)]
      else
        [char_of (240 + r div 262144), char_of (128 + r div 4096 mod 64),
         char_of (128 + r div 64 mod 64), char_of (128 + r mod 64)])"

text \<open>\<open>rns[:n]\<close>: up to the slice's capacity, which the run time chooses at or above its length;
  beyond the capacity it panics. The bytes between length and capacity are zero.\<close>

definition sliceRunes :: "'w env \<Rightarrow> nat list \<Rightarrow> nat \<Rightarrow> ('w, nat list) io" where
  "sliceRunes E rns n =
     (if n \<le> length rns then ret (take n rns)
      else if n \<le> x_rune_cap E (length rns) then ret (rns @ replicate (n - length rns) 0)
      else panic ''slice bounds out of range'')"

definition GenName :: "'w env \<Rightarrow> string \<Rightarrow> ('w, string) io" where
  "GenName E name =
     bindG (if name = [] then GenId E else ret name) (\<lambda>name.
     bindG (if 58 < length name
            then bindG (sliceRunes E (decodeRunes name) 58) (\<lambda>rs. ret (concat (map encodeRune rs)))
            else ret name) (\<lambda>name.
     ret (joinWith ''-'' [''CSI'', name])))"

definition MkSnapId :: "string \<Rightarrow> string \<Rightarrow> string" where
  "MkSnapId vol snap = joinWith '':'' [vol, snap]"

definition ParseSnapId :: "string \<Rightarrow> string \<times> string" where
  "ParseSnapId snapId =
     (case splitOn CHR '':'' snapId of [a, b] \<Rightarrow> (a, b) | _ \<Rightarrow> ([], []))"

definition ErrTranslator :: "apierr \<Rightarrow> goerr" where
  "ErrTranslator a =
     (let msg = ae_Name a @ '': '' @ ae_Message a in
      if ae_Name a = ''AuthFailedError'' then StatusErr Unauthenticated msg
      else if ae_Name a = ''NotFound'' then StatusErr NotFound msg
      else StatusErr Unknown msg)"

text \<open>\<open>status.Code\<close> of gRPC is a parameter; its result \<open>None\<close> stands for \<open>codes.OK\<close>.\<close>

definition GetCode :: "(goerr option \<Rightarrow> code option) \<Rightarrow> goerr option \<Rightarrow> code option" where
  "GetCode statusCode err = statusCode err"

definition IsGrpcErr :: "(goerr option \<Rightarrow> code option) \<Rightarrow> goerr option \<Rightarrow> bool" where
  "IsGrpcErr statusCode err \<longleftrightarrow> statusCode err \<noteq> Some Unknown"

text \<open>The named groups of a match: \<open>names\<close> is \<open>r.SubexpNames()\<close> and \<open>submatch\<close> is \<open>r.FindStringSubmatch\<close>. The
  loop carries its index.\<close>

fun captureLoop :: "nat \<Rightarrow> string list \<Rightarrow> string list \<Rightarrow> smap \<Rightarrow> ('w, smap) io" where
  "captureLoop i [] found result = ret result"
| "captureLoop i (name # names) found result =
     (if i \<noteq> 0 \<and> name \<noteq> [] then
        bindG (indexG found (int i)) (\<lambda>m. captureLoop (Suc i) names found (result(name \<mapsto> m)))
      else captureLoop (Suc i) names found result)"

definition GetCaptureGroups ::
    "string list \<Rightarrow> (string \<Rightarrow> string list) \<Rightarrow> string \<Rightarrow> ('w, smap) io" where
  "GetCaptureGroups names submatch str =
     (if length (submatch str) \<noteq> 0 then captureLoop 0 names (submatch str) Map.empty else ret Map.empty)"

text \<open>The pattern after an SDK call: the transport error first, then the API error.\<close>

definition sdkResult :: "'r sdkres \<Rightarrow> goerr + 'r" where
  "sdkResult r = (case r of
      (_, _, Some e) \<Rightarrow> Inl e
    | (_, Some a, None) \<Rightarrow> Inl (ErrTranslator a)
    | (x, None, None) \<Rightarrow> Inr x)"

text \<open>\<open>factor\<close> is a \<open>float64\<close> in the source; it takes the values 10^8, 10^6, ..., 1, 1/100, ...,
  whose integer parts are exact.\<close>

fun versionLoop :: "rat \<Rightarrow> int \<Rightarrow> string list \<Rightarrow> goerr + int" where
  "versionLoop factor result [] = Inr result"
| "versionLoop factor result (c # cs) =
     (case ParseInt c 10 of
        (_, Some e) \<Rightarrow> Inl (NumError ''ParseInt'' c e)
      | (i, None) \<Rightarrow>
          versionLoop (factor / 100) (add64 result (mul64 i \<lfloor>factor\<rfloor>)) cs)"

definition versionToInt :: "string \<Rightarrow> goerr + int" where
  "versionToInt v = versionLoop (10 ^ 8) 0 (splitOn CHR ''.'' v)"

definition DatVersionGte :: "string \<Rightarrow> string \<Rightarrow> goerr + bool" where
  "DatVersionGte v1 v2 = (case versionToInt v1 of
      Inl e \<Rightarrow> Inl e
    | Inr a \<Rightarrow> (case versionToInt v2 of Inl e \<Rightarrow> Inl e | Inr b \<Rightarrow> Inr (b \<le> a)))"

definition chapUser :: string where "chapUser = ''node.session.auth.username''"
definition chapPass :: string where "chapPass = ''node.session.auth.password''"
definition chapUserIn :: string where "chapUserIn = ''node.session.auth.username_in''"
definition chapPassIn :: string where "chapPassIn = ''node.session.auth.password_in''"

definition stripped :: string where "stripped = ''***stripped***''"

text \<open>The secrets map is changed in place; the CHAP values are copied out before.\<close>

definition stripKey :: "string \<Rightarrow> smap \<times> smap \<Rightarrow> smap \<times> smap" where
  "stripKey k = (\<lambda>(secrets, chap). case secrets k of
      None \<Rightarrow> (secrets, chap)
    | Some v \<Rightarrow> (secrets(k \<mapsto> stripped), chap(k \<mapsto> v)))"

text \<open>The requests that carry secrets, and every other type (the \<open>default\<close> of the switch).\<close>

datatype secret_req = WithSecrets smap | OtherRequest

definition StripSecretsAndGetChapParams :: "secret_req \<Rightarrow> smap \<times> smap" where
  "StripSecretsAndGetChapParams req = (case req of
      OtherRequest \<Rightarrow> (Map.empty, Map.empty)
    | WithSecrets secrets \<Rightarrow>
        stripKey chapPassIn (stripKey chapUserIn (stripKey chapPass (stripKey chapUser
          (secrets, Map.empty)))))"

section \<open>Snapshot identifiers\<close>

text \<open>The interface of an identifier made of two parts.\<close>

locale pair_code =
  fixes mk :: "'a \<Rightarrow> 'a \<Rightarrow> 'c" and parse :: "'c \<Rightarrow> 'a \<times> 'a" and part :: "'a \<Rightarrow> bool"
  assumes parse_mk: "part a \<Longrightarrow> part b \<Longrightarrow> parse (mk a b) = (a, b)"
begin

lemma mk_inject:
  assumes "part a" "part b" "part a'" "part b'"
  shows "mk a b = mk a' b' \<longleftrightarrow> a = a' \<and> b = b'"
  using assms parse_mk by (metis prod.inject)

lemma parse_surj: "part a \<Longrightarrow> part b \<Longrightarrow> (a, b) \<in> range parse"
  by (metis parse_mk rangeI)

end

interpretation snapid: pair_code MkSnapId ParseSnapId "\<lambda>p. CHR '':'' \<notin> set p"
  by unfold_locales (simp add: MkSnapId_def ParseSnapId_def splitOn_append splitOn_no_sep)

lemma ParseSnapId_cases:
  "ParseSnapId s = (a, b) \<Longrightarrow>
     (s = MkSnapId a b \<and> CHR '':'' \<notin> set a \<and> CHR '':'' \<notin> set b) \<or> (a = [] \<and> b = [])"
  by (auto simp: ParseSnapId_def MkSnapId_def splitOn_two split: list.splits
      dest!: sym [of _ "splitOn CHR '':'' s"] intro: join_splitOn)

text \<open>C38: a snapshot identifier built for a volume name and a snapshot id is parsed back to the
  same two parts, exactly when neither part holds the separator.\<close>

theorem ParseSnapId_MkSnapId_iff:
  "(ParseSnapId (MkSnapId v s) = (v, s)) = (CHR '':'' \<notin> set v \<and> CHR '':'' \<notin> set s)"
  using ParseSnapId_cases [of "MkSnapId v s" v s] by (auto simp: snapid.parse_mk)

section \<open>Named groups\<close>

definition namedGroups :: "string list \<Rightarrow> string list \<Rightarrow> (string \<times> string) list" where
  "namedGroups names found = filter (\<lambda>(n, _). n \<noteq> []) (zip names found)"

lemma captureLoop_run:
  "0 < i \<Longrightarrow> length found = i + length names \<Longrightarrow>
   captureLoop i names found result s = (Ret (result ++ map_of (rev (namedGroups names (drop i found)))), s)"
proof (induction names arbitrary: i result)
  case (Cons name names)
  have drop: "drop i found = found ! i # drop (Suc i) found"
    using Cons.prems(2) by (simp add: Cons_nth_drop_Suc)
  note IH = Cons.IH [of "Suc i"]
  show ?case
  proof (cases "name = []")
    case True
    then show ?thesis
      using IH [of result] Cons.prems by (simp add: namedGroups_def drop)
  next
    case False
    have rest: "captureLoop (Suc i) names found r s =
        (Ret (r ++ map_of (rev (namedGroups names (drop (Suc i) found)))), s)" for r
      using IH [of r] Cons.prems by simp
    have "namedGroups (name # names) (drop i found) = (name, found ! i) # namedGroups names (drop (Suc i) found)"
      using False by (simp add: namedGroups_def drop)
    then show ?thesis
      using Cons.prems False by (simp add: go_eval rest)
  qed
qed (simp add: go_eval namedGroups_def)

text \<open>A match with as many groups as the expression has names gives the map of the named groups, the
  later group for a name that comes twice, and leaves out the whole match and unnamed groups; no
  match gives the empty map.\<close>

lemma GetCaptureGroups_run:
  assumes "names \<noteq> []" and "submatch str = [] \<or> length (submatch str) = length names"
  shows "GetCaptureGroups names submatch str s = (Ret (map_of (rev (namedGroups (tl names) (tl (submatch str))))), s)"
proof (cases "submatch str = []")
  case False
  with assms have "length (submatch str) = 1 + length (tl names)" by (cases names) auto
  moreover from assms(1) obtain n ns where "names = n # ns" by (cases names) auto
  ultimately show ?thesis
    using False captureLoop_run [of 1 "submatch str" ns Map.empty]
    by (simp add: GetCaptureGroups_def drop_Suc)
qed (simp add: GetCaptureGroups_def go_eval namedGroups_def)

section \<open>Versions\<close>

text \<open>The documented order: component by component. \<open>dotted\<close> writes a version as the backend
  does.\<close>

fun version_le :: "nat list \<Rightarrow> nat list \<Rightarrow> bool" where
  "version_le (x # xs) (y # ys) = (x < y \<or> (x = y \<and> version_le xs ys))"
| "version_le _ _ = True"

definition dotted :: "nat list \<Rightarrow> string" where
  "dotted xs = joinWith ''.'' (map (FormatInt \<circ> int) xs)"

fun weight :: "nat \<Rightarrow> nat list \<Rightarrow> nat" where
  "weight k [] = 0"
| "weight k (x # xs) = x * 100 ^ k + weight (k - 1) xs"

lemma natDigits_no_dot: "CHR ''.'' \<notin> set (natDigits n)"
  using natDigits_bytes [of n] digitChar_neq [where c = "CHR ''.''"] by (fastforce simp: image_iff)

lemma splitOn_dotted: "xs \<noteq> [] \<Longrightarrow> splitOn CHR ''.'' (dotted xs) = map (FormatInt \<circ> int) xs"
  unfolding dotted_def by (rule splitOn_join) (auto simp: FormatInt_def natDigits_no_dot)

lemma weight_less:
  "length xs \<le> Suc k \<Longrightarrow> list_all (\<lambda>x. x < 100) xs \<Longrightarrow> weight k xs < 100 ^ Suc k"
proof (induction xs arbitrary: k)
  case (Cons x xs)
  show ?case
  proof (cases xs)
    case Nil
    with Cons.prems show ?thesis by simp
  next
    case (Cons y ys)
    with Cons.prems have k: "0 < k" by simp
    with Cons.IH [of "k - 1"] Cons.prems have "weight (k - 1) xs < 100 ^ k" by simp
    moreover have "x * 100 ^ k \<le> 99 * 100 ^ k"
      using Cons.prems by (intro mult_le_mono1) simp
    ultimately have "x * 100 ^ k + weight (k - 1) xs < 99 * 100 ^ k + 100 ^ k" by linarith
    then show ?thesis by simp
  qed
qed simp

lemma weight_compare:
  "length xs = length ys \<Longrightarrow> length xs \<le> Suc k \<Longrightarrow> list_all (\<lambda>x. x < 100) xs \<Longrightarrow>
   list_all (\<lambda>x. x < 100) ys \<Longrightarrow> weight k xs \<le> weight k ys \<longleftrightarrow> version_le xs ys"
proof (induction xs ys arbitrary: k rule: list_induct2')
  case (4 x xs y ys)
  have lt: "a * 100 ^ k + weight (k - 1) as < b * 100 ^ k + weight (k - 1) bs"
    if "a < b" "length as \<le> k" "list_all (\<lambda>x. x < 100) as" for a b :: nat and as bs
  proof (cases "as = []")
    case True
    with that show ?thesis by (simp add: trans_less_add1)
  next
    case False
    with that have "weight (k - 1) as < 100 ^ k"
      using weight_less [of as "k - 1"] by (cases k) auto
    moreover have "a * 100 ^ k + 100 ^ k \<le> b * 100 ^ k"
      using that(1) by (metis Suc_leI add.commute mult_Suc mult_le_mono1)
    ultimately show ?thesis by simp
  qed
  consider "x < y" | "y < x" | "x = y" by linarith
  then show ?case
  proof cases
    case 1
    with 4 lt [of x y xs ys] show ?thesis by simp
  next
    case 2
    with 4 lt [of y x ys xs] show ?thesis by simp
  next
    case 3
    show ?thesis
    proof (cases k)
      case 0
      with 3 4 show ?thesis by simp
    next
      case (Suc j)
      with 3 4 show ?thesis by simp
    qed
  qed
qed auto

lemma int64_small: "0 \<le> x \<Longrightarrow> x \<le> 2 ^ 62 \<Longrightarrow> int64 x"
  by (simp add: int64_def)

lemma versionLoop_weight:
  "length xs \<le> Suc k \<Longrightarrow> k \<le> 4 \<Longrightarrow> list_all (\<lambda>x. x < 100) xs \<Longrightarrow>
   0 \<le> r \<Longrightarrow> r + 100 ^ Suc k \<le> 2 ^ 62 \<Longrightarrow>
   versionLoop (100 ^ k) r (map (FormatInt \<circ> int) xs) = Inr (r + int (weight k xs))"
proof (induction xs arbitrary: k r)
  case (Cons x xs)
  have x: "x < 100" using Cons.prems by simp
  have pk: "(100::int) ^ k \<le> 100000000"
    using Cons.prems(2) power_increasing [of k 4 "100::int"] by simp
  have i: "int64 (int x)" using x by (simp add: int64_def)
  have xk: "int x * 100 ^ k \<le> 99 * 100 ^ k" using x by simp
  have "0 \<le> int x * 100 ^ k" by simp
  moreover have "int x * 100 ^ k \<le> 9900000000" using xk pk by linarith
  ultimately have "int64 (int x * 100 ^ k)" by (intro int64_small) auto
  then have m: "mul64 (int x) (100 ^ k) = int x * 100 ^ k"
    by (simp add: mul64_def)
  have a: "add64 r (int x * 100 ^ k) = r + int x * 100 ^ k"
  proof -
    have "int x * 100 ^ k \<le> 100 ^ Suc k" using xk by simp
    then have "r + int x * 100 ^ k \<le> 2 ^ 62" using Cons.prems(5) by linarith
    then have "int64 (r + int x * 100 ^ k)" using Cons.prems(4) by (intro int64_small) simp_all
    then show ?thesis by (simp add: add64_def)
  qed
  have step: "versionLoop (100 ^ k) r (map (FormatInt \<circ> int) (x # xs)) =
      versionLoop (100 ^ k / 100) (r + int x * 100 ^ k) (map (FormatInt \<circ> int) xs)"
    using i by (simp add: ParseInt_FormatInt m a)
  show ?case
  proof (cases xs)
    case Nil
    with step show ?thesis by simp
  next
    case (Cons y ys)
    with \<open>length (x # xs) \<le> Suc k\<close> obtain j where k: "k = Suc j" by (cases k) auto
    have "versionLoop (100 ^ j) (r + int x * 100 ^ k) (map (FormatInt \<circ> int) xs) =
        Inr (r + int x * 100 ^ k + int (weight j xs))"
    proof (rule Cons.IH)
      show "r + int x * 100 ^ k + 100 ^ Suc j \<le> 2 ^ 62"
      proof -
        have "(100::int) ^ Suc j = 100 ^ k" and "(100::int) ^ Suc k = 100 * 100 ^ k"
          by (simp_all add: k)
        with Cons.prems(5) xk show ?thesis by linarith
      qed
    qed (use Cons.prems k in auto)
    then show ?thesis unfolding step by (simp add: k add.assoc)
  qed
qed simp

lemma versionToInt_weight:
  assumes "xs \<noteq> []" "length xs \<le> 5" "list_all (\<lambda>x. x < 100) xs"
  shows "versionToInt (dotted xs) = Inr (int (weight 4 xs))"
proof -
  have "versionLoop (100 ^ 4) 0 (map (FormatInt \<circ> int) xs) = Inr (0 + int (weight 4 xs))"
    using assms by (intro versionLoop_weight) auto
  with assms(1) show ?thesis by (simp add: versionToInt_def splitOn_dotted)
qed



text \<open>The bound of 100 per component is sharp: a patch level of 100 carries into the minor
  version, so 3.2.100.0 counts as at least 3.3.0.0 although it is the older version.\<close>

lemma DatVersionGte_carries:
  "DatVersionGte ''3.2.100.0'' ''3.3.0.0'' = Inr True \<and> \<not> version_le [3, 3, 0, 0] [3, 2, 100, 0]"
proof
  have p: "ParseInt ''0'' 10 = (0, None)" "ParseInt ''2'' 10 = (2, None)"
    "ParseInt ''3'' 10 = (3, None)" "ParseInt ''100'' 10 = (100, None)"
    by (simp_all add: ParseInt_def ParseUint_def digitOf_def lowerc_def)
  have "versionToInt ''3.2.100.0'' = Inr 303000000" "versionToInt ''3.3.0.0'' = Inr 303000000"
    by (simp_all add: versionToInt_def p mul64_def add64_def int64_def)
  then show "DatVersionGte ''3.2.100.0'' ''3.3.0.0'' = Inr True"
    by (simp add: DatVersionGte_def)
qed simp

section \<open>Volume names\<close>

definition ascii :: "string \<Rightarrow> bool" where
  "ascii s = list_all (\<lambda>c. (of_char c :: nat) < 128) s"

lemma decodeRunes_ascii: "ascii s \<Longrightarrow> decodeRunes s = map of_char s"
  by (induction s) (auto simp: ascii_def Let_def)

lemma encode_ascii: "ascii s \<Longrightarrow> concat (map (encodeRune \<circ> of_char) s) = s"
  by (induction s) (auto simp: ascii_def encodeRune_def)

lemma GenName_run:
  assumes "ascii name" and "name \<noteq> []"
  shows "GenName E name s = (Ret (''CSI-'' @ take 58 name), s)"
proof (cases "58 < length name")
  case True
  have "ascii (take 58 name)"
    using assms(1) by (auto simp: ascii_def list_all_iff dest: in_set_takeD)
  with True assms show ?thesis
    by (simp add: GenName_def sliceRunes_def decodeRunes_ascii take_map encode_ascii go_eval)
qed (use assms in \<open>simp add: GenName_def go_eval\<close>)

text \<open>A non-empty ASCII name gives the volume name \<open>CSI-\<close> and its first 58 bytes, without a call
  to the outside; so two requests are for the same volume exactly when the first 58 bytes of
  their names agree.\<close>

theorem GenName_ascii:
  assumes "ascii a" and "a \<noteq> []" and "ascii b" and "b \<noteq> []"
  shows "GenName E a s = (Ret (''CSI-'' @ take 58 a), s) \<and>
    (fst (GenName E a s) = fst (GenName E b s)) = (take 58 a = take 58 b)"
  using assms by (simp add: GenName_run)

theorem GenName_ascii_witness:
  "\<forall>E s. GenName E ''pvc-1'' s = (Ret ''CSI-pvc-1'', s) \<and>
     fst (GenName E ''pvc-1'' s) \<noteq> fst (GenName E ''pvc-2'' s)"
proof (intro allI)
  fix E :: "'w env" and s :: "'w st"
  have "GenName E ''pvc-1'' s = (Ret (''CSI-'' @ take 58 ''pvc-1''), s) \<and>
    (fst (GenName E ''pvc-1'' s) = fst (GenName E ''pvc-2'' s)) = (take 58 ''pvc-1'' = take 58 ''pvc-2'')"
    by (rule GenName_ascii) (simp_all add: ascii_def)
  moreover have "take 58 ''pvc-1'' \<noteq> take 58 ''pvc-2''" "''CSI-'' @ take 58 ''pvc-1'' = ''CSI-pvc-1''"
    by simp_all
  ultimately show "GenName E ''pvc-1'' s = (Ret ''CSI-pvc-1'', s) \<and>
     fst (GenName E ''pvc-1'' s) \<noteq> fst (GenName E ''pvc-2'' s)"
    by metis
qed

section \<open>Secrets\<close>

definition chapKeys :: "string list" where
  "chapKeys = [chapUser, chapPass, chapUserIn, chapPassIn]"

lemma fold_stripKey:
  "distinct ks \<Longrightarrow> fold stripKey ks (m, c) =
     (\<lambda>k. if k \<in> set ks then map_option (\<lambda>_. stripped) (m k) else m k,
      \<lambda>k. if k \<in> set ks \<and> m k \<noteq> None then m k else c k)"
proof (induction ks arbitrary: m c)
  case (Cons k ks)
  then show ?case
    by (cases "m k") (auto simp: stripKey_def fun_eq_iff)
qed (simp add: fun_eq_iff)

lemma StripSecrets_fold:
  "StripSecretsAndGetChapParams (WithSecrets m) = fold stripKey chapKeys (m, Map.empty)"
  by (simp add: StripSecretsAndGetChapParams_def chapKeys_def)

lemma distinct_chapKeys: "distinct chapKeys"
  by (simp add: chapKeys_def chapUser_def chapPass_def chapUserIn_def chapPassIn_def)

text \<open>Of a request's secrets the four CHAP values, and nothing else, are handed on; in the
  request every one of them is overwritten, so no log line of the request can show it; the other
  entries and the set of keys stay.\<close>

theorem StripSecrets_correct:
  "StripSecretsAndGetChapParams (WithSecrets m) =
     (\<lambda>k. if k \<in> set chapKeys then map_option (\<lambda>_. stripped) (m k) else m k,
      \<lambda>k. if k \<in> set chapKeys then m k else None)"
  by (auto simp: StripSecrets_fold fold_stripKey [OF distinct_chapKeys] fun_eq_iff)

section \<open>Running programs\<close>

lemma RunCmd_frame [frame_intros]:
  "(\<And>c. Q (Exec c)) \<Longrightarrow> frame (logs Q) (RunCmd E cmd)"
  "frame (keeps driver_fields) (RunCmd E cmd)"
  by (auto simp: RunCmd_def Let_def intro!: frame_intros)

lemma GenName_frame [frame_intros]:
  "Q NewUuid \<Longrightarrow> frame (logs Q) (GenName E name)"
  "frame (keeps driver_fields) (GenName E name)"
  by (auto simp: GenName_def GenId_def sliceRunes_def intro!: frame_intros)

text \<open>A command whose arguments are all blank makes the process panic; any other command is
  run once, with the blank arguments dropped and the others trimmed.\<close>

lemma RunCmd_behaviour:
  "RunCmd E cmd s =
     (if list_all (\<lambda>c. TrimSpace c = []) cmd then (Panic ''index out of range'', s)
      else let args = filter (\<lambda>c. c \<noteq> []) (map TrimSpace cmd); (r, w) = x_exec E args (ext s)
           in (Ret r, s\<lparr>log := log s @ [Exec args], ext := w\<rparr>))"
  by (simp add: RunCmd_def Let_def go_eval filter_empty_conv split_beta list_all_iff)

end
