(* ===== verification/Client_System.thy ===== *)
theory Client_System
  imports Common_Util
begin

text \<open>
  \<open>pkg/client/system.go\<close>, \<open>client.go\<close> and \<open>ip_pool.go\<close>: capacity, vendor version and manifest of
  the Datera system, the health check and the log push. The client's only mutable field read by
  no call, \<open>vendorVersion\<close>, is \<open>c_vendorVersion\<close> of the state; the context it carries is for
  tracing and is left out.
\<close>

text \<open>An SDK call with its error handling: every component goes through it.\<close>

definition sdkCall :: "event \<Rightarrow> ('w \<Rightarrow> 'r sdkres \<times> 'w) \<Rightarrow> ('w, goerr + 'r) io" where
  "sdkCall ev f = bindG (extG ev f) (\<lambda>r. ret (sdkResult r))"

lemma sdkCall_run [go_eval]:
  "sdkCall ev f s = (Ret (sdkResult (fst (f (ext s)))),
     s\<lparr>log := log s @ [ev], ext := snd (f (ext s))\<rparr>)"
  by (simp add: sdkCall_def go_eval)

lemma sdkCall_frame [frame_intros]:
  "Q ev \<Longrightarrow> frame (logs Q) (sdkCall ev f)"
  "frame (keeps driver_fields) (sdkCall ev f)"
  by (auto simp: sdkCall_def intro!: frame_intros)

text \<open>\<open>DateraClient\<close> apart from the SDK's values: its context and version. \<open>sdkNew\<close> and \<open>sdkWith\<close> are the
  SDK's methods of the same names.\<close>

record 'c datera_client =
  dc_ctxt :: 'c
  dc_vendorVersion :: string

definition NewContext :: "'c \<Rightarrow> 'c datera_client \<Rightarrow> 'c \<times> 'c datera_client" where
  "NewContext sdkNew r = (sdkNew, r\<lparr>dc_ctxt := sdkNew\<rparr>)"

definition WithContext :: "('c \<Rightarrow> 'c) \<Rightarrow> 'c \<Rightarrow> 'c datera_client \<Rightarrow> 'c \<times> 'c datera_client" where
  "WithContext sdkWith ctxt r = (sdkWith ctxt, r\<lparr>dc_ctxt := sdkWith ctxt\<rparr>)"

record capacity =
  cap_Total :: int
  cap_Provisioned :: int
  cap_FlashTotal :: int
  cap_FlashProvisioned :: int
  cap_HybridTotal :: int
  cap_HybridProvisioned :: int

definition GetCapacity :: "'w env \<Rightarrow> ('w, goerr + capacity) io" where
  "GetCapacity E =
     tryG (sdkCall SysGet (x_sys_get E)) (\<lambda>p.
     bindG (derefG p) (\<lambda>sys. ret (Inr
       \<lparr>cap_Total = sy_TotalCapacity sys,
        cap_Provisioned = sy_TotalProvisionedCapacity sys,
        cap_FlashTotal = sy_AllFlashTotalCapacity sys,
        cap_FlashProvisioned = sy_AllFlashProvisionedCapacity sys,
        cap_HybridTotal = sy_HybridTotalCapacity sys,
        cap_HybridProvisioned = sy_HybridProvisionedCapacity sys\<rparr>)))"

definition VendorVersion :: "'w env \<Rightarrow> ('w, goerr + string) io" where
  "VendorVersion E =
     tryG (sdkCall SysGet (x_sys_get E)) (\<lambda>p.
     bindG (derefG p) (\<lambda>sys.
     bindG (updG (\<lambda>s. s\<lparr>c_vendorVersion := sy_SwVersion sys\<rparr>)) (\<lambda>_.
     ret (Inr (sy_SwVersion sys)))))"

definition GetManifest :: "'w env \<Rightarrow> ('w, goerr + manifest) io" where
  "GetManifest E =
     tryG (sdkCall SysGet (x_sys_get E)) (\<lambda>p.
     bindG (derefG p) (\<lambda>sys.
     bindG (updG (\<lambda>s. s\<lparr>c_vendorVersion := sy_SwVersion sys\<rparr>)) (\<lambda>_.
     ret (Inr
       \<lparr>mf_BuildVersion = sy_BuildVersion sys,
        mf_CallhomeEnabled = FormatBool (sy_CallhomeEnabled sys),
        mf_CompressionEnabled = FormatBool (sy_CompressionEnabled sys),
        mf_Health = sy_Health sys,
        mf_L3Enabled = FormatBool (sy_L3Enabled sys),
        mf_Name = sy_Name sys,
        mf_OpState = sy_OpState sys,
        mf_SwVersion = sy_SwVersion sys,
        mf_Timezone = sy_Timezone sys,
        mf_Uuid = sy_Uuid sys\<rparr>))))"

definition HealthCheck :: "'w env \<Rightarrow> ('w, goerr + manifest) io" where
  "HealthCheck E = GetManifest E"

definition LogPush :: "'w env \<Rightarrow> string \<Rightarrow> string \<Rightarrow> ('w, goerr option) io" where
  "LogPush E rule rotated = extG (LogRotate rule rotated) (x_log_rotate E rule rotated)"

definition GetIpPoolFromName :: "'w env \<Rightarrow> string \<Rightarrow> ('w, goerr + ip_pool) io" where
  "GetIpPoolFromName E name =
     tryG (sdkCall (IpPoolGet name) (x_ippool_get E name)) (\<lambda>p.
     bindG (derefG p) (\<lambda>ipp.
     ret (Inr \<lparr>ipp_Name = ipp_Name ipp, ipp_Path = ipp_Path ipp\<rparr>)))"

text \<open>Setting the client's \<open>vendorVersion\<close> is no call and no field of the driver.\<close>

lemma set_vendorVersion_frame [frame_intros]:
  "frame (logs Q) (updG (\<lambda>s. s\<lparr>c_vendorVersion := v\<rparr>))"
  "frame (keeps driver_fields) (updG (\<lambda>s. s\<lparr>c_vendorVersion := v\<rparr>))"
  by (simp_all add: frame_def go_eval logs_def keeps_def driver_fields_def)

lemma system_frame [frame_intros]:
  "Q SysGet \<Longrightarrow> frame (logs Q) (GetCapacity E)"
  "Q SysGet \<Longrightarrow> frame (logs Q) (VendorVersion E)"
  "Q SysGet \<Longrightarrow> frame (logs Q) (GetManifest E)"
  "frame (keeps driver_fields) (GetCapacity E)"
  "frame (keeps driver_fields) (VendorVersion E)"
  "frame (keeps driver_fields) (GetManifest E)"
  by (auto simp: GetCapacity_def VendorVersion_def GetManifest_def intro!: frame_intros)

end
