(* ===== verification/Client_Volume.thy ===== *)
theory Client_Volume
  imports Client_System
begin

text \<open>
  \<open>pkg/client/volume.go\<close> (but for the deletion of a volume, which needs the snapshots) and
  \<open>RegisterIpPool\<close> of \<open>ip_pool.go\<close>: the client's view of a volume, built from an application
  instance, and the calls that create, read, resize and update it. A method with a pointer
  receiver returns the updated volume. The slices, maps and pointers read are those of the
  source; an index or a nil pointer the code does not check is a panic here too.
\<close>

section \<open>Volumes and volume options\<close>

text \<open>docker's \<open>units.GiB\<close>.\<close>

definition GiB :: int where "GiB = 1073741824"

record vol_opts =
  vo_Size :: int
  vo_Replica :: int
  vo_Template :: string
  vo_FsType :: string
  vo_FsArgs :: "string list"
  vo_PlacementMode :: string
  vo_PlacementPolicy :: string
  vo_CloneSrc :: string
  vo_CloneVolSrc :: string
  vo_CloneSnapSrc :: string
  vo_IpPool :: string
  vo_RoundRobin :: bool
  vo_DeleteOnUnmount :: bool
  vo_DisableTemplateOverride :: bool
  vo_WriteIopsMax :: int
  vo_ReadIopsMax :: int
  vo_TotalIopsMax :: int
  vo_WriteBandwidthMax :: int
  vo_ReadBandwidthMax :: int
  vo_TotalBandwidthMax :: int
  vo_IopsPerGb :: int
  vo_BandwidthPerGb :: int

text \<open>The zero value.\<close>

definition emptyOpts :: vol_opts where
  "emptyOpts = \<lparr>vo_Size = 0, vo_Replica = 0, vo_Template = [], vo_FsType = [], vo_FsArgs = [],
     vo_PlacementMode = [], vo_PlacementPolicy = [], vo_CloneSrc = [], vo_CloneVolSrc = [],
     vo_CloneSnapSrc = [], vo_IpPool = [], vo_RoundRobin = False, vo_DeleteOnUnmount = False,
     vo_DisableTemplateOverride = False, vo_WriteIopsMax = 0, vo_ReadIopsMax = 0,
     vo_TotalIopsMax = 0, vo_WriteBandwidthMax = 0, vo_ReadBandwidthMax = 0,
     vo_TotalBandwidthMax = 0, vo_IopsPerGb = 0, vo_BandwidthPerGb = 0\<rparr>"

record volume =
  v_dc :: bool  \<comment> \<open>the client pointer is not nil\<close>
  v_Ai :: app_instance
  v_Name :: string
  v_AdminState :: string
  v_RepairPriority :: string
  v_Template :: string
  v_TargetOpState :: string
  v_Ips :: "string list"
  v_Iqn :: string
  v_Initiators :: "string list"
  v_Replicas :: int
  v_PlacementMode :: string
  v_PlacementPolicy :: string
  v_Size :: int
  v_QoS :: "perf_policy option"  \<comment> \<open>nil, or the map with the six limits\<close>
  v_Limits :: perf_policy  \<comment> \<open>the six direct-access fields\<close>
  v_DevicePath :: string
  v_MountPath :: string
  v_BindMountPaths :: "string list option"
  v_FsType :: string
  v_FsArgs :: "string list"
  v_Formatted :: bool

definition noLimits :: perf_policy where
  "noLimits = \<lparr>pp_ReadIopsMax = 0, pp_WriteIopsMax = 0, pp_TotalIopsMax = 0,
     pp_ReadBandwidthMax = 0, pp_WriteBandwidthMax = 0, pp_TotalBandwidthMax = 0\<rparr>"

text \<open>\<open>m[k]\<close> of a Go map: the empty string for a missing key.\<close>

definition mdGet :: "smap \<Rightarrow> string \<Rightarrow> string" where
  "mdGet m k = (case m k of None \<Rightarrow> [] | Some v \<Rightarrow> v)"

definition ToMap :: "vol_opts \<Rightarrow> smap" where
  "ToMap v = map_of
     [(''size'', FormatInt (vo_Size v)),
      (''replica'', FormatInt (vo_Replica v)),
      (''template'', vo_Template v),
      (''fs_type'', vo_FsType v),
      (''fs_args'', joinWith '' '' (vo_FsArgs v)),
      (''placement'', vo_PlacementMode v),
      (''placement_policy'', vo_PlacementPolicy v),
      (''clone_src'', vo_CloneSrc v),
      (''clone_vol_src'', vo_CloneVolSrc v),
      (''clone_snap_src'', vo_CloneSnapSrc v),
      (''ip_pool'', vo_IpPool v),
      (''round_robin'', FormatBool (vo_RoundRobin v)),
      (''delete_on_unmount'', FormatBool (vo_DeleteOnUnmount v)),
      (''disable_template_override'', FormatBool (vo_DisableTemplateOverride v)),
      (''write_iops_max'', FormatInt (vo_WriteIopsMax v)),
      (''read_iops_max'', FormatInt (vo_ReadIopsMax v)),
      (''total_iops_max'', FormatInt (vo_TotalIopsMax v)),
      (''write_bandwidth_max'', FormatInt (vo_WriteBandwidthMax v)),
      (''read_bandwidth_max'', FormatInt (vo_ReadBandwidthMax v)),
      (''total_bandwidth_max'', FormatInt (vo_TotalBandwidthMax v)),
      (''iops_per_gb'', FormatInt (vo_IopsPerGb v)),
      (''bandwidth_per_gb'', FormatInt (vo_BandwidthPerGb v))]"

section \<open>Metadata\<close>

definition GetMetadata :: "'w env \<Rightarrow> app_instance \<Rightarrow> ('w, goerr + smap) io" where
  "GetMetadata E ai =
     tryG (sdkCall (MdGet (ai_Name ai)) (x_md_get E ai)) (\<lambda>resp.
     bindG (derefG resp) (\<lambda>md. ret (Inr md)))"

text \<open>With \<open>MetadataDebug\<close> the present metadata is read first, to log the size of the result.\<close>

definition SetMetadata :: "'w env \<Rightarrow> bool \<Rightarrow> volume \<Rightarrow> smap \<Rightarrow> ('w, goerr + smap) io" where
  "SetMetadata E debug r md =
     tryG (if debug then GetMetadata E (v_Ai r) else ret (Inr md)) (\<lambda>_.
     tryG (sdkCall (MdSet (ai_Name (v_Ai r)) md) (x_md_set E (v_Ai r) md)) (\<lambda>resp.
     bindG (derefG resp) (\<lambda>md'. ret (Inr md'))))"

section \<open>From an application instance to a volume\<close>

definition firstVolume :: "app_instance \<Rightarrow> ('w, storage_instance \<times> dvolume) io" where
  "firstVolume ai =
     bindG (indexG (ai_StorageInstances ai) 0) (\<lambda>si.
     bindG (indexG (si_Volumes si) 0) (\<lambda>v. ret (si, v)))"

definition readLimits :: "'w env \<Rightarrow> bool \<Rightarrow> bool \<Rightarrow> dvolume \<Rightarrow> ('w, goerr + perf_policy option) io" where
  "readLimits E qos client v =
     (if qos \<and> client then
        tryG (sdkCall (PpGet (dv_Path v)) (x_pp_get E v)) (\<lambda>resp.
        bindG (derefG resp) (\<lambda>pp. ret (Inr (Some pp))))
      else ret (Inr None))"

definition withMetadata :: "'w env \<Rightarrow> smap \<Rightarrow> volume \<Rightarrow> volume" where
  "withMetadata E md vol = vol
     \<lparr>v_DevicePath := mdGet md ''device_path'',
      v_MountPath := mdGet md ''mount_path'',
      v_BindMountPaths := Some (x_ss_new E (splitOn CHR '' '' (mdGet md ''bind-mount-paths''))),
      v_FsType := mdGet md ''fs_type'',
      v_FsArgs := splitOn CHR '' '' (mdGet md ''fs_args''),
      v_Formatted := (case md ''formatted'' of None \<Rightarrow> False | Some f \<Rightarrow> f \<noteq> ''false'')\<rparr>"

definition aiToClientVol ::
    "'w env \<Rightarrow> app_instance option \<Rightarrow> bool \<Rightarrow> bool \<Rightarrow> bool \<Rightarrow> ('w, goerr + volume) io" where
  "aiToClientVol E ai qos metadata client = (case ai of
      None \<Rightarrow> ret (Inl (PlainErr ''Cannot construct a Client Volume from a nil AppInstance''))
    | Some ai \<Rightarrow>
        bindG (firstVolume ai) (\<lambda>(si, v).
        bindG (derefG (si_AclPolicy si)) (\<lambda>acl.
        tryG (readLimits E qos client v) (\<lambda>pp.
        bindG (derefG (ai_AppTemplate ai)) (\<lambda>template.
        let vol =
          \<lparr>v_dc = client, v_Ai = ai, v_Name = ai_Name ai, v_AdminState = ai_AdminState ai,
           v_RepairPriority = ai_RepairPriority ai, v_Template = template,
           v_TargetOpState = si_OpState si, v_Ips = si_Ips si, v_Iqn = si_Iqn si,
           v_Initiators = map in_Name (acl_Initiators acl),
           v_Replicas = dv_ReplicaCount v, v_PlacementMode = dv_PlacementMode v,
           v_PlacementPolicy = [],
           v_Size = dv_Size v, v_QoS = pp,
           v_Limits = (case pp of None \<Rightarrow> noLimits | Some p \<Rightarrow> p),
           v_DevicePath = [], v_MountPath = [], v_BindMountPaths = None,
           v_FsType = [], v_FsArgs = [], v_Formatted = False\<rparr>
        in if metadata then
             tryG (GetMetadata E ai) (\<lambda>md. ret (Inr (withMetadata E md vol)))
           else ret (Inr vol))))))"

definition GetVolume :: "'w env \<Rightarrow> string \<Rightarrow> bool \<Rightarrow> bool \<Rightarrow> ('w, goerr + volume) io" where
  "GetVolume E name qos metadata =
     (if name = [] then ret (Inl (PlainErr ''Volume name cannot be an empty string''))
      else
        tryG (sdkCall (AiGet name) (x_ai_get E name)) (\<lambda>newAi.
        aiToClientVol E newAi qos metadata True))"

text \<open>\<open>Reload\<close> ignores the error of the conversion and then copies from the nil result.\<close>

definition Reload :: "'w env \<Rightarrow> volume \<Rightarrow> bool \<Rightarrow> bool \<Rightarrow> ('w, goerr + volume) io" where
  "Reload E r qos metadata =
     tryG (sdkCall (AiReload (ai_Name (v_Ai r))) (x_ai_reload E (v_Ai r))) (\<lambda>newAi.
     bindG (aiToClientVol E newAi qos metadata (v_dc r)) (\<lambda>res.
     bindG (derefG (case res of Inl _ \<Rightarrow> None | Inr v \<Rightarrow> Some v)) (\<lambda>v. ret (Inr v))))"

definition Resize :: "'w env \<Rightarrow> volume \<Rightarrow> int \<Rightarrow> ('w, goerr + volume) io" where
  "Resize E r newSize =
     bindG (firstVolume (v_Ai r)) (\<lambda>(_, v).
     tryG (sdkCall (VolSet (dv_Path v) newSize) (x_vol_set E v newSize)) (\<lambda>_.
     Reload E r False False))"

definition Online :: "'w env \<Rightarrow> volume \<Rightarrow> ('w, goerr + volume) io" where
  "Online E r =
     tryG (sdkCall (AiSet (ai_Name (v_Ai r)) ''online'' False)
             (x_ai_set E (v_Ai r) ''online'' False)) (\<lambda>_.
     Reload E r False False)"

definition GetUsage :: "volume \<Rightarrow> ('w, int \<times> int \<times> int) io" where
  "GetUsage r =
     bindG (firstVolume (v_Ai r)) (\<lambda>(_, v).
     let size = dv_Size v; used = dv_CapacityInUse v
     in ret (size, used, sub64 size used))"

definition RegisterIpPool :: "'w env \<Rightarrow> volume \<Rightarrow> ip_pool \<Rightarrow> ('w, goerr option) io" where
  "RegisterIpPool E r pool =
     bindG (indexG (ai_StorageInstances (v_Ai r)) 0) (\<lambda>si.
     bindG (sdkCall (SiSet (si_Path si) (ipp_Path pool)) (x_si_set E si (ipp_Path pool))) (\<lambda>res.
     ret (case res of Inl e \<Rightarrow> Some e | Inr _ \<Rightarrow> None)))"

section \<open>Creating a volume\<close>

text \<open>The four ways: from a template, a volume clone, a snapshot clone, or a plain volume.\<close>

definition optsLimits :: "vol_opts \<Rightarrow> perf_policy" where
  "optsLimits opts = \<lparr>pp_ReadIopsMax = vo_ReadIopsMax opts, pp_WriteIopsMax = vo_WriteIopsMax opts,
     pp_TotalIopsMax = vo_TotalIopsMax opts, pp_ReadBandwidthMax = vo_ReadBandwidthMax opts,
     pp_WriteBandwidthMax = vo_WriteBandwidthMax opts, pp_TotalBandwidthMax = vo_TotalBandwidthMax opts\<rparr>"

definition plainVolume :: "vol_opts \<Rightarrow> bool \<Rightarrow> vol_create" where
  "plainVolume opts policies =
     \<lparr>vc_Name = ''volume-1'', vc_Size = vo_Size opts, vc_PlacementMode = vo_PlacementMode opts,
      vc_PlacementPolicy =
        (if policies then Some (''/placement_policies/'' @ vo_PlacementPolicy opts) else None),
      vc_ReplicaCount = vo_Replica opts, vc_PerformancePolicy = optsLimits opts\<rparr>"

definition chapAuth :: "smap \<Rightarrow> auth" where
  "chapAuth chap =
     (let a0 = \<lparr>au_Type = ''none'', au_InitiatorUserName = [], au_InitiatorPassword = [],
                au_TargetUserName = [], au_TargetPassword = []\<rparr>;
          a1 = (case chap chapUserIn of
                  None \<Rightarrow> a0
                | Some u \<Rightarrow> a0\<lparr>au_Type := ''mchap'', au_InitiatorUserName := u,
                    au_InitiatorPassword := mdGet chap chapPassIn\<rparr>)
      in case chap chapUser of
           None \<Rightarrow> a1
         | Some u \<Rightarrow> a1\<lparr>au_Type := (if au_Type a1 = ''none'' then ''chap'' else au_Type a1),
             au_TargetUserName := u, au_TargetPassword := mdGet chap chapPass\<rparr>)"

definition emptyCreate :: "string \<Rightarrow> ai_create" where
  "emptyCreate name = \<lparr>ac_Name = name, ac_CreateMode = ''kubernetes'', ac_AppTemplate = None,
     ac_TemplateOverride = None, ac_CloneVolumeSrc = None, ac_CloneSnapshotSrc = None,
     ac_StorageInstances = []\<rparr>"

definition plainRequest :: "string \<Rightarrow> vol_opts \<Rightarrow> smap \<Rightarrow> bool \<Rightarrow> ai_create" where
  "plainRequest name opts chap policies = (emptyCreate name)\<lparr>ac_StorageInstances :=
     [\<lparr>sc_Name = ''storage-1'', sc_IpPool = ''/access_network_ip_pools/'' @ vo_IpPool opts,
       sc_Volumes = [plainVolume opts policies], sc_Auth = chapAuth chap\<rparr>]\<rparr>"

definition createRequest :: "'w env \<Rightarrow> string \<Rightarrow> vol_opts \<Rightarrow> smap \<Rightarrow> ('w, goerr + ai_create) io" where
  "createRequest E name opts chap =
     (if vo_Template opts \<noteq> [] then
        ret (Inr ((emptyCreate name)\<lparr>
          ac_AppTemplate := Some (''/app_templates/'' @ trimBytes (\<lambda>c. c = CHR ''/'') (vo_Template opts)),
          ac_TemplateOverride :=
            (if vo_DisableTemplateOverride opts then None else Some (FormatInt (vo_Size opts)))\<rparr>))
      else if vo_CloneVolSrc opts \<noteq> [] then
        ret (Inr ((emptyCreate name)\<lparr>ac_CloneVolumeSrc := Some (vo_CloneVolSrc opts)\<rparr>))
      else if vo_CloneSnapSrc opts \<noteq> [] then
        ret (Inr ((emptyCreate name)\<lparr>ac_CloneSnapshotSrc := Some (vo_CloneSnapSrc opts)\<rparr>))
      else
        tryG (VendorVersion E) (\<lambda>version.
        tryG (ret (DatVersionGte version ''3.3.0.0'')) (\<lambda>policies.
        ret (Inr (plainRequest name opts chap policies)))))"

text \<open>The limits that depend on the size: a product only lowers a limit.\<close>

definition dynamicLimits :: "vol_opts \<Rightarrow> perf_policy" where
  "dynamicLimits opts =
     (let ipg = mul64 (vo_IopsPerGb opts) (vo_Size opts);
          bpg = mul64 (vo_BandwidthPerGb opts) (vo_Size opts);
          im = (if vo_IopsPerGb opts \<noteq> 0 \<and> ipg < vo_TotalIopsMax opts then ipg else vo_TotalIopsMax opts);
          bm = (if vo_BandwidthPerGb opts \<noteq> 0 \<and> bpg < vo_TotalBandwidthMax opts then bpg
                else vo_TotalBandwidthMax opts)
      in (optsLimits opts)\<lparr>pp_TotalIopsMax := im, pp_TotalBandwidthMax := bm\<rparr>)"

definition SetPerformancePolicy :: "'w env \<Rightarrow> volume \<Rightarrow> vol_opts \<Rightarrow> ('w, goerr + volume) io" where
  "SetPerformancePolicy E r opts =
     bindG (firstVolume (v_Ai r)) (\<lambda>(_, v).
     tryG (sdkCall (PpCreate (dv_Path v) (dynamicLimits opts)) (x_pp_create E v (dynamicLimits opts))) (\<lambda>resp.
     bindG (derefG resp) (\<lambda>pp. ret (Inr (r\<lparr>v_QoS := Some pp, v_Limits := pp\<rparr>)))))"

text \<open>\<open>v.Formatted\<close> is assigned before the conversion's error is looked at, so a failed
  conversion is a nil dereference.\<close>

definition CreateVolume ::
    "'w env \<Rightarrow> string \<Rightarrow> vol_opts \<Rightarrow> bool \<Rightarrow> smap \<Rightarrow> ('w, goerr + volume) io" where
  "CreateVolume E name opts qos chap =
     tryG (createRequest E name opts chap) (\<lambda>ai.
     tryG (sdkCall (AiCreate ai) (x_ai_create E ai)) (\<lambda>newAi.
     bindG (aiToClientVol E newAi False False True) (\<lambda>res.
     bindG (derefG (case res of Inl _ \<Rightarrow> None | Inr v \<Rightarrow> Some v)) (\<lambda>v.
     let v = v\<lparr>v_Formatted :=
       (vo_CloneSrc opts \<noteq> [] \<and> vo_CloneVolSrc opts \<noteq> [] \<and> vo_CloneSnapSrc opts \<noteq> [])\<rparr>
     in if qos \<and> vo_Template opts = [] then SetPerformancePolicy E v opts else ret (Inr v)))))"

text \<open>\<open>ListVolumes\<close> skips the instances that cannot be converted.\<close>

fun convertAll :: "'w env \<Rightarrow> app_instance list \<Rightarrow> ('w, volume list) io" where
  "convertAll E [] = ret []"
| "convertAll E (ai # ais) =
     bindG (aiToClientVol E (Some ai) False False True) (\<lambda>r.
     bindG (convertAll E ais) (\<lambda>vols.
     ret (case r of Inl _ \<Rightarrow> vols | Inr v \<Rightarrow> v # vols)))"

definition ListVolumes :: "'w env \<Rightarrow> int \<Rightarrow> int \<Rightarrow> ('w, goerr + volume list) io" where
  "ListVolumes E maxEntries startToken =
     tryG (sdkCall (AiList maxEntries startToken) (x_ai_list E maxEntries startToken)) (\<lambda>resp.
     bindG (convertAll E resp) (\<lambda>vols. ret (Inr vols)))"

text \<open>The first half of \<open>Volume.Delete\<close> and of every deletion: offline, then delete.\<close>

definition Delete :: "'w env \<Rightarrow> volume \<Rightarrow> bool \<Rightarrow> ('w, goerr + unit) io" where
  "Delete E r force =
     tryG (sdkCall (AiSet (ai_Name (v_Ai r)) ''offline'' force)
             (x_ai_set E (v_Ai r) ''offline'' force)) (\<lambda>_.
     tryG (sdkCall (AiDelete (ai_Name (v_Ai r)) force) (x_ai_delete E (v_Ai r) force)) (\<lambda>_.
     ret (Inr ())))"

section \<open>Effects: what each operation may call\<close>

lemma GetMetadata_frame [frame_intros]:
  "(\<And>n. Q (MdGet n)) \<Longrightarrow> frame (logs Q) (GetMetadata E ai)"
  "frame (keeps driver_fields) (GetMetadata E ai)"
  by (auto simp: GetMetadata_def intro!: frame_intros)

lemma SetMetadata_frame [frame_intros]:
  "(\<And>n. Q (MdGet n)) \<Longrightarrow> (\<And>n md. Q (MdSet n md)) \<Longrightarrow> frame (logs Q) (SetMetadata E debug r m)"
  "frame (keeps driver_fields) (SetMetadata E debug r m)"
  by (auto simp: SetMetadata_def intro!: frame_intros)

lemma firstVolume_frame [frame_intros]:
  "frame (logs Q) (firstVolume ai)" "frame (keeps driver_fields) (firstVolume ai)"
  by (auto simp: firstVolume_def intro!: frame_intros)

lemma readLimits_frame [frame_intros]:
  "(\<And>p. Q (PpGet p)) \<Longrightarrow> frame (logs Q) (readLimits E qos client v)"
  "frame (keeps driver_fields) (readLimits E qos client v)"
  by (auto simp: readLimits_def intro!: frame_intros)

lemma aiToClientVol_reads:
  assumes r: "\<And>e. reads e \<Longrightarrow> Q e"
  shows "frame (logs Q) (aiToClientVol E ai qos metadata client)"
  by (auto simp: aiToClientVol_def intro!: frame_intros) (simp_all add: r)

lemma aiToClientVol_frame [frame_intros]:
  "frame (logs Q) (aiToClientVol E ai False False client)"
  "frame (keeps driver_fields) (aiToClientVol E ai qos metadata client)"
  unfolding aiToClientVol_def readLimits_def simp_thms if_False
  by (auto intro!: frame_intros)

lemma GetVolume_reads:
  assumes r: "\<And>e. reads e \<Longrightarrow> Q e"
  shows "frame (logs Q) (GetVolume E name qos metadata)"
  by (auto simp: GetVolume_def intro!: frame_intros aiToClientVol_reads) (simp_all add: r)

lemma GetVolume_frame [frame_intros]:
  "Q (AiGet name) \<Longrightarrow> frame (logs Q) (GetVolume E name False False)"
  "frame (keeps driver_fields) (GetVolume E name qos metadata)"
  by (auto simp: GetVolume_def intro!: frame_intros)

lemma Reload_frame [frame_intros]:
  "(\<And>n. Q (AiReload n)) \<Longrightarrow> frame (logs Q) (Reload E r False False)"
  "frame (keeps driver_fields) (Reload E r qos metadata)"
  by (auto simp: Reload_def intro!: frame_intros)

lemma Resize_frame [frame_intros]:
  "(\<And>n. Q (AiReload n)) \<Longrightarrow> (\<And>p. Q (VolSet p newSize)) \<Longrightarrow> frame (logs Q) (Resize E r newSize)"
  "frame (keeps driver_fields) (Resize E r newSize)"
  by (auto simp: Resize_def intro!: frame_intros)

lemma Online_frame [frame_intros]:
  "(\<And>n. Q (AiReload n)) \<Longrightarrow> (\<And>n. Q (AiSet n ''online'' False)) \<Longrightarrow> frame (logs Q) (Online E r)"
  "frame (keeps driver_fields) (Online E r)"
  by (auto simp: Online_def intro!: frame_intros)

lemma GetUsage_frame [frame_intros]:
  "frame (logs Q) (GetUsage r)" "frame (keeps driver_fields) (GetUsage r)"
  by (auto simp: GetUsage_def Let_def intro!: frame_intros)

lemma createRequest_frame [frame_intros]:
  "Q SysGet \<Longrightarrow> frame (logs Q) (createRequest E name opts chap)"
  "frame (keeps driver_fields) (createRequest E name opts chap)"
  by (auto simp: createRequest_def intro!: frame_intros)

lemma SetPerformancePolicy_frame [frame_intros]:
  "(\<And>p l. Q (PpCreate p l)) \<Longrightarrow> frame (logs Q) (SetPerformancePolicy E r opts)"
  "frame (keeps driver_fields) (SetPerformancePolicy E r opts)"
  by (auto simp: SetPerformancePolicy_def intro!: frame_intros)

lemma CreateVolume_frame [frame_intros]:
  "Q SysGet \<Longrightarrow> (\<And>a. Q (AiCreate a)) \<Longrightarrow> (\<And>p l. Q (PpCreate p l)) \<Longrightarrow>
   frame (logs Q) (CreateVolume E name opts qos chap)"
  "frame (keeps driver_fields) (CreateVolume E name opts qos chap)"
  by (auto simp: CreateVolume_def intro!: frame_intros)

lemma convertAll_frame [frame_intros]:
  "frame (logs Q) (convertAll E ais)" "frame (keeps driver_fields) (convertAll E ais)"
  by (induction ais) (auto intro!: frame_intros)

lemma ListVolumes_frame [frame_intros]:
  "Q (AiList n st) \<Longrightarrow> frame (logs Q) (ListVolumes E n st)"
  "frame (keeps driver_fields) (ListVolumes E n st)"
  by (auto simp: ListVolumes_def intro!: frame_intros)

lemma Delete_frame [frame_intros]:
  "(\<And>n f. Q (AiSet n ''offline'' f)) \<Longrightarrow> (\<And>n f. Q (AiDelete n f)) \<Longrightarrow> frame (logs Q) (Delete E r force)"
  "frame (keeps driver_fields) (Delete E r force)"
  by (auto simp: Delete_def intro!: frame_intros)

section \<open>The options as metadata\<close>

definition opts_int64 :: "vol_opts \<Rightarrow> bool" where
  "opts_int64 v \<longleftrightarrow> list_all int64 [vo_Size v, vo_Replica v, vo_WriteIopsMax v, vo_ReadIopsMax v,
     vo_TotalIopsMax v, vo_WriteBandwidthMax v, vo_ReadBandwidthMax v, vo_TotalBandwidthMax v,
     vo_IopsPerGb v, vo_BandwidthPerGb v]"

text \<open>C39: the options that \<open>ToMap\<close> writes as metadata read back as the values they had: the
  numbers as decimal numbers, the flags as booleans.\<close>

theorem ToMap_reads_back:
  assumes "opts_int64 v"
  shows "map (\<lambda>k. ParseInt (mdGet (ToMap v) k) 10)
      [''size'', ''replica'', ''write_iops_max'', ''read_iops_max'', ''total_iops_max'',
       ''write_bandwidth_max'', ''read_bandwidth_max'', ''total_bandwidth_max'',
       ''iops_per_gb'', ''bandwidth_per_gb''] =
    map (\<lambda>i. (i, None)) [vo_Size v, vo_Replica v, vo_WriteIopsMax v, vo_ReadIopsMax v,
      vo_TotalIopsMax v, vo_WriteBandwidthMax v, vo_ReadBandwidthMax v, vo_TotalBandwidthMax v,
      vo_IopsPerGb v, vo_BandwidthPerGb v] \<and>
    map (\<lambda>k. ParseBool (mdGet (ToMap v) k))
      [''round_robin'', ''delete_on_unmount'', ''disable_template_override''] =
    map Some [vo_RoundRobin v, vo_DeleteOnUnmount v, vo_DisableTemplateOverride v]"
  using assms
  by (simp_all add: opts_int64_def ToMap_def mdGet_def ParseInt_FormatInt FormatBool_def ParseBool_def)

theorem ToMap_reads_back_witness:
  "ParseInt (mdGet (ToMap (emptyOpts\<lparr>vo_Size := 16, vo_IopsPerGb := - 5\<rparr>)) ''iops_per_gb'') 10 = (- 5, None)
   \<and> ParseBool (mdGet (ToMap (emptyOpts\<lparr>vo_Size := 16, vo_IopsPerGb := - 5\<rparr>)) ''round_robin'') = Some False"
  using ToMap_reads_back [of "emptyOpts\<lparr>vo_Size := 16, vo_IopsPerGb := - 5\<rparr>"]
  by (simp add: opts_int64_def int64_def emptyOpts_def)

section \<open>What is asked of the backend\<close>

text \<open>Where a new application instance comes from: a template, a volume, a snapshot, or a
  description of its own.\<close>

definition sources :: "ai_create \<Rightarrow> nat" where
  "sources a = length (filter id [ac_AppTemplate a \<noteq> None, ac_CloneVolumeSrc a \<noteq> None,
     ac_CloneSnapshotSrc a \<noteq> None, ac_StorageInstances a \<noteq> []])"

definition wellAsked :: "string \<Rightarrow> ai_create \<Rightarrow> bool" where
  "wellAsked name a \<longleftrightarrow>
     ac_Name a = name \<and> ac_CreateMode a = ''kubernetes'' \<and> sources a = 1 \<and>
     (ac_TemplateOverride a = None \<or> ac_AppTemplate a \<noteq> None)"

lemma createRequest_wellAsked:
  "createRequest E name opts chap s = (Ret (Inr a), s') \<Longrightarrow> wellAsked name a"
  by (auto simp: createRequest_def plainRequest_def emptyCreate_def wellAsked_def sources_def go_eval
      split: if_splits prod.splits outcome.splits sum.splits)

text \<open>The calls that creating a volume may make.\<close>

fun asked :: "string \<Rightarrow> vol_opts \<Rightarrow> bool \<Rightarrow> event \<Rightarrow> bool" where
  "asked name opts qos (AiCreate a) = wellAsked name a"
| "asked name opts qos (PpCreate _ l) = (qos \<and> vo_Template opts = [] \<and> l = dynamicLimits opts)"
| "asked name opts qos SysGet = True"
| "asked name opts qos _ = False"

lemma policy_asked:
  "frame (logs (asked name opts qos))
     (if qos \<and> vo_Template opts = [] then SetPerformancePolicy E v opts else ret (Inr v))"
  unfolding SetPerformancePolicy_def
  by (cases "qos \<and> vo_Template opts = []") (auto intro!: frame_intros)

text \<open>C26: whatever the options and the backend, creating a volume sends one kind of request: for
  the given name, in the mode for Kubernetes, with exactly one source for the contents; a
  performance policy is sent only when asked for and without a template; nothing else is changed
  and nothing is deleted.\<close>

theorem CreateVolume_requests:
  "frame (logs (asked name opts qos)) (CreateVolume E name opts qos chap)"
  unfolding CreateVolume_def Let_def
proof (rule lg.frame_try_post [OF _ createRequest_wellAsked])
  show "frame (logs (asked name opts qos)) (createRequest E name opts chap)"
    by (intro frame_intros) simp
next
  fix ai assume "wellAsked name ai"
  then have "frame (logs (asked name opts qos)) (sdkCall (AiCreate ai) (x_ai_create E ai))"
    by (intro frame_intros) simp
  then show "frame (logs (asked name opts qos))
      (tryG (sdkCall (AiCreate ai) (x_ai_create E ai)) (\<lambda>newAi.
       bindG (aiToClientVol E newAi False False True) (\<lambda>res.
       bindG (derefG (case res of Inl _ \<Rightarrow> None | Inr v \<Rightarrow> Some v)) (\<lambda>v.
       if qos \<and> vo_Template opts = []
       then SetPerformancePolicy E (v\<lparr>v_Formatted :=
         (vo_CloneSrc opts \<noteq> [] \<and> vo_CloneVolSrc opts \<noteq> [] \<and> vo_CloneSnapSrc opts \<noteq> [])\<rparr>) opts
       else ret (Inr (v\<lparr>v_Formatted :=
         (vo_CloneSrc opts \<noteq> [] \<and> vo_CloneVolSrc opts \<noteq> [] \<and> vo_CloneSnapSrc opts \<noteq> [])\<rparr>))))))"
    by (intro lg.frame_try lg.frame_bind lg.frame_deref aiToClientVol_frame policy_asked)
qed

lemma createRequest_per_gb:
  "createRequest E name (opts\<lparr>vo_IopsPerGb := i, vo_BandwidthPerGb := b\<rparr>) chap =
   createRequest E name opts chap"
  by (simp add: createRequest_def plainRequest_def plainVolume_def optsLimits_def cong: if_cong)

text \<open>The limits per gigabyte play no part when no policy is asked for.\<close>

lemma CreateVolume_ignores_per_gb:
  "CreateVolume E name (opts\<lparr>vo_IopsPerGb := i, vo_BandwidthPerGb := b\<rparr>) False chap =
   CreateVolume E name opts False chap"
  by (simp add: CreateVolume_def createRequest_per_gb)

text \<open>The kind of authentication follows the pairs that are given: mutual CHAP with an initiator
  user, CHAP with a target user only, none with neither; each pair is sent as it came.\<close>

theorem chapAuth_table:
  "chapAuth chap =
     \<lparr>au_Type = (if chap chapUserIn \<noteq> None then ''mchap''
                 else if chap chapUser \<noteq> None then ''chap'' else ''none''),
      au_InitiatorUserName = mdGet chap chapUserIn,
      au_InitiatorPassword = (if chap chapUserIn = None then [] else mdGet chap chapPassIn),
      au_TargetUserName = mdGet chap chapUser,
      au_TargetPassword = (if chap chapUser = None then [] else mdGet chap chapPass)\<rparr>"
  by (simp add: chapAuth_def mdGet_def Let_def split: option.splits)

end
