(* ===== verification/Client_Snapshots.thy ===== *)
theory Client_Snapshots
  imports Client_Volume "HOL-Library.Char_ord" "HOL-Library.List_Lexorder" "HOL-Library.Multiset"
begin

text \<open>
  \<open>pkg/client/snapshots.go\<close>, and the deletion of a volume from \<open>volume.go\<close>, which looks for
  snapshots first. The goroutines that \<open>ListSnapshots\<close> starts, one per volume, run here one
  after the other in the order the scheduler (\<open>x_schedule\<close>) picks; each appends its result
  under the lock. \<open>sort.Slice\<close> is a sort by the snapshot's id, a string.
\<close>

section \<open>Snapshots of one volume\<close>

definition SnapDomainStr :: string where
  "SnapDomainStr = ''7079EAEC-2660-4A35-9A48-9C47204C01A9''"

record snap_opts =
  so_RemoteProviderUuid :: string
  so_Type :: string

record snapshot =
  ss_Snap :: dsnapshot
  ss_Vol :: volume
  ss_Id :: string
  ss_Path :: string
  ss_Status :: string

definition snapIdFromName :: "'w env \<Rightarrow> string \<Rightarrow> string" where
  "snapIdFromName E name = x_uuid_sha1 E SnapDomainStr name"

definition toSnapshot :: "dsnapshot \<Rightarrow> volume \<Rightarrow> snapshot" where
  "toSnapshot s v = \<lparr>ss_Snap = s, ss_Vol = v, ss_Id = sn_UtcTs s, ss_Path = sn_Path s,
     ss_Status = sn_OpState s\<rparr>"

definition wrapSnapshot :: "'w env \<Rightarrow> volume \<Rightarrow> dsnapshot \<Rightarrow> ('w, goerr + snapshot) io" where
  "wrapSnapshot E r s =
     tryG (aiToClientVol E (Some (v_Ai r)) False False False) (\<lambda>v.
     ret (Inr (toSnapshot s v)))"

text \<open>The receiver is reloaded, so the result comes with the volume after the call. A failed
  reload counts as "no snapshots".\<close>

definition VolListSnapshots ::
    "'w env \<Rightarrow> volume \<Rightarrow> string \<Rightarrow> ('w, (goerr + snapshot list) \<times> volume) io" where
  "VolListSnapshots E r snapId =
     bindG (Reload E r False False) (\<lambda>res. case res of
       Inl _ \<Rightarrow> ret (Inr [], r)
     | Inr r' \<Rightarrow>
         bindG (firstVolume (v_Ai r')) (\<lambda>(_, v).
         bindG (sdkCall (SnapList (dv_Path v)) (x_snap_list E v)) (\<lambda>l. case l of
           Inl e \<Rightarrow> ret (Inl e, r')
         | Inr rsnaps \<Rightarrow>
             bindG (mapTryG (wrapSnapshot E r')
               (filter (\<lambda>s. snapId = [] \<or> snapId = sn_UtcTs s) rsnaps)) (\<lambda>snaps.
             ret (snaps, r')))))"

definition HasSnapshots :: "'w env \<Rightarrow> volume \<Rightarrow> ('w, (goerr + bool) \<times> volume) io" where
  "HasSnapshots E r =
     bindG (VolListSnapshots E r []) (\<lambda>(l, r'). case l of
       Inl e \<Rightarrow> ret (Inl e, r')
     | Inr snaps \<Rightarrow> ret (Inr (0 < length snaps), r'))"

definition ReloadSnapshot :: "'w env \<Rightarrow> snapshot \<Rightarrow> ('w, goerr + snapshot) io" where
  "ReloadSnapshot E s =
     tryG (sdkCall (SnapReload (sn_Path (ss_Snap s))) (x_snap_reload E (ss_Snap s))) (\<lambda>p.
     bindG (derefG p) (\<lambda>snap. ret (Inr (s\<lparr>ss_Snap := snap, ss_Status := sn_OpState snap\<rparr>))))"

definition GetSnapshotByUuid :: "'w env \<Rightarrow> volume \<Rightarrow> string \<Rightarrow> ('w, goerr + snapshot) io" where
  "GetSnapshotByUuid E r uuid =
     bindG (firstVolume (v_Ai r)) (\<lambda>(_, v).
     tryG (sdkCall (SnapList (dv_Path v)) (x_snap_list E v)) (\<lambda>snaps.
     case find (\<lambda>s. sn_Uuid s = uuid) snaps of
       Some s \<Rightarrow> wrapSnapshot E r s
     | None \<Rightarrow> ret (Inl (PlainErr (''No snapshot found with UUID '' @ uuid)))))"

text \<open>The polling loop of \<open>CreateSnapshot\<close>; \<open>timeout\<close> starts at 30 and drops by one a round.\<close>

fun pollAvailable :: "'w env \<Rightarrow> nat \<Rightarrow> snapshot \<Rightarrow> ('w, goerr + snapshot) io" where
  "pollAvailable E timeout csnap =
     tryG (ReloadSnapshot E csnap) (\<lambda>csnap.
     if ss_Status csnap = ''available'' then ret (Inr csnap)
     else bindG (sleepG 1) (\<lambda>_.
       if timeout - 1 = 0 then
         ret (Inl (PlainErr (''Snapshot '' @ ss_Id csnap @
           '' did not become available before timeout'')))
       else pollAvailable E (timeout - 1) csnap))"

declare pollAvailable.simps [simp del]

definition snapRequest :: "'w env \<Rightarrow> string \<Rightarrow> snap_opts \<Rightarrow> snap_create" where
  "snapRequest E name opts =
     (if so_RemoteProviderUuid opts \<noteq> [] then
        \<lparr>snc_Uuid = snapIdFromName E name, snc_RemoteProviderUuid = so_RemoteProviderUuid opts,
         snc_Type = so_Type opts\<rparr>
      else \<lparr>snc_Uuid = snapIdFromName E name, snc_RemoteProviderUuid = [], snc_Type = []\<rparr>)"

text \<open>Here the API error is looked at before the transport error.\<close>

definition CreateSnapshot :: "'w env \<Rightarrow> volume \<Rightarrow> string \<Rightarrow> snap_opts \<Rightarrow> ('w, goerr + snapshot) io" where
  "CreateSnapshot E r name opts =
     bindG (firstVolume (v_Ai r)) (\<lambda>(_, v).
     bindG (extG (SnapCreate (dv_Path v) (snapRequest E name opts))
              (x_snap_create E v (snapRequest E name opts))) (\<lambda>(p, apierr, err).
     case apierr of
       Some a \<Rightarrow>
         if ae_Name a = ''InvalidRequestError'' \<and> ae_Code a = 15
         then GetSnapshotByUuid E r (snapIdFromName E name)
         else ret (Inl (ErrTranslator a))
     | None \<Rightarrow> (case err of
         Some e \<Rightarrow> ret (Inl e)
       | None \<Rightarrow>
           tryG (aiToClientVol E (Some (v_Ai r)) False False False) (\<lambda>v.
           bindG (derefG p) (\<lambda>s. pollAvailable E 30 (toSnapshot s v))))))"

text \<open>The loop keeps the last match.\<close>

definition VolDeleteSnapshot :: "'w env \<Rightarrow> volume \<Rightarrow> string \<Rightarrow> ('w, goerr + unit) io" where
  "VolDeleteSnapshot E r sid =
     bindG (Reload E r False False) (\<lambda>res. case res of
       Inl _ \<Rightarrow> ret (Inr ())
     | Inr r' \<Rightarrow>
         bindG (firstVolume (v_Ai r')) (\<lambda>(_, v).
         case find (\<lambda>s. sn_Uuid s = sid \<or> sn_UtcTs s = sid) (rev (dv_Snapshots v)) of
           None \<Rightarrow> ret (Inr ())
         | Some s \<Rightarrow>
             tryG (sdkCall (SnapDelete (sn_Path s)) (x_snap_delete E s)) (\<lambda>_. ret (Inr ()))))"

section \<open>Snapshots of the system\<close>

definition SnapshotPathFromCsiId :: "'w env \<Rightarrow> string \<Rightarrow> ('w, goerr + string) io" where
  "SnapshotPathFromCsiId E csiId =
     bindG (indexG (splitOn CHR '':'' csiId) 0) (\<lambda>vid.
     bindG (indexG (splitOn CHR '':'' csiId) 1) (\<lambda>snapTs.
     tryG (GetVolume E vid False False) (\<lambda>vol.
     bindG (VolListSnapshots E vol snapTs) (\<lambda>(l, _).
     let snaps = (case l of Inl _ \<Rightarrow> [] | Inr ss \<Rightarrow> ss)
     in case snaps of
          [s] \<Rightarrow> ret (Inr (ss_Path s))
        | _ \<Rightarrow> ret (Inl (PlainErr (''Unexpected number of snapshots found for csi snapshot ID: ''
            @ csiId @ '', expected 1 found '' @ FormatInt (int (length snaps)))))))))"

text \<open>The goroutines: a volume whose snapshots cannot be listed is logged and skipped.\<close>

fun gatherSnaps :: "'w env \<Rightarrow> string \<Rightarrow> volume list \<Rightarrow> ('w, snapshot list) io" where
  "gatherSnaps E sid [] = ret []"
| "gatherSnaps E sid (v # vs) =
     bindG (VolListSnapshots E v sid) (\<lambda>(l, _).
     bindG (gatherSnaps E sid vs) (\<lambda>rest.
     ret ((case l of Inl _ \<Rightarrow> [] | Inr ss \<Rightarrow> ss) @ rest)))"

definition scheduled :: "'w env \<Rightarrow> 'a list \<Rightarrow> 'a list" where
  "scheduled E xs = map (\<lambda>i. xs ! i) (x_schedule E (length xs))"

definition sliceG :: "'a list \<Rightarrow> int \<Rightarrow> int \<Rightarrow> ('s, 'a list) go" where
  "sliceG xs lo hi =
     (if 0 \<le> lo \<and> lo \<le> hi \<and> hi \<le> int (length xs)
      then ret (take (nat hi - nat lo) (drop (nat lo) xs))
      else panic ''slice bounds out of range'')"

text \<open>One page and the token of the next, on the sorted list.\<close>

definition pageOf :: "'a list \<Rightarrow> int \<Rightarrow> int \<Rightarrow> ('s, 'a list \<times> int) go" where
  "pageOf snaps maxEntries startToken =
     (if snaps = [] \<or> int (length snaps) < startToken then ret (snaps, 0)
      else
        let snapEnd = int (length snaps);
            maxEntries = (if maxEntries = 0 then sub64 snapEnd startToken else maxEntries);
            end1 = add64 startToken maxEntries;
            end2 = (if end1 = 0 \<or> snapEnd < end1 then snapEnd else end1)
        in bindG (sliceG snaps startToken end2) (\<lambda>page. ret (page, end2)))"

definition volumesFor :: "'w env \<Rightarrow> string \<Rightarrow> ('w, goerr + volume list) io" where
  "volumesFor E sourceVol =
     (if sourceVol = [] then ListVolumes E 0 0
      else tryG (GetVolume E sourceVol False False) (\<lambda>vol. ret (Inr [vol])))"

text \<open>With a snapshot id, one volume is asked and its error is dropped; else every volume, or the
  source volume, in a goroutine each.\<close>

definition findSnaps :: "'w env \<Rightarrow> string \<Rightarrow> string \<Rightarrow> string \<Rightarrow> ('w, goerr + snapshot list) io" where
  "findSnaps E vid sid sourceVol =
     (if vid \<noteq> [] \<and> sid \<noteq> [] then
        tryG (GetVolume E vid False False) (\<lambda>vol.
        bindG (VolListSnapshots E vol sid) (\<lambda>(l, _).
        ret (Inr (case l of Inl _ \<Rightarrow> [] | Inr ss \<Rightarrow> ss))))
      else
        tryG (volumesFor E sourceVol) (\<lambda>vols.
        bindG (gatherSnaps E sid (scheduled E vols)) (\<lambda>ss. ret (Inr ss))))"

definition ListSnapshots ::
    "'w env \<Rightarrow> string \<Rightarrow> string \<Rightarrow> int \<Rightarrow> int \<Rightarrow> ('w, goerr + snapshot list \<times> int) io" where
  "ListSnapshots E snapId sourceVol maxEntries startToken =
     (let (vid, sid) = (if snapId = [] then ([], []) else ParseSnapId snapId)
      in if snapId \<noteq> [] \<and> (vid = [] \<or> sid = []) then
           ret (Inl (PlainErr
             ''SnapshotId must be of format app_instance_name:snapshot_timestamp''))
         else
           tryG (findSnaps E vid sid (if snapId \<noteq> [] \<and> sourceVol = [] then vid else sourceVol)) (\<lambda>snaps.
           bindG (pageOf (sort_key ss_Id snaps) maxEntries startToken) (\<lambda>r. ret (Inr r))))"

section \<open>Deleting a volume\<close>

text \<open>The transport error of the lookup is overwritten by the conversion's.\<close>

definition DeleteVolume :: "'w env \<Rightarrow> string \<Rightarrow> bool \<Rightarrow> ('w, goerr + unit) io" where
  "DeleteVolume E name force =
     bindG (extG (AiGet name) (x_ai_get E name)) (\<lambda>(ai, apierr, _).
     tryG (aiToClientVol E ai False False True) (\<lambda>v.
     case apierr of
       Some a \<Rightarrow> ret (Inl (ErrTranslator a))
     | None \<Rightarrow>
         bindG (HasSnapshots E v) (\<lambda>(h, v'). case h of
           Inl e \<Rightarrow> ret (Inl e)
         | Inr snaps \<Rightarrow>
             if snaps then
               ret (Inl (PlainErr (''Volume '' @ v_Name v' @
                 '' cannot be deleted because it has snapshots'')))
             else Delete E v' force)))"

section \<open>Effects: what each operation may call\<close>

lemma wrapSnapshot_frame [frame_intros]:
  "frame (logs Q) (wrapSnapshot E r s)" "frame (keeps driver_fields) (wrapSnapshot E r s)"
  by (auto simp: wrapSnapshot_def intro!: frame_intros)

lemma VolListSnapshots_frame [frame_intros]:
  "(\<And>n. Q (AiReload n)) \<Longrightarrow> (\<And>p. Q (SnapList p)) \<Longrightarrow> frame (logs Q) (VolListSnapshots E r sid)"
  "frame (keeps driver_fields) (VolListSnapshots E r sid)"
  by (auto simp: VolListSnapshots_def intro!: frame_intros)

lemma HasSnapshots_frame [frame_intros]:
  "(\<And>n. Q (AiReload n)) \<Longrightarrow> (\<And>p. Q (SnapList p)) \<Longrightarrow> frame (logs Q) (HasSnapshots E r)"
  "frame (keeps driver_fields) (HasSnapshots E r)"
  by (auto simp: HasSnapshots_def intro!: frame_intros)

lemma ReloadSnapshot_frame [frame_intros]:
  "(\<And>p. Q (SnapReload p)) \<Longrightarrow> frame (logs Q) (ReloadSnapshot E s)"
  "frame (keeps driver_fields) (ReloadSnapshot E s)"
  by (auto simp: ReloadSnapshot_def intro!: frame_intros)

lemma GetSnapshotByUuid_frame [frame_intros]:
  "(\<And>p. Q (SnapList p)) \<Longrightarrow> frame (logs Q) (GetSnapshotByUuid E r uuid)"
  "frame (keeps driver_fields) (GetSnapshotByUuid E r uuid)"
  by (auto simp: GetSnapshotByUuid_def intro!: frame_intros)

lemma pollAvailable_logs [frame_intros]:
  assumes "\<And>p. Q (SnapReload p)" and "Q (SleepSeconds 1)"
  shows "frame (logs Q) (pollAvailable E n s)"
proof (induction n arbitrary: s)
  case (Suc n)
  show ?case
    by (subst pollAvailable.simps) (unfold diff_Suc_1, intro frame_intros assms Suc)
next
  case 0
  show ?case
    by (subst pollAvailable.simps) (unfold diff_0_eq_0 simp_thms if_True, intro frame_intros assms)
qed

lemma pollAvailable_keeps [frame_intros]: "frame (keeps driver_fields) (pollAvailable E n s)"
proof (induction n arbitrary: s)
  case (Suc n)
  show ?case
    by (subst pollAvailable.simps) (unfold diff_Suc_1, intro frame_intros Suc)
next
  case 0
  show ?case
    by (subst pollAvailable.simps) (unfold diff_0_eq_0 simp_thms if_True, intro frame_intros)
qed

lemma CreateSnapshot_frame [frame_intros]:
  "(\<And>p. Q (SnapReload p)) \<Longrightarrow> Q (SleepSeconds 1) \<Longrightarrow> (\<And>p. Q (SnapList p)) \<Longrightarrow>
   (\<And>p c. Q (SnapCreate p c)) \<Longrightarrow> frame (logs Q) (CreateSnapshot E r name opts)"
  "frame (keeps driver_fields) (CreateSnapshot E r name opts)"
  by (auto simp: CreateSnapshot_def intro!: frame_intros)

lemma VolDeleteSnapshot_frame [frame_intros]:
  "(\<And>n. Q (AiReload n)) \<Longrightarrow> (\<And>p. Q (SnapDelete p)) \<Longrightarrow> frame (logs Q) (VolDeleteSnapshot E r sid)"
  "frame (keeps driver_fields) (VolDeleteSnapshot E r sid)"
  by (auto simp: VolDeleteSnapshot_def intro!: frame_intros)

lemma SnapshotPathFromCsiId_frame [frame_intros]:
  "(\<And>n. Q (AiGet n)) \<Longrightarrow> (\<And>n. Q (AiReload n)) \<Longrightarrow> (\<And>p. Q (SnapList p)) \<Longrightarrow>
   frame (logs Q) (SnapshotPathFromCsiId E csiId)"
  "frame (keeps driver_fields) (SnapshotPathFromCsiId E csiId)"
  by (auto simp: SnapshotPathFromCsiId_def intro!: frame_intros)

lemma gatherSnaps_frame [frame_intros]:
  "(\<And>n. Q (AiReload n)) \<Longrightarrow> (\<And>p. Q (SnapList p)) \<Longrightarrow> frame (logs Q) (gatherSnaps E sid vs)"
  "frame (keeps driver_fields) (gatherSnaps E sid vs)"
  by (induction vs) (auto intro!: frame_intros)

lemma pageOf_frame [frame_intros]:
  "frame (logs Q) (pageOf xs m st)" "frame (keeps driver_fields) (pageOf xs m st)"
  by (auto simp: pageOf_def sliceG_def Let_def intro!: frame_intros)

lemma findSnaps_frame [frame_intros]:
  "(\<And>n. Q (AiGet n)) \<Longrightarrow> (\<And>n. Q (AiReload n)) \<Longrightarrow> (\<And>p. Q (SnapList p)) \<Longrightarrow> Q (AiList 0 0) \<Longrightarrow>
   frame (logs Q) (findSnaps E vid sid sourceVol)"
  "frame (keeps driver_fields) (findSnaps E vid sid sourceVol)"
  by (auto simp: findSnaps_def volumesFor_def intro!: frame_intros)

lemma ListSnapshots_frame [frame_intros]:
  "(\<And>n. Q (AiGet n)) \<Longrightarrow> (\<And>n. Q (AiReload n)) \<Longrightarrow> (\<And>p. Q (SnapList p)) \<Longrightarrow> Q (AiList 0 0) \<Longrightarrow>
   frame (logs Q) (ListSnapshots E snapId sourceVol maxEntries startToken)"
  "frame (keeps driver_fields) (ListSnapshots E snapId sourceVol maxEntries startToken)"
  by (auto simp: ListSnapshots_def intro!: frame_intros)

lemma DeleteVolume_frame [frame_intros]:
  "frame (keeps driver_fields) (DeleteVolume E name force)"
  by (auto simp: DeleteVolume_def intro!: frame_intros)

section \<open>Waiting for a snapshot\<close>

text \<open>One round of the loop; a snapshot that is not there yet asks for another.\<close>

definition pollOnce :: "'w env \<Rightarrow> snapshot \<Rightarrow> ('w, (goerr + snapshot) + snapshot) io" where
  "pollOnce E csnap =
     bindG (ReloadSnapshot E csnap) (\<lambda>r. case r of
       Inl e \<Rightarrow> ret (Inl (Inl e))
     | Inr c \<Rightarrow>
         if ss_Status c = ''available'' then ret (Inl (Inr c))
         else bindG (sleepG 1) (\<lambda>_. ret (Inr c)))"

definition pollTimeout :: "snapshot \<Rightarrow> goerr + snapshot" where
  "pollTimeout c = Inl (PlainErr (''Snapshot '' @ ss_Id c @ '' did not become available before timeout''))"

interpretation poll: retry_loop "\<lambda>n. pollAvailable E (Suc n)" "pollOnce E" "ret ()" pollTimeout for E
proof
  fix n c
  show "pollAvailable E (Suc n) c = bindG (pollOnce E c) (\<lambda>r. case r of
      Inl d \<Rightarrow> ret d
    | Inr c' \<Rightarrow> (case n of 0 \<Rightarrow> ret (pollTimeout c')
                | Suc n' \<Rightarrow> bindG (ret ()) (\<lambda>_. pollAvailable E (Suc n') c')))"
    by (rule ext, subst pollAvailable.simps, unfold pollOnce_def pollTimeout_def sleepG_def)
      (cases n; simp add: go_eval split: prod.splits outcome.splits sum.splits)
qed

lemma pollOnce_cost: "frame (made (\<lambda>e. \<exists>p. e = SnapReload p) 1) (pollOnce E c)"
proof -
  let ?P = "\<lambda>e. \<exists>p. e = SnapReload p"
  have rest: "frame (logs (\<lambda>e. \<not> ?P e)) (bindG (derefG p) (\<lambda>snap.
      ret (Inr (c\<lparr>ss_Snap := snap, ss_Status := sn_OpState snap\<rparr>))))" for p c
    by (intro frame_intros)
  have "frame (made ?P (1 + 0)) (ReloadSnapshot E c)"
    unfolding ReloadSnapshot_def tryG_def sdkCall_def bindG_assoc
    by (rule made.cost_bind [OF made_extG made_none]) (auto intro!: frame_intros rest split: sum.splits)
  then have "frame (made ?P (1 + 0)) (pollOnce E c)"
    unfolding pollOnce_def
    by (intro made.cost_bind made_none) (auto intro!: frame_intros split: sum.splits)
  then show ?thesis by simp
qed

lemma pollOnce_result:
  "pollOnce E c s = (Ret (Inl (Inr x)), s') \<Longrightarrow> ss_Status x = ''available''"
  by (auto simp: pollOnce_def go_eval sleepG_def split: prod.splits outcome.splits sum.splits if_splits)

text \<open>C35: the poll of a new snapshot asks the backend at most thirty times, whatever it answers,
  and a snapshot it returns is available.\<close>

theorem pollAvailable_bounded:
  "frame (made (\<lambda>e. \<exists>p. e = SnapReload p) 30) (pollAvailable E 30 csnap) \<and>
   (case fst (pollAvailable E 30 csnap s) of Ret (Inr x) \<Rightarrow> ss_Status x = ''available'' | _ \<Rightarrow> True)"
proof
  have thirty: "(30 :: nat) = Suc 29" by simp
  have "frame (made (\<lambda>e. \<exists>p. e = SnapReload p) (1 * Suc 29)) (pollAvailable E (Suc 29) csnap)"
    by (intro poll.loop_cost made.step_cost_axioms pollOnce_cost made.cost_ret)
  then show "frame (made (\<lambda>e. \<exists>p. e = SnapReload p) 30) (pollAvailable E 30 csnap)"
    unfolding thirty by (simp only: mult_1)
  let ?P = "\<lambda>r. case r of Inl _ \<Rightarrow> True | Inr x \<Rightarrow> ss_Status x = ''available''"
  obtain r s' where run: "pollAvailable E (Suc 29) csnap s = (r, s')" by fastforce
  have "?P d" if "pollOnce E c t = (Ret (Inl d), t')" for c t d t'
    using that by (auto split: sum.splits dest: pollOnce_result)
  moreover have "?P (pollTimeout c)" for c
    by (simp add: pollTimeout_def)
  ultimately have "?P x" if "r = Ret x" for x
    using run unfolding that by (rule poll.loop_result [where P = ?P])
  then show "case fst (pollAvailable E 30 csnap s) of
      Ret (Inr x) \<Rightarrow> ss_Status x = ''available'' | _ \<Rightarrow> True"
    unfolding thirty using run by (auto split: outcome.splits sum.splits)
qed

section \<open>Pages\<close>

text \<open>On a page boundary inside the list, the pages are consecutive pieces.\<close>

lemma pageOf_run:
  assumes "0 < m" and "0 \<le> st" and "st \<le> int (length xs)" and "int (length xs) + m < 2 ^ 63"
  shows "pageOf xs m st s =
    (Ret (take (nat m) (drop (nat st) xs), min (st + m) (int (length xs))), s)"
proof (cases "xs = []")
  case True
  then show ?thesis using assms by (simp add: pageOf_def go_eval)
next
  case False
  have "add64 st m = st + m"
    using assms by (simp add: add64_def int64_def)
  moreover have "nat (st + m) - nat st = nat m" "nat (int (length xs)) - nat st = length xs - nat st"
    using assms by auto
  ultimately show ?thesis
    using False assms by (auto simp: pageOf_def sliceG_def Let_def go_eval min_def)
qed

text \<open>A client that follows the tokens for \<open>k\<close> pages, from token \<open>st\<close>: the entries it gets, and the
  last token.\<close>

fun followPages :: "'a list \<Rightarrow> int \<Rightarrow> int \<Rightarrow> nat \<Rightarrow> ('s, 'a list \<times> int) go" where
  "followPages xs m st 0 = ret ([], st)"
| "followPages xs m st (Suc k) =
     bindG (pageOf xs m st) (\<lambda>(page, nextToken).
     bindG (followPages xs m nextToken k) (\<lambda>(rest, t). ret (page @ rest, t)))"

lemma followPages_run:
  assumes "0 < m" and "0 \<le> st" and "st \<le> int (length xs)" and "int (length xs) + m < 2 ^ 63"
  shows "followPages xs m st k s =
    (Ret (take (k * nat m) (drop (nat st) xs), min (st + int k * m) (int (length xs))), s)"
  using assms(2,3)
proof (induction k arbitrary: st)
  case 0
  then show ?case by (simp add: go_eval)
next
  case (Suc k)
  let ?n = "int (length xs)" and ?t = "min (st + m) (int (length xs))"
  have t: "0 \<le> ?t" "?t \<le> ?n" using Suc.prems assms(1) by auto
  have "followPages xs m st (Suc k) s =
    (Ret (take (nat m) (drop (nat st) xs) @ take (k * nat m) (drop (nat ?t) xs),
       min (?t + int k * m) ?n), s)"
    using Suc.prems assms Suc.IH [OF t] by (simp add: pageOf_run go_eval)
  moreover have "drop (nat ?t) xs = drop (nat m) (drop (nat st) xs)"
    using Suc.prems assms(1) by (auto simp: min_def nat_add_distrib ac_simps)
  then have "take (nat m) (drop (nat st) xs) @ take (k * nat m) (drop (nat ?t) xs) =
      take (Suc k * nat m) (drop (nat st) xs)"
    by (simp add: take_add)
  moreover have "min (?t + int k * m) ?n = min (st + int (Suc k) * m) ?n"
  proof -
    have "0 \<le> int k * m" and "int (Suc k) * m = m + int k * m"
      using assms(1) by (simp_all add: algebra_simps)
    with assms(1) Suc.prems show ?thesis by linarith
  qed
  ultimately show ?case by simp
qed

text \<open>C30: a client that follows the tokens from the start gets every entry once, in order; from then
  on every page is empty, and the token is the length: never the 0 that the RPC turns into "no
  more pages", unless there are no entries at all.\<close>

theorem followPages_complete:
  assumes "0 < m" and "int (length xs) + m < 2 ^ 63" and "length xs \<le> k * nat m"
  shows "followPages xs m 0 k s = (Ret (xs, int (length xs)), s) \<and>
    pageOf xs m (int (length xs)) s = (Ret ([], int (length xs)), s)"
proof -
  have "int (length xs) \<le> int k * m"
    using assms(1,3) by (metis int_nat_eq less_imp_le of_nat_le_iff of_nat_mult)
  then show ?thesis
    using assms by (simp add: followPages_run pageOf_run)
qed

theorem followPages_complete_witness:
  "followPages [10, 20, 30, 40, 50 :: int] 2 0 3 () = (Ret ([10, 20, 30, 40, 50], 5), ())
   \<and> pageOf [10, 20, 30, 40, 50 :: int] 2 5 () = (Ret ([], 5), ())"
  using followPages_complete [of 2 "[10, 20, 30, 40, 50 :: int]" 3 "()"] by simp

section \<open>Runs against a backend that answers\<close>

text \<open>The parts of an application instance that the client reads without a check: its first storage
  instance and volume, the access list and the template. \<open>parts\<close> finds them or returns nothing.\<close>

definition parts :: "app_instance \<Rightarrow> (storage_instance \<times> dvolume \<times> acl_policy \<times> string) option" where
  "parts ai = (case ai_StorageInstances ai of
      [] \<Rightarrow> None
    | si # _ \<Rightarrow> (case (si_Volumes si, si_AclPolicy si, ai_AppTemplate ai) of
        (dv # _, Some acl, Some t) \<Rightarrow> Some (si, dv, acl, t)
      | _ \<Rightarrow> None))"

definition clientVol :: "bool \<Rightarrow> app_instance \<Rightarrow> storage_instance \<Rightarrow> dvolume \<Rightarrow> acl_policy \<Rightarrow> string \<Rightarrow> volume" where
  "clientVol client ai si dv acl t =
     \<lparr>v_dc = client, v_Ai = ai, v_Name = ai_Name ai, v_AdminState = ai_AdminState ai,
      v_RepairPriority = ai_RepairPriority ai, v_Template = t,
      v_TargetOpState = si_OpState si, v_Ips = si_Ips si, v_Iqn = si_Iqn si,
      v_Initiators = map in_Name (acl_Initiators acl),
      v_Replicas = dv_ReplicaCount dv, v_PlacementMode = dv_PlacementMode dv,
      v_PlacementPolicy = [], v_Size = dv_Size dv, v_QoS = None, v_Limits = noLimits,
      v_DevicePath = [], v_MountPath = [], v_BindMountPaths = None,
      v_FsType = [], v_FsArgs = [], v_Formatted = False\<rparr>"

lemma clientVol_simps [simp]:
  "v_Ai (clientVol c ai si dv acl t) = ai"
  "v_Name (clientVol c ai si dv acl t) = ai_Name ai"
  "v_dc (clientVol c ai si dv acl t) = c"
  "v_Size (clientVol c ai si dv acl t) = dv_Size dv"
  by (simp_all add: clientVol_def)

lemma parts_run:
  assumes "parts ai = Some (si, dv, acl, t)"
  shows "firstVolume ai s = (Ret (si, dv), s)"
    and "aiToClientVol E (Some ai) False False client s = (Ret (Inr (clientVol client ai si dv acl t)), s)"
proof -
  from assms obtain sis dvs where "ai_StorageInstances ai = si # sis" "si_Volumes si = dv # dvs"
    "si_AclPolicy si = Some acl" "ai_AppTemplate ai = Some t"
    by (auto simp: parts_def split: list.splits option.splits)
  then show "firstVolume ai s = (Ret (si, dv), s)"
    and "aiToClientVol E (Some ai) False False client s = (Ret (Inr (clientVol client ai si dv acl t)), s)"
    by (simp_all add: firstVolume_def aiToClientVol_def readLimits_def clientVol_def go_eval)
qed

lemma GetVolume_run:
  assumes "x_ai_get E name (ext s) = ((Some ai, None, None), w)"
    and "parts ai = Some (si, dv, acl, t)" and "name \<noteq> []"
  shows "GetVolume E name False False s =
    (Ret (Inr (clientVol True ai si dv acl t)), s\<lparr>log := log s @ [AiGet name], ext := w\<rparr>)"
  using assms by (simp add: GetVolume_def go_eval sdkResult_def parts_run)

lemma Reload_run:
  assumes "x_ai_reload E (v_Ai r) (ext s) = ((Some ai, None, None), w)"
    and "parts ai = Some (si, dv, acl, t)"
  shows "Reload E r False False s =
    (Ret (Inr (clientVol (v_dc r) ai si dv acl t)),
     s\<lparr>log := log s @ [AiReload (ai_Name (v_Ai r))], ext := w\<rparr>)"
  using assms by (simp add: Reload_def go_eval sdkResult_def parts_run)

lemma wrapAll_run:
  assumes "parts (v_Ai r) = Some (si, dv, acl, t)"
  shows "mapTryG (wrapSnapshot E r) ss s =
    (Ret (Inr (map (\<lambda>x. toSnapshot x (clientVol False (v_Ai r) si dv acl t)) ss)), s)"
  by (induction ss) (simp_all add: go_eval wrapSnapshot_def parts_run [OF assms])

lemma VolListSnapshots_run:
  assumes "x_ai_reload E (v_Ai r) (ext s) = ((Some ai, None, None), w)"
    and "parts ai = Some (si, dv, acl, t)"
    and "x_snap_list E dv w = ((snaps, None, None), w')"
  shows "VolListSnapshots E r sid s =
    (Ret (Inr (map (\<lambda>x. toSnapshot x (clientVol False ai si dv acl t))
                 (filter (\<lambda>x. sid = [] \<or> sid = sn_UtcTs x) snaps)),
          clientVol (v_dc r) ai si dv acl t),
     s\<lparr>log := log s @ [AiReload (ai_Name (v_Ai r)), SnapList (dv_Path dv)], ext := w'\<rparr>)"
  using assms
  by (simp add: VolListSnapshots_def go_eval sdkResult_def Reload_run parts_run wrapAll_run)

lemma HasSnapshots_run:
  assumes "x_ai_reload E (v_Ai r) (ext s) = ((Some ai, None, None), w)"
    and "parts ai = Some (si, dv, acl, t)"
    and "x_snap_list E dv w = ((snaps, None, None), w')"
  shows "HasSnapshots E r s =
    (Ret (Inr (snaps \<noteq> []), clientVol (v_dc r) ai si dv acl t),
     s\<lparr>log := log s @ [AiReload (ai_Name (v_Ai r)), SnapList (dv_Path dv)], ext := w'\<rparr>)"
  using VolListSnapshots_run [OF assms] by (simp add: HasSnapshots_def go_eval)

section \<open>The order of the goroutines\<close>

text \<open>A backend that listing and reloading do not change.\<close>

definition steady :: "'w env \<Rightarrow> bool" where
  "steady E \<longleftrightarrow> (\<forall>a w. snd (x_ai_reload E a w) = w) \<and> (\<forall>v w. snd (x_snap_list E v w) = w)"

text \<open>A run whose outcome depends on the world only, and which leaves the world as it is.\<close>

definition viewing :: "('w, 'a) io \<Rightarrow> bool" where
  "viewing m \<longleftrightarrow> (\<forall>s t. ext s = ext t \<longrightarrow> fst (m s) = fst (m t)) \<and> (\<forall>s. ext (snd (m s)) = ext s)"

lemma viewingD:
  assumes "viewing m"
  shows "ext s = ext t \<Longrightarrow> fst (m s) = fst (m t)" and "ext (snd (m s)) = ext s"
proof -
  from assms have "ext s = ext t \<longrightarrow> fst (m s) = fst (m t)"
    unfolding viewing_def by (elim conjE allE)
  then show "ext s = ext t \<Longrightarrow> fst (m s) = fst (m t)" by simp
  from assms show "ext (snd (m s)) = ext s"
    unfolding viewing_def by (elim conjE allE)
qed

lemma viewingI:
  assumes "\<And>s t. ext s = ext t \<Longrightarrow> fst (m s) = fst (m t)" and "\<And>s. ext (snd (m s)) = ext s"
  shows "viewing m"
  unfolding viewing_def by (intro conjI allI impI assms)

named_theorems viewing_intros \<open>rules for \<open>viewing\<close> along the program's structure\<close>

lemma viewing_ret [viewing_intros]: "viewing (ret x)"
  by (simp add: viewing_def go_eval)

lemma viewing_bind [viewing_intros]:
  assumes "viewing m" and "\<And>x. viewing (k x)"
  shows "viewing (bindG m k)"
proof (rule viewingI)
  fix s t :: "'a st" assume e: "ext s = ext t"
  obtain r s1 where m: "m s = (r, s1)" by fastforce
  obtain r' t1 where m': "m t = (r', t1)" by fastforce
  have r: "r' = r" and s1: "ext s1 = ext s" "ext t1 = ext t"
    using viewingD(1) [OF assms(1) e] viewingD(2) [OF assms(1), of s] viewingD(2) [OF assms(1), of t]
    by (simp_all add: m m')
  have "fst (k x s1) = fst (k x t1)" for x
    by (rule viewingD(1) [OF assms(2)]) (simp add: s1 e)
  then show "fst (bindG m k s) = fst (bindG m k t)"
    by (cases r) (simp_all add: go_eval m m' r)
next
  fix s
  obtain r s1 where m: "m s = (r, s1)" by fastforce
  have "ext s1 = ext s" using viewingD(2) [OF assms(1), of s] by (simp add: m)
  then show "ext (snd (bindG m k s)) = ext s"
    using viewingD(2) [OF assms(2)] by (cases r) (simp_all add: go_eval m)
qed

lemma viewing_deref [viewing_intros]: "viewing (derefG p)"
  by (cases p) (simp_all add: viewing_def go_eval)

lemma viewing_index [viewing_intros]: "viewing (indexG xs i)"
  by (auto simp: viewing_def go_eval)

lemma viewing_call [viewing_intros]: "(\<And>w. snd (f w) = w) \<Longrightarrow> viewing (sdkCall ev f)"
  by (simp add: viewing_def go_eval)

lemma viewing_branches [viewing_intros]:
  "viewing a \<Longrightarrow> viewing b \<Longrightarrow> viewing (if c then a else b)"
  "viewing a \<Longrightarrow> (\<And>x. viewing (f x)) \<Longrightarrow> viewing (case p of None \<Rightarrow> a | Some x \<Rightarrow> f x)"
  "(\<And>e. viewing (g e)) \<Longrightarrow> (\<And>y. viewing (h y)) \<Longrightarrow> viewing (case r of Inl e \<Rightarrow> g e | Inr y \<Rightarrow> h y)"
  "(\<And>x y. viewing (k x y)) \<Longrightarrow> viewing (case q of (x, y) \<Rightarrow> k x y)"
  "(\<And>x. viewing (l x)) \<Longrightarrow> viewing (let x = u in l x)"
  by (simp_all split: option.splits sum.splits prod.splits)

lemma viewing_try [viewing_intros]: "viewing m \<Longrightarrow> (\<And>x. viewing (k x)) \<Longrightarrow> viewing (tryG m k)"
  unfolding tryG_def by (intro viewing_intros)

lemma viewing_mapTry [viewing_intros]: "(\<And>x. viewing (f x)) \<Longrightarrow> viewing (mapTryG f xs)"
  by (induction xs) (auto intro!: viewing_intros)

lemma viewing_convert [viewing_intros]: "viewing (aiToClientVol E ai False False c)"
  unfolding aiToClientVol_def readLimits_def firstVolume_def simp_thms if_False by (intro viewing_intros)

lemma VolListSnapshots_viewing:
  assumes "steady E"
  shows "viewing (VolListSnapshots E v sid)"
  using assms unfolding VolListSnapshots_def Reload_def wrapSnapshot_def firstVolume_def steady_def
  by (intro viewing_intros) auto

text \<open>The ids that one volume contributes.\<close>

definition snapIds :: "'w env \<Rightarrow> string \<Rightarrow> 'w st \<Rightarrow> volume \<Rightarrow> string list" where
  "snapIds E sid s v = (case fst (VolListSnapshots E v sid s) of Ret (Inr ss, _) \<Rightarrow> map ss_Id ss | _ \<Rightarrow> [])"

lemma gatherSnaps_ids:
  assumes "steady E"
  shows "gatherSnaps E sid vs t = (Ret ss, t') \<Longrightarrow> ext t = ext s \<Longrightarrow>
    map ss_Id ss = concat (map (snapIds E sid s) vs) \<and> ext t' = ext s"
proof (induction vs arbitrary: t ss)
  case Nil
  then show ?case by (simp add: go_eval)
next
  case (Cons v vs)
  obtain r t1 where v: "VolListSnapshots E v sid t = (r, t1)" by fastforce
  have t1: "ext t1 = ext s" and r: "fst (VolListSnapshots E v sid s) = r"
    using viewingD(2) [OF VolListSnapshots_viewing [OF assms], of v sid t]
      viewingD(1) [OF VolListSnapshots_viewing [OF assms], of s t v sid] v Cons.prems(2) by simp_all
  from v Cons.prems(1) obtain l v' rest where l: "r = Ret (l, v')"
    and rest: "gatherSnaps E sid vs t1 = (Ret rest, t')"
    and ss: "ss = (case l of Inl _ \<Rightarrow> [] | Inr xs \<Rightarrow> xs) @ rest"
    by (auto simp: go_eval split: outcome.splits prod.splits)
  show ?case
    using Cons.IH [OF rest t1] ss r l by (auto simp: snapIds_def split: sum.splits)
qed

lemma pageOf_state: "pageOf xs m st s = (r, s') \<Longrightarrow> s' = s"
  by (auto simp: pageOf_def sliceG_def Let_def go_eval split: if_splits)

lemma pageOf_map:
  "pageOf (map f xs) m st s = (case pageOf xs m st s of
     (Ret (page, tok), s') \<Rightarrow> (Ret (map f page, tok), s') | (Panic p, s') \<Rightarrow> (Panic p, s'))"
  by (auto simp: pageOf_def sliceG_def Let_def go_eval panic_run take_map drop_map)

lemma ids_sorted:
  assumes "mset (map ss_Id ss) = mset ids"
  shows "map ss_Id (sort_key ss_Id ss) = sort ids"
  using assms by (intro properties_for_sort [symmetric]) simp_all

lemma scheduled_mset:
  assumes "mset (x_schedule E (length xs)) = mset [0..<length xs]"
  shows "mset (scheduled E xs) = mset xs"
proof -
  have "mset (scheduled E xs) = image_mset ((!) xs) (mset [0..<length xs])"
    by (simp only: scheduled_def mset_map assms)
  also have "\<dots> = mset (map ((!) xs) [0..<length xs])" by simp
  finally show ?thesis by (simp only: map_nth)
qed


lemma mset_concat_map:
  assumes "mset xs = mset ys"
  shows "mset (concat (map f xs)) = mset (concat (map f ys))"
proof -
  have "mset (concat (map f zs)) = \<Sum>\<^sub># (image_mset (\<lambda>z. mset (f z)) (mset zs))" for zs
    by (induction zs) simp_all
  then show ?thesis using assms by simp
qed


end
