(* ===== verification/Csi_Types.thy ===== *)
theory Csi_Types
  imports Client_Snapshots
begin

text \<open>
  The messages of the Container Storage Interface that the driver reads and answers with (the
  types of the package \<open>csi\<close>, of which the fields below are used). A pointer field that may be nil
  is an \<open>option\<close>, an enumeration value is its name, a nil map reads like an empty one.
  A handler's result \<open>(resp, err)\<close> is \<open>Inl err\<close> or \<open>Inr resp\<close>: gRPC drops the response of a call
  that failed.
\<close>

section \<open>Parts of messages\<close>

record cap_range =
  cr_RequiredBytes :: int
  cr_LimitBytes :: int

record mount_volume =
  mv_FsType :: string
  mv_MountFlags :: "string list"

datatype access_type = NoAccess | BlockAccess | MountAccess "mount_volume option"

record vol_cap =
  vcp_AccessMode :: "string option"
  vcp_AccessType :: access_type

record topology_req =
  tr_Requisite :: "smap list"
  tr_Preferred :: "smap list"

datatype content_source = NoType | SnapshotSource "string option" | VolumeSource "string option"

section \<open>Requests\<close>

record create_volume_req =
  cvq_Name :: string
  cvq_CapacityRange :: "cap_range option"
  cvq_VolumeCapabilities :: "vol_cap option list option"
  cvq_Parameters :: smap
  cvq_Secrets :: smap
  cvq_VolumeContentSource :: "content_source option"
  cvq_AccessibilityRequirements :: "topology_req option"

record delete_volume_req =
  dvq_VolumeId :: string
  dvq_Secrets :: smap

record validate_req =
  vvq_VolumeId :: string
  vvq_VolumeCapabilities :: "vol_cap option list option"

record list_volumes_req =
  lvq_MaxEntries :: int
  lvq_StartingToken :: string

record create_snapshot_req =
  csq_SourceVolumeId :: string
  csq_Name :: string
  csq_Parameters :: smap

record list_snapshots_req =
  lsq_MaxEntries :: int
  lsq_StartingToken :: string
  lsq_SourceVolumeId :: string
  lsq_SnapshotId :: string

record expand_req =
  exq_VolumeId :: string
  exq_VolumePath :: string
  exq_CapacityRange :: "cap_range option"

record stage_req =
  sgq_VolumeId :: string
  sgq_StagingTargetPath :: string
  sgq_VolumeCapability :: "vol_cap option"
  sgq_Secrets :: smap

record publish_req =
  pbq_VolumeId :: string
  pbq_StagingTargetPath :: string
  pbq_TargetPath :: string
  pbq_VolumeCapability :: "vol_cap option"
  pbq_VolumeContext :: "smap option"

text \<open>Any request, as \<open>InitFunc\<close> gets it. The requests without a field that the driver reads are
  known by their printed form only.\<close>

datatype csi_req =
    ReqCreateVolume create_volume_req
  | ReqDeleteVolume delete_volume_req
  | ReqValidate validate_req
  | ReqListVolumes list_volumes_req
  | ReqGetCapacity smap
  | ReqCreateSnapshot create_snapshot_req
  | ReqDeleteSnapshot string
  | ReqListSnapshots list_snapshots_req
  | ReqExpand expand_req
  | ReqStage stage_req
  | ReqUnstage stage_req
  | ReqPublish publish_req
  | ReqUnpublish publish_req
  | ReqVolumeStats string
  | ReqOther string

section \<open>Responses\<close>

record csi_volume =
  vol_CapacityBytes :: int
  vol_VolumeId :: string
  vol_VolumeContext :: smap
  vol_ContentSource :: "content_source option"

record csi_snapshot =
  snp_SnapshotId :: string
  snp_SourceVolumeId :: string
  snp_SizeBytes :: int
  snp_CreationTime :: "int \<times> int"  \<comment> \<open>seconds and nanoseconds\<close>
  snp_ReadyToUse :: bool

record list_snapshots_resp =
  lsr_Entries :: "csi_snapshot list"
  lsr_NextToken :: string

record volume_usage =
  us_Available :: int
  us_Total :: int
  us_Used :: int

record plugin_info =
  pi_Name :: string
  pi_VendorVersion :: string
  pi_Manifest :: smap

end
