(* ===== verification/Driver_Core.thy ===== *)
theory Driver_Core
  imports Csi_Types
begin

text \<open>
  \<open>pkg/driver/driver.go\<close>: the environment variables, the driver value, which services a driver
  type serves, the bracket every RPC handler runs in (\<open>InitFunc\<close> with its deferred cleaner), the
  registration of volume capabilities, and the two background loops.
  Logging is left out; so are the socket, the listener and gRPC itself.
\<close>

section \<open>Types of drivers\<close>

text \<open>\<open>iota + 1\<close> for the twelfth constant of its block.\<close>

definition IdentityType :: int where "IdentityType = 12"
definition ControllerType :: int where "ControllerType = 13"
definition NodeType :: int where "NodeType = 14"
definition NodeIdentityType :: int where "NodeIdentityType = 15"
definition ControllerIdentityType :: int where "ControllerIdentityType = 16"
definition AllType :: int where "AllType = 17"

lemmas driver_types = IdentityType_def ControllerType_def NodeType_def NodeIdentityType_def
  ControllerIdentityType_def AllType_def

definition StrToType :: "string \<rightharpoonup> int" where
  "StrToType = map_of
     [(''identity'', IdentityType), (''controller'', ControllerType), (''node'', NodeType),
      (''nodeident'', NodeIdentityType), (''conident'', ControllerIdentityType),
      (''all'', AllType)]"

definition TypeToSock :: "int \<rightharpoonup> string" where
  "TypeToSock = map_of
     [(IdentityType, ''identity''), (ControllerType, ''controller''), (NodeType, ''node''),
      (NodeIdentityType, ''node''), (ControllerIdentityType, ''controller''),
      (AllType, ''controller'')]"

definition SupportedFsTypes :: "string list" where
  "SupportedFsTypes = [Ext4, Xfs]"

definition isSupportedFs :: "string \<Rightarrow> bool" where
  "isSupportedFs fs = (fs \<in> set SupportedFsTypes)"

definition DefaultFsArgs :: "string \<rightharpoonup> string list" where
  "DefaultFsArgs = map_of
     [(Ext4, splitOn CHR '' '' ''-E lazy_itable_init=0,lazy_journal_init=0,nodiscard -F''),
      (Xfs, [])]"

section \<open>The environment\<close>

record env_vars =
  ev_DriverName :: string
  ev_Type :: int
  ev_VolPerNode :: int
  ev_DisableMultipath :: bool
  ev_ReplicaOverride :: bool
  ev_Heartbeat :: int
  ev_MetadataDebug :: bool
  ev_LogPush :: bool
  ev_LogPushInterval :: int
  ev_FormatTimeout :: int

definition intVar :: "string \<Rightarrow> int \<Rightarrow> int" where
  "intVar v dflt = (case ParseInt v 0 of (i, None) \<Rightarrow> i | (_, Some _) \<Rightarrow> dflt)"

text \<open>\<open>MetadataDebug\<close> is read from the variable of \<open>DisableMultipath\<close>.\<close>

definition readEnvVars :: "(string \<Rightarrow> string) \<Rightarrow> env_vars" where
  "readEnvVars getenv =
     \<lparr>ev_DriverName =
        (if getenv ''DAT_DRIVER_NAME'' = [] then ''dsp.csi.daterainc.io'' else getenv ''DAT_DRIVER_NAME''),
      ev_Type = (case StrToType (getenv ''DAT_TYPE'') of None \<Rightarrow> 0 | Some t \<Rightarrow> t),
      ev_VolPerNode = intVar (getenv ''DAT_VOL_PER_NODE'') 256,
      ev_DisableMultipath = (getenv ''DAT_DISABLE_MULTIPATH'' \<noteq> []),
      ev_ReplicaOverride = (getenv ''DAT_REPLICA_OVERRIDE'' \<noteq> []),
      ev_Heartbeat = intVar (getenv ''DAT_HEARTBEAT'') 60,
      ev_MetadataDebug = (getenv ''DAT_DISABLE_MULTIPATH'' \<noteq> []),
      ev_LogPush = \<not> (getenv ''DAT_DISABLE_LOGPUSH'' \<noteq> [] \<and> getenv ''DAT_DISABLE_LOGPUSH'' \<noteq> ''false''),
      ev_LogPushInterval = intVar (getenv ''DAT_LOGPUSH_INTERVAL'') 7200,
      ev_FormatTimeout = intVar (getenv ''DAT_FORMAT_TIMEOUT'') 60\<rparr>"

section \<open>The driver\<close>

text \<open>The fields that no call changes. Three functions are not of this repository: the SDK's
  \<open>WithContext\<close>, the text \<open>fmt\<close> prints for a request, and the order of a map.\<close>

record 'w driver =
  dr_env :: "'w env"
  dr_vars :: env_vars
  dr_nid :: string
  dr_name :: string
  dr_version :: string
  dr_sock :: string
  dr_sdkContext :: "rpc_ctx \<Rightarrow> rpc_ctx"
  dr_format :: "csi_req \<Rightarrow> string"
  dr_mapOrder :: "string list \<Rightarrow> string list"  \<comment> \<open>the order in which a map is ranged over\<close>

text \<open>The value that \<open>NewDateraDriver\<close> returns, once the client exists.\<close>

definition newDriver ::
    "'w env \<Rightarrow> (rpc_ctx \<Rightarrow> rpc_ctx) \<Rightarrow> (csi_req \<Rightarrow> string) \<Rightarrow> (string list \<Rightarrow> string list) \<Rightarrow>
     (string \<Rightarrow> string) \<Rightarrow> string \<Rightarrow> string \<Rightarrow> 'w driver" where
  "newDriver E sdkctx fmt order getenv host version =
     (let env = readEnvVars getenv;
          t = (case TypeToSock (ev_Type env) of None \<Rightarrow> [] | Some t \<Rightarrow> t)
      in \<lparr>dr_env = E, dr_vars = env, dr_nid = host, dr_name = ev_DriverName env,
          dr_version = version,
          dr_sock = ''unix:///var/lib/kubelet/plugins/'' @ ev_DriverName env @ ''/'' @ t @ ''.sock'',
          dr_sdkContext = sdkctx, dr_format = fmt, dr_mapOrder = order\<rparr>)"

datatype service = ControllerService | IdentityService | NodeService

text \<open>The services that \<open>Run\<close> registers.\<close>

definition services :: "int \<Rightarrow> service list" where
  "services t =
     (if t = ControllerType \<or> t = ControllerIdentityType \<or> t = AllType then [ControllerService] else []) @
     (if t = IdentityType \<or> t = NodeIdentityType \<or> t = ControllerIdentityType \<or> t = AllType
      then [IdentityService] else []) @
     (if t = NodeType \<or> t = NodeIdentityType \<or> t = AllType then [NodeService] else [])"

section \<open>One call at a time\<close>

text \<open>The table of the calls in progress: a key is looked up, then inserted, without a lock.\<close>

definition callKey :: "'w driver \<Rightarrow> string \<Rightarrow> string \<Rightarrow> csi_req \<Rightarrow> string" where
  "callKey D piece funcName req = joinWith ''|'' [piece, funcName, dr_format D req]"

definition isRunning :: "string \<Rightarrow> 'w st \<Rightarrow> bool" where
  "isRunning key s \<longleftrightarrow> key \<in> rpcStatus s"

definition setRunning :: "string \<Rightarrow> 'w st \<Rightarrow> 'w st" where
  "setRunning key s = s\<lparr>rpcStatus := insert key (rpcStatus s)\<rparr>"

definition clearRunning :: "string \<Rightarrow> 'w st \<Rightarrow> 'w st" where
  "clearRunning key s = s\<lparr>rpcStatus := rpcStatus s - {key}\<rparr>"

definition InitFunc ::
    "'w driver \<Rightarrow> rpc_ctx \<Rightarrow> string \<Rightarrow> string \<Rightarrow> csi_req \<Rightarrow>
     ('w, rpc_ctx \<times> bool \<times> ('w st \<Rightarrow> 'w st)) io" where
  "InitFunc D ctx piece funcName req =
     bindG (case ctx_TraceId ctx of
              None \<Rightarrow> panic ''interface conversion: interface is nil, not string''
            | Some i \<Rightarrow> ret i) (\<lambda>i.
     bindG (WithCtxt (dr_env D) ctx (joinWith ''.'' [piece, funcName]) i) (\<lambda>ctxt.
     let ctxt = dr_sdkContext D ctxt; key = callKey D piece funcName req
     in bindG getG (\<lambda>s.
        if isRunning key s then ret (ctxt, True, id)
        else bindG (updG (setRunning key)) (\<lambda>_. ret (ctxt, False, clearRunning key)))))"

text \<open>The first lines of every handler: \<open>InitFunc\<close>, \<open>defer clean()\<close>, and the early return.\<close>

definition serve ::
    "'w driver \<Rightarrow> rpc_ctx \<Rightarrow> string \<Rightarrow> string \<Rightarrow> csi_req \<Rightarrow> (rpc_ctx \<Rightarrow> ('w, goerr + 'r) io) \<Rightarrow>
     ('w, goerr + 'r) io" where
  "serve D ctx piece funcName req body =
     bindG (InitFunc D ctx piece funcName req) (\<lambda>(ctxt, ip, clean).
     deferG clean
       (if ip then ret (Inl (StatusErr Aborted ''Operation is still in progress''))
        else body ctxt))"

text \<open>\<open>status.Errorf(c, err.Error())\<close>: the text is taken as a format without arguments.\<close>

definition statusOf :: "'w driver \<Rightarrow> code \<Rightarrow> goerr \<Rightarrow> goerr" where
  "statusOf D c e = StatusErr c (x_sprintf0 (dr_env D) (ErrorText (dr_env D) e))"

text \<open>\<open>x, err := m; if err != nil { return nil, status.Errorf(c, err.Error()) }\<close>\<close>

definition failWith :: "'w driver \<Rightarrow> code \<Rightarrow> ('w, goerr + 'a) io \<Rightarrow> ('w, goerr + 'a) io" where
  "failWith D c m = bindG m (\<lambda>r. ret (case r of Inl e \<Rightarrow> Inl (statusOf D c e) | Inr x \<Rightarrow> Inr x))"

text \<open>The handlers with a capacity range fill in a missing limit.\<close>

definition fillLimit :: "cap_range \<Rightarrow> cap_range" where
  "fillLimit cr = (if cr_LimitBytes cr = 0 then cr\<lparr>cr_LimitBytes := cr_RequiredBytes cr\<rparr> else cr)"

section \<open>Volume capabilities\<close>

text \<open>The metadata map is updated in place; on an error it is left as it was.\<close>

definition supportedFsTypes :: "'w driver \<Rightarrow> string list" where
  "supportedFsTypes D = dr_mapOrder D SupportedFsTypes"

definition RegisterVolumeCapability ::
    "'w driver \<Rightarrow> smap \<Rightarrow> vol_cap option \<Rightarrow> ('w, goerr + smap) io" where
  "RegisterVolumeCapability D md vc = (case vc of
      None \<Rightarrow> ret (Inl (PlainErr ''VolumeCapability is nil''))
    | Some vc \<Rightarrow>
        let mo = (case vcp_AccessMode vc of None \<Rightarrow> [] | Some m \<Rightarrow> m)
        in case vcp_AccessType vc of
             NoAccess \<Rightarrow> ret (Inl (PlainErr (''Unsupported VolumeCapability: '' @
               ''.  Supported capabilities are Mount and Block'')))
           | BlockAccess \<Rightarrow>
               ret (Inr (md(''access_type'' \<mapsto> ''block'', ''access_mode'' \<mapsto> mo)))
           | MountAccess mnt \<Rightarrow>
               bindG (derefG mnt) (\<lambda>mnt.
               let fs = (if mv_FsType mnt = [] then Ext4 else mv_FsType mnt)
               in if \<not> isSupportedFs fs then
                    ret (Inl (PlainErr (''Unsupported filesystem type: '' @ fs @
                      '', supported types :re ['' @ joinWith '' '' (supportedFsTypes D) @ '']'')))
                  else
                    ret (Inr (md(''access_type'' \<mapsto> ''mount'', ''fs_type'' \<mapsto> fs,
                      ''m_flags'' \<mapsto> joinWith [] (mv_MountFlags mnt),
                      ''access_mode'' \<mapsto> mo)))))"

section \<open>Background loops\<close>

text \<open>\<open>Sleeper\<close> counts down seconds; one \<open>SleepSeconds 1\<close> for each.\<close>

fun Sleeper :: "nat \<Rightarrow> ('w, unit) io" where
  "Sleeper 0 = ret ()"
| "Sleeper (Suc n) = bindG (sleepG 1) (\<lambda>_. Sleeper n)"

text \<open>The start of \<open>Heartbeater\<close>: on a node it only sets the flag. Then one round of its loop: on
  an error \<open>mf\<close> is nil and is dereferenced.\<close>

definition heartbeatNode :: "int \<Rightarrow> bool" where
  "heartbeatNode t \<longleftrightarrow> t = NodeType \<or> t = NodeIdentityType \<or> t = AllType"

definition heartbeatRound :: "'w driver \<Rightarrow> ('w, unit) io" where
  "heartbeatRound D =
     bindG (HealthCheck (dr_env D)) (\<lambda>r. case r of
       Inl _ \<Rightarrow>
         bindG (updG (\<lambda>s. s\<lparr>healthy := False, d_manifest := None\<rparr>)) (\<lambda>_.
         bindG (derefG (None :: manifest option)) (\<lambda>mf.
         updG (\<lambda>s. s\<lparr>d_vendorVersion := mf_BuildVersion mf\<rparr>)))
     | Inr _ \<Rightarrow> updG (\<lambda>s. s\<lparr>healthy := True\<rparr>))"

text \<open>\<open>n\<close> rounds of the loop, and the function itself; the loop has no end of its own.\<close>

fun heartbeatRounds :: "'w driver \<Rightarrow> nat \<Rightarrow> ('w, unit) io" where
  "heartbeatRounds D 0 = ret ()"
| "heartbeatRounds D (Suc n) =
     bindG (heartbeatRound D) (\<lambda>_.
     bindG (Sleeper (nat (ev_Heartbeat (dr_vars D)))) (\<lambda>_. heartbeatRounds D n))"

definition Heartbeater :: "'w driver \<Rightarrow> nat \<Rightarrow> ('w, unit) io" where
  "Heartbeater D n =
     (if heartbeatNode (ev_Type (dr_vars D)) then updG (\<lambda>s. s\<lparr>healthy := True\<rparr>)
      else heartbeatRounds D n)"

fun logPushRounds :: "'w driver \<Rightarrow> nat \<Rightarrow> ('w, unit) io" where
  "logPushRounds D 0 = ret ()"
| "logPushRounds D (Suc n) =
     bindG (LogPush (dr_env D) ''/etc/logrotate.d/driver-logrotate'' ''/var/log/driver.log.1.gz'') (\<lambda>_.
     bindG (Sleeper (nat (ev_LogPushInterval (dr_vars D)))) (\<lambda>_. logPushRounds D n))"

definition LogPusher :: "'w driver \<Rightarrow> nat \<Rightarrow> ('w, unit) io" where
  "LogPusher D n = bindG (Sleeper 10) (\<lambda>_. logPushRounds D n)"

section \<open>Effects\<close>

lemma keeps_compose: "frame (keeps f) m \<Longrightarrow> frame (keeps (\<lambda>s. g (f s))) m"
  by (simp add: frame_def keeps_def)

text \<open>The driver's fields that a handler may not change, but for the calls in progress while it runs.\<close>

definition driver_rest :: "'w st \<Rightarrow> bool \<times> manifest option \<times> string" where
  "driver_rest s = (healthy s, d_manifest s, d_vendorVersion s)"

lemma keeps_parts:
  fixes m :: "('w, 'a) io"
  assumes "frame (keeps driver_fields) m"
  shows "frame (keeps rpcStatus) m" and "frame (keeps driver_rest) m"
proof -
  have "(rpcStatus :: 'w st \<Rightarrow> _) = (\<lambda>s. fst (driver_fields s))"
    by (simp add: driver_fields_def fun_eq_iff)
  with keeps_compose [OF assms, of fst] show "frame (keeps rpcStatus) m" by simp
  have "(driver_rest :: 'w st \<Rightarrow> _) = (\<lambda>s. snd (driver_fields s))"
    by (simp add: driver_fields_def driver_rest_def fun_eq_iff)
  with keeps_compose [OF assms, of snd] show "frame (keeps driver_rest) m" by simp
qed

lemma GenId_frame [frame_intros]:
  "Q NewUuid \<Longrightarrow> frame (logs Q) (GenId E)" "frame (keeps driver_fields) (GenId E)"
  by (auto simp: GenId_def intro!: frame_intros)

lemma WithCtxt_frame [frame_intros]:
  "Q NewUuid \<Longrightarrow> frame (logs Q) (WithCtxt E ctxt n i)" "frame (keeps driver_fields) (WithCtxt E ctxt n i)"
  by (auto simp: WithCtxt_def intro!: frame_intros)

lemma failWith_frame [frame_intros]:
  "frame (logs Q) m \<Longrightarrow> frame (logs Q) (failWith D c m)"
  "frame (keeps f) m \<Longrightarrow> frame (keeps f) (failWith D c m)"
  by (auto simp: failWith_def intro!: frame_intros)

lemma RegisterVolumeCapability_frame [frame_intros]:
  "frame (logs Q) (RegisterVolumeCapability D md vc)"
  "frame (keeps f) (RegisterVolumeCapability D md vc)"
  by (auto simp: RegisterVolumeCapability_def Let_def intro!: frame_intros split: access_type.splits)

section \<open>The bracket of the handlers\<close>

lemma logs_cong: "log s' = log s \<Longrightarrow> log t' = log t \<Longrightarrow> logs Q s' t' = logs Q s t"
  by (simp add: logs_def)

lemma serve_run:
  assumes "ctx_TraceId ctx = Some i" and "i \<noteq> []"
  shows "serve D ctx piece fn req body s =
    (let key = callKey D piece fn req;
         ctxt = dr_sdkContext D (topctxt\<lparr>ctx_TraceId := Some i, ctx_ReqName := Some (joinWith ''.'' [piece, fn])\<rparr>)
     in if isRunning key s
        then (Ret (Inl (StatusErr Aborted ''Operation is still in progress'')), s)
        else case body ctxt (setRunning key s) of (r, s') \<Rightarrow> (r, clearRunning key s'))"
  using assms
  by (simp add: serve_def InitFunc_def WithCtxt_def go_eval Let_def split_beta)

text \<open>In general: a context without a trace id panics before anything is done; an empty trace id
  costs one more call, for a new one.\<close>

lemma InitFunc_cases:
  obtains p where "InitFunc D ctx piece fn req s = (Panic p, s)"
  | i ctxt s0 where "WithCtxt (dr_env D) ctx (joinWith ''.'' [piece, fn]) i s = (Ret ctxt, s0)"
      and "InitFunc D ctx piece fn req s =
        (if isRunning (callKey D piece fn req) s0 then (Ret (dr_sdkContext D ctxt, True, id), s0)
         else (Ret (dr_sdkContext D ctxt, False, clearRunning (callKey D piece fn req)),
               setRunning (callKey D piece fn req) s0))"
proof (cases "ctx_TraceId ctx")
  case None
  then show thesis by (intro that(1)) (simp add: InitFunc_def go_eval)
next
  case (Some i)
  obtain ctxt s0 where w: "WithCtxt (dr_env D) ctx (joinWith ''.'' [piece, fn]) i s = (Ret ctxt, s0)"
    by (cases "i = []") (auto simp: WithCtxt_def GenId_def go_eval)
  show thesis
    by (rule that(2) [OF w]) (simp add: InitFunc_def Some go_eval w Let_def del: joinWith.simps)
qed

lemma serve_frame_rpcStatus:
  assumes body: "\<And>ctxt. frame (keeps rpcStatus) (body ctxt)"
  shows "frame (keeps rpcStatus) (serve D ctx piece fn req body)"
proof (rule frameI)
  fix s :: "'a st"
  let ?key = "callKey D piece fn req"
  show "keeps rpcStatus s (snd (serve D ctx piece fn req body s))"
  proof (cases rule: InitFunc_cases [of D ctx piece fn req s])
    case (1 p)
    then show ?thesis by (simp add: serve_def go_eval keeps_def)
  next
    case (2 i ctxt s0)
    have s0: "rpcStatus s0 = rpcStatus s"
      using frameD [OF keeps_parts(1) [OF WithCtxt_frame(2)] 2(1)] by (simp add: keeps_def)
    show ?thesis
    proof (cases "isRunning ?key s0")
      case True
      then show ?thesis using 2(2) s0 by (simp add: serve_def go_eval keeps_def)
    next
      case False
      have "rpcStatus (snd (body (dr_sdkContext D ctxt) (setRunning ?key s0))) = insert ?key (rpcStatus s0)"
        using body [of "dr_sdkContext D ctxt"] by (simp add: frame_def keeps_def setRunning_def)
      then show ?thesis
        using 2(2) False s0 by (simp add: serve_def go_eval keeps_def clearRunning_def isRunning_def)
    qed
  qed
qed

text \<open>The interface of a relation that the bracket's own steps stay in; the handler's body then
  decides.\<close>

locale call_bracket = step_preorder R for R :: "'w st \<Rightarrow> 'w st \<Rightarrow> bool" +
  assumes R_set: "R s (setRunning k s)"
    and R_clear: "R s (clearRunning k s)"
    and R_uuid: "frame R (extG NewUuid (f :: 'w \<Rightarrow> string \<times> 'w))"
begin

lemma WithCtxt_R: "frame R (WithCtxt E ctxt n i)"
  unfolding WithCtxt_def GenId_def by (intro frame_branches frame_rules R_uuid)

lemma frame_serve:
  assumes body: "\<And>ctxt. frame R (body ctxt)"
  shows "frame R (serve D ctx piece fn req body)"
proof (rule frameI)
  fix s
  let ?key = "callKey D piece fn req"
  show "R s (snd (serve D ctx piece fn req body s))"
  proof (cases rule: InitFunc_cases [of D ctx piece fn req s])
    case (1 p)
    then show ?thesis by (simp add: serve_def go_eval R_refl)
  next
    case (2 i ctxt s0)
    have s0: "R s s0" by (rule frameD [OF WithCtxt_R 2(1)])
    show ?thesis
    proof (cases "isRunning ?key s0")
      case True
      then show ?thesis using 2(2) s0 by (simp add: serve_def go_eval)
    next
      case False
      have "R s0 (snd (body (dr_sdkContext D ctxt) (setRunning ?key s0)))"
        using body by (metis R_set R_trans frame_def)
      then have "R s (clearRunning ?key (snd (body (dr_sdkContext D ctxt) (setRunning ?key s0))))"
        using s0 R_clear R_trans by blast
      then show ?thesis using 2(2) False by (simp add: serve_def go_eval)
    qed
  qed
qed

end

interpretation rest: call_bracket "keeps driver_rest"
  by unfold_locales
    (simp_all add: keeps_def driver_rest_def setRunning_def clearRunning_def frame_def go_eval)

interpretation calls: call_bracket "logs (\<lambda>e. e = NewUuid \<or> Q e)" for Q
  by unfold_locales (auto simp: logs_def setRunning_def clearRunning_def frame_def go_eval)

lemma serve_logs [frame_intros]:
  assumes "Q NewUuid" and "\<And>ctxt. frame (logs Q) (body ctxt)"
  shows "frame (logs Q) (serve D ctx piece fn req body)"
proof -
  have "(\<lambda>e. e = NewUuid \<or> Q e) = Q"
    using assms(1) by auto
  with calls.frame_serve [of Q body] assms(2) show ?thesis by simp
qed

lemmas serve_keeps [frame_intros] = serve_frame_rpcStatus rest.frame_serve

text \<open>A body that changes no field of the driver makes a handler that changes none.\<close>

lemma serve_keeps_fields [frame_intros]:
  fixes body :: "rpc_ctx \<Rightarrow> ('w, goerr + 'r) io"
  assumes "\<And>ctxt. frame (keeps driver_fields) (body ctxt)"
  shows "frame (keeps driver_fields) (serve D ctx piece fn req body)"
proof -
  have "frame (keeps rpcStatus) (serve D ctx piece fn req body)"
    and "frame (keeps driver_rest) (serve D ctx piece fn req body)"
    by (intro serve_keeps keeps_parts assms)+
  then show ?thesis by (simp add: frame_def keeps_def driver_fields_def driver_rest_def)
qed

section \<open>What a driver serves\<close>

lemma services_known:
  "services IdentityType = [IdentityService]"
  "services ControllerType = [ControllerService]"
  "services NodeType = [NodeService]"
  "services NodeIdentityType = [IdentityService, NodeService]"
  "services ControllerIdentityType = [ControllerService, IdentityService]"
  "services AllType = [ControllerService, IdentityService, NodeService]"
  "services 0 = []"
  by (simp_all add: services_def driver_types)

text \<open>Services in the order in which \<open>Run\<close> registers them, so that sorted lists of them are known.\<close>

fun serviceRank :: "service \<Rightarrow> nat" where
  "serviceRank ControllerService = 0"
| "serviceRank IdentityService = 1"
| "serviceRank NodeService = 2"

instantiation service :: linorder
begin

definition less_eq_service :: "service \<Rightarrow> service \<Rightarrow> bool" where
  "less_eq_service a b \<longleftrightarrow> serviceRank a \<le> serviceRank b"

definition less_service :: "service \<Rightarrow> service \<Rightarrow> bool" where
  "less_service a b \<longleftrightarrow> serviceRank a < serviceRank b"

instance
proof
  show "a = b" if "a \<le> b" "b \<le> a" for a b :: service
    using that by (cases a; cases b) (simp_all add: less_eq_service_def)
qed (auto simp: less_eq_service_def less_service_def)

end

text \<open>Whatever the type, no service is registered twice, and they come in this order.\<close>

lemma services_sorted: "sorted (services t)" "distinct (services t)"
  by (auto simp: services_def driver_types less_eq_service_def)

text \<open>The variable \<open>DAT_TYPE\<close> decides which services the driver registers; with any value
  that is not one of the six names, the empty one included, it registers none and still starts.\<close>

theorem services_of_environment:
  "services (ev_Type (readEnvVars getenv)) =
     (let t = getenv ''DAT_TYPE'' in
      if t = ''identity'' then [IdentityService]
      else if t = ''controller'' then [ControllerService]
      else if t = ''node'' then [NodeService]
      else if t = ''nodeident'' then [IdentityService, NodeService]
      else if t = ''conident'' then [ControllerService, IdentityService]
      else if t = ''all'' then [ControllerService, IdentityService, NodeService]
      else [])"
  by (simp add: readEnvVars_def StrToType_def services_known Let_def)

text \<open>\<open>DAT_METADATA_DEBUG\<close> has no effect: the debug flag follows the multipath variable.\<close>

lemma metadata_debug_ignored:
  "readEnvVars (getenv(''DAT_METADATA_DEBUG'' := v)) = readEnvVars getenv \<and>
   ev_MetadataDebug (readEnvVars getenv) = ev_DisableMultipath (readEnvVars getenv)"
  by (simp add: readEnvVars_def)

section \<open>The heartbeat\<close>

lemma Sleeper_frame [frame_intros]:
  "Q (SleepSeconds 1) \<Longrightarrow> frame (logs Q) (Sleeper n)" "frame (keeps driver_fields) (Sleeper n)"
  by (induction n) (auto simp del: One_nat_def intro!: frame_intros)

lemma heartbeatRound_error:
  assumes "x_sys_get (dr_env D) (ext s) = (r, w)" and "sdkResult r = Inl e"
  shows "heartbeatRound D s =
    (Panic ''invalid memory address or nil pointer dereference'',
     s\<lparr>log := log s @ [SysGet], ext := w, healthy := False, d_manifest := None\<rparr>)"
  using assms by (simp add: heartbeatRound_def HealthCheck_def GetManifest_def go_eval)

text \<open>A controller's heartbeat survives no failed health check: the first error of the backend,
  of whatever kind, ends the loop with a nil dereference, after the driver was marked unhealthy.\<close>

theorem heartbeat_failure_panics:
  assumes "\<not> heartbeatNode (ev_Type (dr_vars D))"
    and "x_sys_get (dr_env D) (ext s) = (r, w)" and "sdkResult r = Inl e"
  shows "Heartbeater D (Suc n) s =
    (Panic ''invalid memory address or nil pointer dereference'',
     s\<lparr>log := log s @ [SysGet], ext := w, healthy := False, d_manifest := None\<rparr>)"
  using assms(1) heartbeatRound_error [OF assms(2,3)] by (simp add: Heartbeater_def go_eval)

lemma keeps_vendorVersion:
  fixes m :: "('w, 'a) io"
  assumes "frame (keeps driver_fields) m"
  shows "frame (keeps d_vendorVersion) m"
proof -
  have "(d_vendorVersion :: 'w st \<Rightarrow> _) = (\<lambda>s. snd (snd (snd (driver_fields s))))"
    by (simp add: driver_fields_def fun_eq_iff)
  with keeps_compose [OF assms, of "\<lambda>x. snd (snd (snd x))"] show ?thesis by simp
qed

text \<open>No heartbeat, successful or not, ever sets the vendor version that \<open>GetPluginInfo\<close> reports.\<close>

lemma heartbeatRounds_version: "frame (keeps d_vendorVersion) (heartbeatRounds D n)"
proof (induction n)
  case 0
  show ?case by (simp add: frame_intros)
next
  case (Suc n)
  have check: "frame (keeps d_vendorVersion) (HealthCheck (dr_env D))"
    unfolding HealthCheck_def by (intro keeps_vendorVersion frame_intros)
  have nil: "frame (keeps d_vendorVersion) (bindG (derefG (None :: manifest option)) k)" for k
    by (simp add: frame_def keeps_def go_eval)
  have upd: "frame (keeps d_vendorVersion) (updG f)" if "\<And>s. d_vendorVersion (f s) = d_vendorVersion s" for f
    using that by (simp add: frame_def keeps_def go_eval)
  have round: "frame (keeps d_vendorVersion) (heartbeatRound D)"
    unfolding heartbeatRound_def by (intro frame_intros check nil upd) simp_all
  have sleep: "frame (keeps d_vendorVersion) (Sleeper k)" for k
    by (intro keeps_vendorVersion frame_intros)
  show ?case
    unfolding heartbeatRounds.simps by (intro frame_intros round sleep Suc)
qed

lemma heartbeat_never_sets_version: "frame (keeps d_vendorVersion) (Heartbeater D n)"
  unfolding Heartbeater_def
  by (intro frame_branches heartbeatRounds_version) (simp add: frame_def keeps_def go_eval)

section \<open>Volume capabilities\<close>

text \<open>Registering a capability either fails and records nothing, or records the access mode and
  type and, for a mount, a file system that is supported; every other entry of the metadata
  stays.\<close>

theorem RegisterVolumeCapability_records:
  "case fst (RegisterVolumeCapability D md vc s) of
     Ret (Inr md') \<Rightarrow>
       md' |` (- {''access_type'', ''access_mode'', ''fs_type'', ''m_flags''}) =
       md |` (- {''access_type'', ''access_mode'', ''fs_type'', ''m_flags''}) \<and>
       (md' ''access_type'' = Some ''block'' \<and> md' ''fs_type'' = md ''fs_type'' \<or>
        md' ''access_type'' = Some ''mount'' \<and> md' ''fs_type'' \<in> {Some Ext4, Some Xfs}) \<and>
       md' ''access_mode'' = Some (case vc of Some c \<Rightarrow> (case vcp_AccessMode c of None \<Rightarrow> [] | Some m \<Rightarrow> m) | None \<Rightarrow> [])
   | Ret (Inl e) \<Rightarrow> snd (RegisterVolumeCapability D md vc s) = s
   | Panic p \<Rightarrow> \<exists>c. vc = Some c \<and> vcp_AccessType c = MountAccess None"
  by (auto simp: RegisterVolumeCapability_def isSupportedFs_def SupportedFsTypes_def go_eval Let_def
      restrict_map_def fun_eq_iff derefG_def split: option.splits access_type.splits)

end
