(* ===== verification/Driver_Controller.thy ===== *)
theory Driver_Controller
  imports Driver_Core
begin

text \<open>
  \<open>pkg/driver/controller.go\<close>: the eleven RPCs of the controller service, and the parsing and
  validation of their parameters. Each handler is the whole function: the early returns in their
  order, the client calls, the response.
\<close>

section \<open>Parameters\<close>

definition DefaultSize :: int where "DefaultSize = 16"

definition paramOr :: "smap \<Rightarrow> string \<Rightarrow> string \<Rightarrow> string" where
  "paramOr params k dflt = (case params k of None \<Rightarrow> dflt | Some v \<Rightarrow> v)"

definition intParam :: "smap \<Rightarrow> string \<Rightarrow> string \<Rightarrow> goerr + int" where
  "intParam params k dflt = (let v = paramOr params k dflt in
     case ParseInt v 10 of
       (i, None) \<Rightarrow> Inr i
     | (_, Some e) \<Rightarrow> Inl (NumError ''ParseInt'' v e))"

definition boolParam :: "smap \<Rightarrow> string \<Rightarrow> string \<Rightarrow> goerr + bool" where
  "boolParam params k dflt = (let v = paramOr params k dflt in
     case ParseBool v of
       Some b \<Rightarrow> Inr b
     | None \<Rightarrow> Inl (NumError ''ParseBool'' v ErrSyntax))"

definition bindS :: "'e + 'a \<Rightarrow> ('a \<Rightarrow> 'e + 'b) \<Rightarrow> 'e + 'b" where
  "bindS r k = (case r of Inl e \<Rightarrow> Inl e | Inr x \<Rightarrow> k x)"

definition parseVolParams :: "smap \<Rightarrow> goerr + vol_opts" where
  "parseVolParams params =
     bindS (intParam params ''iops_per_gb'' ''0'') (\<lambda>ipg.
     bindS (intParam params ''bandwidth_per_gb'' ''0'') (\<lambda>bpg.
     bindS (boolParam params ''round_robin'' ''false'') (\<lambda>rr.
     bindS (intParam params ''replica_count'' ''3'') (\<lambda>rc.
     bindS (boolParam params ''disable_template_override'' ''false'') (\<lambda>dto.
     bindS (intParam params ''read_iops_max'' ''0'') (\<lambda>rim.
     bindS (intParam params ''write_iops_max'' ''0'') (\<lambda>wim.
     bindS (intParam params ''total_iops_max'' ''0'') (\<lambda>tim.
     bindS (intParam params ''read_bandwidth_max'' ''0'') (\<lambda>rbm.
     bindS (intParam params ''write_bandwidth_max'' ''0'') (\<lambda>wbm.
     bindS (intParam params ''total_bandwidth_max'' ''0'') (\<lambda>tbm.
     bindS (boolParam params ''delete_on_unmount'' ''false'') (\<lambda>dou.
     Inr (emptyOpts
       \<lparr>vo_IopsPerGb := ipg, vo_BandwidthPerGb := bpg,
        vo_PlacementMode := paramOr params ''placement_mode'' ''hybrid'',
        vo_PlacementPolicy := paramOr params ''placement_policy'' ''default'',
        vo_RoundRobin := rr, vo_Replica := rc,
        vo_IpPool := paramOr params ''ip_pool'' ''default'',
        vo_Template := paramOr params ''template'' [],
        vo_DisableTemplateOverride := dto,
        vo_ReadIopsMax := rim, vo_WriteIopsMax := wim, vo_TotalIopsMax := tim,
        vo_ReadBandwidthMax := rbm, vo_WriteBandwidthMax := wbm, vo_TotalBandwidthMax := tbm,
        vo_DeleteOnUnmount := dou\<rparr>)))))))))))))"

definition parseSnapParams :: "smap \<Rightarrow> snap_opts" where
  "parseSnapParams params =
     \<lparr>so_RemoteProviderUuid = paramOr params ''remote_provider_uuid'' [],
      so_Type = paramOr params ''type'' ''local''\<rparr>"

definition validateSnapId :: "string \<Rightarrow> goerr option" where
  "validateSnapId snapId =
     (if length (splitOn CHR '':'' snapId) \<noteq> 2
      then Some (PlainErr (''Snapshot ID invalid.  Example: '' @
        ''CSI-pvc-2071cca0-3259-11e9-aba5-003048f5d94a:1550370547.151396819''))
      else None)"

definition handleTopologyRequirement :: "topology_req option \<Rightarrow> goerr option" where
  "handleTopologyRequirement tr = (case tr of
      None \<Rightarrow> None
    | Some tr \<Rightarrow>
        if 0 < length (tr_Requisite tr) \<or> 0 < length (tr_Preferred tr)
        then Some (PlainErr
          ''TopologyRequirements and Preferred Topologies are currently unsupported'')
        else None)"

text \<open>The caller drops the error.\<close>

definition registerMdFromCtxt :: "rpc_ctx \<Rightarrow> smap \<Rightarrow> smap" where
  "registerMdFromCtxt ctxt md = (case ctx_Incoming ctxt of
      None \<Rightarrow> md
    | Some g \<Rightarrow> md ++ (\<lambda>k. map_option (joinWith '','') (g k)))"

section \<open>CreateVolume\<close>

fun registerAll :: "'w driver \<Rightarrow> smap \<Rightarrow> vol_cap option list \<Rightarrow> ('w, goerr + smap) io" where
  "registerAll D md [] = ret (Inr md)"
| "registerAll D md (vc # vcs) =
     tryG (RegisterVolumeCapability D md vc) (\<lambda>md. registerAll D md vcs)"

definition csiVolume :: "int \<Rightarrow> string \<Rightarrow> content_source option \<Rightarrow> csi_volume" where
  "csiVolume gib name src =
     \<lparr>vol_CapacityBytes = mul64 gib GiB, vol_VolumeId = name, vol_VolumeContext = Map.empty,
      vol_ContentSource = src\<rparr>"

text \<open>A volume of that name exists: the same size is the same volume, else a conflict.\<close>

definition existingVolume :: "cap_range option \<Rightarrow> volume \<Rightarrow> goerr + csi_volume" where
  "existingVolume cr vol =
     (let size = mul64 (v_Size vol) GiB in
      if (case cr of None \<Rightarrow> False
          | Some cr \<Rightarrow> cr_LimitBytes cr < size \<or> cr_RequiredBytes cr \<noteq> size)
      then Inl (StatusErr AlreadyExists ''Requested volume exists, but has a different size'')
      else Inr (csiVolume (v_Size vol) (v_Name vol) None))"

definition sizeFor :: "cap_range option \<Rightarrow> int" where
  "sizeFor cr = (case cr of
      None \<Rightarrow> DefaultSize
    | Some cr \<Rightarrow>
        let size = quot64 (cr_LimitBytes cr) GiB
        in if size = 0 then DefaultSize else if size < 1 then 1 else size)"

definition snapshotOf :: "content_source option \<Rightarrow> string option" where
  "snapshotOf cs = (case cs of Some (SnapshotSource s) \<Rightarrow> s | _ \<Rightarrow> None)"

text \<open>The path of the snapshot to clone; empty without one.\<close>

definition cloneSource :: "'w driver \<Rightarrow> content_source option \<Rightarrow> string \<Rightarrow> ('w, goerr + string) io" where
  "cloneSource D cs dflt = (case snapshotOf cs of
      None \<Rightarrow> ret (Inr dflt)
    | Some sid \<Rightarrow> failWith D InvalidArgument (case validateSnapId sid of
        Some e \<Rightarrow> ret (Inl e)
      | None \<Rightarrow> SnapshotPathFromCsiId (dr_env D) sid))"

definition contentSource :: "vol_opts \<Rightarrow> content_source" where
  "contentSource params =
     (if vo_CloneSrc params \<noteq> [] then VolumeSource (Some (vo_CloneSrc params))
      else if vo_CloneVolSrc params \<noteq> [] then VolumeSource (Some (vo_CloneVolSrc params))
      else if vo_CloneSnapSrc params \<noteq> [] then SnapshotSource (Some (vo_CloneSnapSrc params))
      else NoType)"

text \<open>From the options that are complete but for the size, to the response.\<close>

definition createWith ::
    "'w driver \<Rightarrow> string \<Rightarrow> smap \<Rightarrow> smap \<Rightarrow> cap_range option \<Rightarrow> vol_opts \<Rightarrow> ('w, goerr + csi_volume) io" where
  "createWith D name md chap cr params =
     (if (case cr of None \<Rightarrow> False | Some cr \<Rightarrow> cr_LimitBytes cr < cr_RequiredBytes cr) then
        ret (Inl (PlainErr (''RequiredBytes must be less than or equal to LimitBytes: ['' @
          (case cr of None \<Rightarrow> [] | Some cr \<Rightarrow>
             FormatInt (cr_RequiredBytes cr) @ '', '' @ FormatInt (cr_LimitBytes cr)) @ '']'')))
      else
        let params = params\<lparr>vo_Size := sizeFor cr\<rparr>
        in tryG (failWith D Unknown (CreateVolume (dr_env D) name params False chap)) (\<lambda>vol.
           bindG (SetMetadata (dr_env D) (ev_MetadataDebug (dr_vars D)) vol md) (\<lambda>_.
           ret (Inr (csiVolume (vo_Size params) (v_Name vol) (Some (contentSource params)))))))"

text \<open>No volume of that name yet: the request's fields in the order they are checked.\<close>

definition createNew ::
    "'w driver \<Rightarrow> rpc_ctx \<Rightarrow> string \<Rightarrow> smap \<Rightarrow> cap_range option \<Rightarrow> create_volume_req \<Rightarrow>
     ('w, goerr + csi_volume) io" where
  "createNew D ctxt name chap cr req =
     (case handleTopologyRequirement (cvq_AccessibilityRequirements req) of
        Some e \<Rightarrow> ret (Inl (statusOf D InvalidArgument e))
      | None \<Rightarrow>
          let md = registerMdFromCtxt ctxt [''display_name'' \<mapsto> take 100 (cvq_Name req)]
          in case cvq_VolumeCapabilities req of
               None \<Rightarrow> ret (Inl (StatusErr InvalidArgument ''VolumeCapabilities cannot be empty''))
             | Some vcs \<Rightarrow>
                 tryG (failWith D InvalidArgument (registerAll D md vcs)) (\<lambda>md.
                 tryG (failWith D InvalidArgument (ret (parseVolParams (cvq_Parameters req)))) (\<lambda>params.
                 let md = md ++ ToMap params;
                     params = (if ev_ReplicaOverride (dr_vars D) then params\<lparr>vo_Replica := 1\<rparr> else params)
                 in tryG (cloneSource D (cvq_VolumeContentSource req) (vo_CloneSnapSrc params)) (\<lambda>src.
                    createWith D name md chap cr (params\<lparr>vo_CloneSnapSrc := src\<rparr>)))))"

definition CreateVolumeRpc ::
    "'w driver \<Rightarrow> rpc_ctx \<Rightarrow> create_volume_req \<Rightarrow> ('w, goerr + csi_volume) io" where
  "CreateVolumeRpc D ctx req =
     (let (secrets, chap) = StripSecretsAndGetChapParams (WithSecrets (cvq_Secrets req));
          req = req\<lparr>cvq_Secrets := secrets\<rparr>
      in serve D ctx ''controller'' ''CreateVolume'' (ReqCreateVolume req) (\<lambda>ctxt.
         if cvq_Name req = [] then
           ret (Inl (StatusErr InvalidArgument ''Name must be provided (currently empty string)''))
         else
           bindG (GenName (dr_env D) (cvq_Name req)) (\<lambda>name.
           let cr = map_option fillLimit (cvq_CapacityRange req)
           in bindG (GetVolume (dr_env D) name False False) (\<lambda>r. case r of
                Inr vol \<Rightarrow> ret (existingVolume cr vol)
              | Inl _ \<Rightarrow> createNew D ctxt name chap cr req))))"

section \<open>The other volume RPCs\<close>

definition DeleteVolumeRpc ::
    "'w driver \<Rightarrow> rpc_ctx \<Rightarrow> delete_volume_req \<Rightarrow> ('w, goerr + unit) io" where
  "DeleteVolumeRpc D ctx req =
     (let (secrets, _) = StripSecretsAndGetChapParams (WithSecrets (dvq_Secrets req));
          req = req\<lparr>dvq_Secrets := secrets\<rparr>
      in serve D ctx ''controller'' ''DeleteVolume'' (ReqDeleteVolume req) (\<lambda>ctxt.
         if dvq_VolumeId req = [] then
           ret (Inl (StatusErr InvalidArgument ''VolumeId cannot be empty''))
         else
           bindG (DeleteVolume (dr_env D) (dvq_VolumeId req) True) (\<lambda>r.
           ret (case r of
             Inl e \<Rightarrow>
               if contains (ErrorText (dr_env D) e) ''it has snapshots''
               then Inl (StatusErr FailedPrecondition
                 ''Volumes with snapshots cannot be deleted.  Delete snapshots first'')
               else Inr ()
           | Inr _ \<Rightarrow> Inr ()))))"

definition ControllerPublishVolume ::
    "'w driver \<Rightarrow> rpc_ctx \<Rightarrow> csi_req \<Rightarrow> ('w, goerr + unit) io" where
  "ControllerPublishVolume D ctx req =
     serve D ctx ''controller'' ''ControllerPublishVolume'' req (\<lambda>_.
       ret (Inl (StatusErr Unimplemented ''ControllerPublishVolume Not Implemented'')))"

definition ControllerUnpublishVolume ::
    "'w driver \<Rightarrow> rpc_ctx \<Rightarrow> csi_req \<Rightarrow> ('w, goerr + unit) io" where
  "ControllerUnpublishVolume D ctx req =
     serve D ctx ''controller'' ''ControllerUnpublishVolume'' req (\<lambda>_.
       ret (Inl (StatusErr Unimplemented ''ControllerUnPublishVolume Not Implemented'')))"

definition confirmedCaps :: "vol_cap list" where
  "confirmedCaps =
     [\<lparr>vcp_AccessMode = Some ''SINGLE_NODE_WRITER'',
       vcp_AccessType = MountAccess (Some \<lparr>mv_FsType = [], mv_MountFlags = []\<rparr>)\<rparr>,
      \<lparr>vcp_AccessMode = Some ''SINGLE_NODE_WRITER'', vcp_AccessType = BlockAccess\<rparr>,
      \<lparr>vcp_AccessMode = Some ''MULTI_NODE_SINGLE_WRITER'', vcp_AccessType = BlockAccess\<rparr>,
      \<lparr>vcp_AccessMode = Some ''MULTI_NODE_MULTI_WRITER'', vcp_AccessType = BlockAccess\<rparr>]"

definition ValidateVolumeCapabilities ::
    "'w driver \<Rightarrow> rpc_ctx \<Rightarrow> validate_req \<Rightarrow> ('w, goerr + vol_cap list) io" where
  "ValidateVolumeCapabilities D ctx req =
     serve D ctx ''controller'' ''ValidateVolumeCapabilities'' (ReqValidate req) (\<lambda>_.
       if vvq_VolumeId req = [] then
         ret (Inl (StatusErr InvalidArgument ''VolumeId cannot be empty''))
       else if vvq_VolumeCapabilities req = None then
         ret (Inl (StatusErr InvalidArgument ''VolumeCapabilities cannot be nil''))
       else
         tryG (failWith D NotFound (GetVolume (dr_env D) (vvq_VolumeId req) False False)) (\<lambda>_.
         ret (Inr confirmedCaps)))"

text \<open>A page token: empty is 0.\<close>

definition parseToken :: "string \<Rightarrow> goerr + int" where
  "parseToken tok =
     (if tok = [] then Inr 0
      else case ParseInt tok 0 of
        (i, None) \<Rightarrow> Inr i
      | (_, Some e) \<Rightarrow> Inl (NumError ''ParseInt'' tok e))"

definition ListVolumesRpc ::
    "'w driver \<Rightarrow> rpc_ctx \<Rightarrow> list_volumes_req \<Rightarrow> ('w, goerr + csi_volume list) io" where
  "ListVolumesRpc D ctx req =
     serve D ctx ''controller'' ''ListVolumes'' (ReqListVolumes req) (\<lambda>_.
       tryG (failWith D InvalidArgument (ret (parseToken (lvq_StartingToken req)))) (\<lambda>st.
       tryG (failWith D Unknown (ListVolumes (dr_env D) (lvq_MaxEntries req) st)) (\<lambda>vols.
       ret (Inr (map (\<lambda>v. csiVolume (v_Size v) (v_Name v) None) vols)))))"

definition GetCapacityRpc :: "'w driver \<Rightarrow> rpc_ctx \<Rightarrow> smap \<Rightarrow> ('w, goerr + int) io" where
  "GetCapacityRpc D ctx parameters =
     serve D ctx ''controller'' ''GetCapacity'' (ReqGetCapacity parameters) (\<lambda>_.
       tryG (failWith D InvalidArgument (ret (parseVolParams parameters))) (\<lambda>params.
       tryG (failWith D Unknown (GetCapacity (dr_env D))) (\<lambda>cap.
       let acap = (if vo_PlacementMode params = ''all_flash'' then cap_FlashTotal cap else cap_Total cap)
       in if vo_Replica params = 0 then panic ''integer divide by zero''
          else ret (Inr (quot64 acap (vo_Replica params))))))"

definition ControllerGetCapabilities ::
    "'w driver \<Rightarrow> rpc_ctx \<Rightarrow> csi_req \<Rightarrow> ('w, goerr + string list) io" where
  "ControllerGetCapabilities D ctx req =
     serve D ctx ''controller'' ''ControllerGetCapabilities'' req (\<lambda>_.
       ret (Inr [''LIST_VOLUMES'', ''CREATE_DELETE_VOLUME'', ''GET_CAPACITY'',
         ''CREATE_DELETE_SNAPSHOT'', ''LIST_SNAPSHOTS'', ''CLONE_VOLUME'', ''EXPAND_VOLUME'']))"

definition ControllerExpandVolume ::
    "'w driver \<Rightarrow> rpc_ctx \<Rightarrow> expand_req \<Rightarrow> ('w, goerr + int \<times> bool) io" where
  "ControllerExpandVolume D ctx req =
     serve D ctx ''controller'' ''ControllerExpandVolume'' (ReqExpand req) (\<lambda>_.
       let cr = map_option fillLimit (exq_CapacityRange req)
       in tryG (failWith D InvalidArgument (GetVolume (dr_env D) (exq_VolumeId req) False False)) (\<lambda>vol.
          bindG (derefG cr) (\<lambda>cr.
          tryG (failWith D Unknown
                  (Resize (dr_env D) vol (quot64 (cr_RequiredBytes cr) GiB))) (\<lambda>_.
          ret (Inr (cr_RequiredBytes cr, True))))))"

section \<open>The snapshot RPCs\<close>

text \<open>A \<open>float64\<close>'s conversion to \<open>int64\<close>: towards zero; out of range, amd64's smallest value. The
  fraction \<open>dec\<close> is below 1, so that its conversion is 0.\<close>

definition int64OfFloat :: "rat \<Rightarrow> int" where
  "int64OfFloat r = (let i = (if 0 \<le> r then \<lfloor>r\<rfloor> else \<lceil>r\<rceil>) in if int64 i then i else - (2 ^ 63))"

definition creationTime :: "'w driver \<Rightarrow> string \<Rightarrow> goerr + int \<times> int" where
  "creationTime D sid = (case x_parse_float (dr_env D) sid of
      Inl e \<Rightarrow> Inl (statusOf D InvalidArgument e)
    | Inr ts \<Rightarrow>
        let sec = (if 0 \<le> ts then of_int \<lfloor>ts\<rfloor> else of_int \<lceil>ts\<rceil>); dec = ts - sec
        in case x_timestamp_proto (dr_env D) (int64OfFloat sec, int64OfFloat dec) of
             Inl e \<Rightarrow> Inl (statusOf D Unknown e)
           | Inr pts \<Rightarrow> Inr pts)"

definition CreateSnapshotRpc ::
    "'w driver \<Rightarrow> rpc_ctx \<Rightarrow> create_snapshot_req \<Rightarrow> ('w, goerr + csi_snapshot) io" where
  "CreateSnapshotRpc D ctx req =
     serve D ctx ''controller'' ''CreateSnapshot'' (ReqCreateSnapshot req) (\<lambda>_.
       if csq_SourceVolumeId req = [] then
         ret (Inl (StatusErr InvalidArgument ''SourceVolumeId cannot be empty''))
       else if csq_Name req = [] then
         ret (Inl (StatusErr InvalidArgument ''Name field cannot be empty''))
       else
         tryG (failWith D NotFound (GetVolume (dr_env D) (csq_SourceVolumeId req) False False)) (\<lambda>vol.
         tryG (failWith D Unknown
                 (CreateSnapshot (dr_env D) vol (csq_Name req) (parseSnapParams (csq_Parameters req)))) (\<lambda>snap.
         tryG (ret (creationTime D (ss_Id snap))) (\<lambda>pts.
         ret (Inr
           \<lparr>snp_SnapshotId = MkSnapId (v_Name vol) (ss_Id snap),
            snp_SourceVolumeId = v_Name vol, snp_SizeBytes = mul64 (v_Size vol) GiB,
            snp_CreationTime = pts, snp_ReadyToUse = True\<rparr>)))))"

definition DeleteSnapshotRpc :: "'w driver \<Rightarrow> rpc_ctx \<Rightarrow> string \<Rightarrow> ('w, goerr + unit) io" where
  "DeleteSnapshotRpc D ctx snapId =
     serve D ctx ''controller'' ''DeleteSnapshot'' (ReqDeleteSnapshot snapId) (\<lambda>_.
       if snapId = [] then
         ret (Inl (StatusErr InvalidArgument ''SnapshotId is invalid (empty string)''))
       else
         let (vid, sid) = ParseSnapId snapId
         in if vid = [] \<or> sid = [] then ret (Inr ())
            else
              bindG (GetVolume (dr_env D) vid False False) (\<lambda>r. case r of
                Inl _ \<Rightarrow> ret (Inr ())
              | Inr vol \<Rightarrow>
                  bindG (VolDeleteSnapshot (dr_env D) vol sid) (\<lambda>_. ret (Inr ()))))"

definition snapshotEntry :: "'w driver \<Rightarrow> snapshot \<Rightarrow> goerr + csi_snapshot" where
  "snapshotEntry D snap = bindS (creationTime D (ss_Id snap)) (\<lambda>pts. Inr
     \<lparr>snp_SnapshotId = MkSnapId (v_Name (ss_Vol snap)) (ss_Id snap),
      snp_SourceVolumeId = v_Name (ss_Vol snap), snp_SizeBytes = mul64 (v_Size (ss_Vol snap)) GiB,
      snp_CreationTime = pts, snp_ReadyToUse = False\<rparr>)"

definition ListSnapshotsRpc ::
    "'w driver \<Rightarrow> rpc_ctx \<Rightarrow> list_snapshots_req \<Rightarrow> ('w, goerr + list_snapshots_resp) io" where
  "ListSnapshotsRpc D ctx req =
     serve D ctx ''controller'' ''ListSnapshots'' (ReqListSnapshots req) (\<lambda>_.
       tryG (failWith D InvalidArgument (ret (parseToken (lsq_StartingToken req)))) (\<lambda>st.
       bindG (ListSnapshots (dr_env D) (lsq_SnapshotId req) (lsq_SourceVolumeId req)
                (lsq_MaxEntries req) st) (\<lambda>r. case r of
         Inl e \<Rightarrow>
           if (lsq_SourceVolumeId req \<noteq> [] \<and> contains (ErrorText (dr_env D) e) ''NotFound'')
              \<or> contains (ErrorText (dr_env D) e) ''must be of format''
           then ret (Inr \<lparr>lsr_Entries = [], lsr_NextToken = []\<rparr>)
           else ret (Inl (statusOf D Unknown e))
       | Inr (snaps, nextToken) \<Rightarrow>
           tryG (mapTryG (\<lambda>s. ret (snapshotEntry D s)) snaps) (\<lambda>rsnaps.
           ret (Inr \<lparr>lsr_Entries = rsnaps,
             lsr_NextToken = (if nextToken \<noteq> 0 then FormatInt nextToken else [])\<rparr>)))))"

section \<open>Effects\<close>

lemma registerAll_frame [frame_intros]:
  "frame (logs Q) (registerAll D md vcs)" "frame (keeps f) (registerAll D md vcs)"
  by (induction vcs arbitrary: md) (auto intro!: frame_intros)

text \<open>Creating a volume reads, and writes only the new application instance and its metadata.\<close>

fun creates :: "event \<Rightarrow> bool" where
  "creates (AiCreate _) = True"
| "creates (MdSet _ _) = True"
| "creates (PpCreate _ _) = True"
| "creates NewUuid = True"
| "creates e = reads e"

lemma reads_creates: "reads e \<Longrightarrow> creates e"
  by (cases e) simp_all

lemma creates_not_destroys: "creates e \<Longrightarrow> \<not> destroys e"
  by (cases e) simp_all

lemma createNew_frame [frame_intros]:
  "frame (logs creates) (createNew D ctxt name chap cr req)"
  "frame (keeps driver_fields) (createNew D ctxt name chap cr req)"
  unfolding createNew_def createWith_def cloneSource_def
  by (auto simp: Let_def intro!: frame_intros split: option.splits)

lemma CreateVolumeRpc_frame [frame_intros]:
  "frame (logs creates) (CreateVolumeRpc D ctx req)"
  "frame (keeps driver_fields) (CreateVolumeRpc D ctx req)"
  unfolding CreateVolumeRpc_def
  by (auto simp: Let_def split_beta intro!: frame_intros)

lemma controller_frame [frame_intros]:
  "frame (keeps driver_fields) (DeleteVolumeRpc D ctx dreq)"
  "frame (keeps driver_fields) (ControllerPublishVolume D ctx req)"
  "frame (keeps driver_fields) (ControllerUnpublishVolume D ctx req)"
  "frame (keeps driver_fields) (ValidateVolumeCapabilities D ctx vreq)"
  "frame (keeps driver_fields) (ListVolumesRpc D ctx lreq)"
  "frame (keeps driver_fields) (GetCapacityRpc D ctx params)"
  "frame (keeps driver_fields) (ControllerGetCapabilities D ctx req)"
  "frame (keeps driver_fields) (ControllerExpandVolume D ctx ereq)"
  "frame (keeps driver_fields) (CreateSnapshotRpc D ctx csreq)"
  "frame (keeps driver_fields) (DeleteSnapshotRpc D ctx sid)"
  "frame (keeps driver_fields) (ListSnapshotsRpc D ctx lsreq)"
  unfolding DeleteVolumeRpc_def ControllerPublishVolume_def ControllerUnpublishVolume_def
    ValidateVolumeCapabilities_def ListVolumesRpc_def GetCapacityRpc_def
    ControllerGetCapabilities_def ControllerExpandVolume_def CreateSnapshotRpc_def
    DeleteSnapshotRpc_def ListSnapshotsRpc_def
  by (auto simp: Let_def split_beta intro!: frame_intros split: prod.splits)

section \<open>Parameters\<close>

definition intParams :: "(string \<times> string) list" where
  "intParams = [(''iops_per_gb'', ''0''), (''bandwidth_per_gb'', ''0''), (''replica_count'', ''3''),
     (''read_iops_max'', ''0''), (''write_iops_max'', ''0''), (''total_iops_max'', ''0''),
     (''read_bandwidth_max'', ''0''), (''write_bandwidth_max'', ''0''), (''total_bandwidth_max'', ''0'')]"

definition boolParams :: "(string \<times> string) list" where
  "boolParams = [(''round_robin'', ''false''), (''disable_template_override'', ''false''),
     (''delete_on_unmount'', ''false'')]"

lemma bindS_Inr: "bindS r k = Inr y \<longleftrightarrow> (\<exists>x. r = Inr x \<and> k x = Inr y)"
  by (cases r) (simp_all add: bindS_def)

lemma intParam_ok: "(\<exists>x. intParam p k d = Inr x) \<longleftrightarrow> snd (ParseInt (paramOr p k d) 10) = None"
  by (auto simp: intParam_def Let_def split: prod.splits option.splits)

lemma boolParam_ok: "(\<exists>x. boolParam p k d = Inr x) \<longleftrightarrow> ParseBool (paramOr p k d) \<noteq> None"
  by (auto simp: boolParam_def Let_def split: option.splits)

text \<open>The parameters of a storage class are accepted exactly when the nine numbers are decimal
  numbers of 64 bits and the three flags are booleans, each missing one having its default; no
  other entry can make them fail.\<close>

theorem parseVolParams_accepts:
  "isl (parseVolParams params) =
     (\<not> (list_all (\<lambda>(k, d). snd (ParseInt (paramOr params k d) 10) = None) intParams \<and>
         list_all (\<lambda>(k, d). ParseBool (paramOr params k d) \<noteq> None) boolParams))"
proof -
  have "(\<exists>vo. parseVolParams params = Inr vo) \<longleftrightarrow>
      list_all (\<lambda>(k, d). \<exists>x. intParam params k d = Inr x) intParams \<and>
      list_all (\<lambda>(k, d). \<exists>x. boolParam params k d = Inr x) boolParams"
    by (simp only: parseVolParams_def bindS_Inr intParams_def boolParams_def list.pred_inject prod.case
        ex_simps simp_thms) blast
  moreover have "isl r = (\<not> (\<exists>x. r = Inr x))" for r :: "goerr + vol_opts"
    by (cases r) auto
  ultimately show ?thesis
    by (simp only: intParam_ok boolParam_ok)
qed


section \<open>Sizes\<close>

lemma sizeFor_floor:
  assumes "GiB \<le> cr_LimitBytes cr" and "int64 (cr_LimitBytes cr)"
  shows "1 \<le> sizeFor (Some cr)"
    and "mul64 (sizeFor (Some cr)) GiB = cr_LimitBytes cr - cr_LimitBytes cr mod GiB"
    and "0 \<le> cr_LimitBytes cr mod GiB" and "cr_LimitBytes cr mod GiB < GiB"
proof -
  let ?l = "cr_LimitBytes cr"
  show m: "0 \<le> ?l mod GiB" "?l mod GiB < GiB"
    by (simp_all add: GiB_def)
  have q: "quot64 ?l GiB = ?l div GiB"
    using assms by (intro quot64_nonneg) (simp_all add: GiB_def)
  have pos: "1 \<le> ?l div GiB"
    using assms(1) by (simp add: GiB_def pos_imp_zdiv_pos_iff)
  then have sz: "sizeFor (Some cr) = ?l div GiB"
    by (simp add: sizeFor_def Let_def q)
  with pos show "1 \<le> sizeFor (Some cr)" by simp
  have "?l div GiB * GiB = ?l - ?l mod GiB"
    by (simp add: minus_mod_eq_div_mult)
  moreover have "0 \<le> ?l - ?l mod GiB" and "?l - ?l mod GiB \<le> ?l"
    using assms(1) m by linarith+
  then have "int64 (?l - ?l mod GiB)"
    using assms(2) unfolding int64_def by linarith
  ultimately show "mul64 (sizeFor (Some cr)) GiB = ?l - ?l mod GiB"
    by (simp add: mul64_def sz)
qed





section \<open>What creating a volume can and cannot do\<close>

text \<open>Whatever the request and the backend, \<open>CreateVolume\<close> deletes nothing and takes nothing
  offline: it makes reading calls, creates application instances and writes metadata; and no
  field of the driver is different afterwards, also when it panics.\<close>

theorem CreateVolumeRpc_effects:
  "frame (logs (\<lambda>e. creates e \<and> \<not> destroys e)) (CreateVolumeRpc D ctx req) \<and>
   frame (keeps driver_fields) (CreateVolumeRpc D ctx req)"
proof
  have "(\<lambda>e. creates e \<and> \<not> destroys e) = creates"
    using creates_not_destroys by auto
  then show "frame (logs (\<lambda>e. creates e \<and> \<not> destroys e)) (CreateVolumeRpc D ctx req)"
    by (simp add: CreateVolumeRpc_frame)
qed (rule CreateVolumeRpc_frame)

text \<open>A volume as the source of the contents is not looked at: the call does what it does for a
  request without a source, although cloning volumes is among the announced capabilities.\<close>

theorem volume_source_ignored:
  "createNew D ctxt name chap cr (req\<lparr>cvq_VolumeContentSource := Some (VolumeSource v)\<rparr>) =
   createNew D ctxt name chap cr (req\<lparr>cvq_VolumeContentSource := None\<rparr>)"
  by (simp add: createNew_def cloneSource_def snapshotOf_def cong: option.case_cong)

text \<open>Of the failures of the client's \<open>DeleteVolume\<close>, the RPC reports one kind: those whose text
  says that there are snapshots. Every other one is reported as success.\<close>

theorem DeleteVolumeRpc_reports:
  assumes "ctx_TraceId ctx = Some t" and "t \<noteq> []" and "dvq_VolumeId req \<noteq> []"
    and "fst (StripSecretsAndGetChapParams (WithSecrets (dvq_Secrets req))) = secrets"
    and "key = callKey D ''controller'' ''DeleteVolume'' (ReqDeleteVolume (req\<lparr>dvq_Secrets := secrets\<rparr>))"
    and "\<not> isRunning key s"
    and "DeleteVolume (dr_env D) (dvq_VolumeId req) True (setRunning key s) = (Ret r, s')"
  shows "DeleteVolumeRpc D ctx req s =
    (Ret (case r of
       Inl e \<Rightarrow> if contains (ErrorText (dr_env D) e) ''it has snapshots''
         then Inl (StatusErr FailedPrecondition
           ''Volumes with snapshots cannot be deleted.  Delete snapshots first'')
         else Inr ()
     | Inr _ \<Rightarrow> Inr ()), clearRunning key s')"
  using assms
  by (simp add: DeleteVolumeRpc_def serve_run go_eval Let_def split_beta split: sum.splits)

text \<open>Deleting a snapshot fails for an empty id, while the same call runs, and for no other
  reason; a malformed id and an unknown volume count as deleted.\<close>

theorem DeleteSnapshotRpc_outcomes:
  "case fst (DeleteSnapshotRpc D ctx sid s) of
     Ret (Inl e) \<Rightarrow> e = StatusErr Aborted ''Operation is still in progress'' \<or>
       sid = [] \<and> e = StatusErr InvalidArgument ''SnapshotId is invalid (empty string)''
   | _ \<Rightarrow> True"
  by (cases rule: InitFunc_cases [of D ctx "''controller''" "''DeleteSnapshot''" "ReqDeleteSnapshot sid" s])
    (auto simp: DeleteSnapshotRpc_def serve_def go_eval split: outcome.splits sum.splits prod.splits)

section \<open>The metadata of a new volume\<close>

text \<open>What the options write before the size and the source are known.\<close>

fun earlyMetadata :: "event \<Rightarrow> bool" where
  "earlyMetadata (MdSet _ md) = (md ''size'' = Some ''0'' \<and> md ''fs_type'' = Some [] \<and> md ''clone_snap_src'' = Some [])"
| "earlyMetadata _ = True"

lemma parsed_early:
  assumes "parseVolParams p = Inr vo"
  shows "vo_Size vo = 0 \<and> vo_FsType vo = [] \<and> vo_CloneSnapSrc vo = []"
  using assms by (auto simp: parseVolParams_def bindS_Inr emptyOpts_def)

lemma early_ToMap:
  assumes "vo_Size vo = 0" and "vo_FsType vo = []" and "vo_CloneSnapSrc vo = []"
  shows "earlyMetadata (MdSet n (md ++ ToMap vo))"
proof -
  have "ToMap vo ''size'' = Some ''0''" "ToMap vo ''fs_type'' = Some []" "ToMap vo ''clone_snap_src'' = Some []"
    using assms by (simp_all add: ToMap_def FormatInt_def natDigits.simps digitChar_def char_of_def bit_Suc_0_iff)
  then show ?thesis by (simp add: map_add_def)
qed

lemma createWith_early:
  assumes "\<And>n. earlyMetadata (MdSet n md)"
  shows "frame (logs earlyMetadata) (createWith D name md chap cr params)"
proof -
  have "frame (logs earlyMetadata) (SetMetadata E debug v md)" for E :: "'a env" and debug v
    unfolding SetMetadata_def using assms by (intro frame_intros) simp_all
  then show ?thesis
    unfolding createWith_def Let_def
    by (intro frame_branches lg.frame_ret lg.frame_try lg.frame_bind failWith_frame CreateVolume_frame) simp_all
qed

lemma cloneSource_early: "frame (logs earlyMetadata) (cloneSource D cs dflt)"
  unfolding cloneSource_def by (intro frame_intros) simp_all

text \<open>The metadata stored for a new volume are those of options that were parsed but not yet
  completed: whatever the request, they say size 0, no source snapshot, and an empty file system
  type, also where a capability of the request had just recorded one.\<close>

theorem CreateVolumeRpc_metadata:
  "frame (logs earlyMetadata) (CreateVolumeRpc D ctx req)"
proof -
  have new: "frame (logs earlyMetadata) (createNew D ctxt name chap cr r)" for ctxt name chap cr r
  proof -
    have parsed: "vo_Size vo = 0 \<and> vo_FsType vo = [] \<and> vo_CloneSnapSrc vo = []"
      if "failWith D InvalidArgument (ret (parseVolParams p)) s = (Ret (Inr vo), s')" for p vo s s'
      using that by (intro parsed_early) (auto simp: failWith_def go_eval split: sum.splits)
    show ?thesis
      unfolding createNew_def Let_def
      by (intro lg.frame_try_post [where m = "failWith D InvalidArgument (ret (parseVolParams (cvq_Parameters r)))", OF _ parsed]
          frame_branches lg.frame_ret lg.frame_try [where m = "failWith D InvalidArgument (registerAll D md vcs)" for md vcs]
          lg.frame_try [where m = "cloneSource D cs dflt" for cs dflt] failWith_frame registerAll_frame
          cloneSource_early createWith_early early_ToMap; (blast | simp))
  qed
  show ?thesis
    unfolding CreateVolumeRpc_def Let_def split_beta
    by (intro serve_logs frame_intros new) simp_all
qed

end
