(* ===== verification/Demo_Backend.thy ===== *)
theory Demo_Backend
  imports Client_Snapshots "HOL-Library.AList"
begin

text \<open>
  A small backend and host, as concrete functions for the parameters of the model: application
  instances by name, the snapshots of each volume, metadata and files, kept in a world of
  association lists. It models no code of the repository; it shows that the hypotheses of the
  theorems about runs can hold, and what the theorems say of such runs.
\<close>

record demo =
  dm_ais :: "(string \<times> app_instance) list"
  dm_snaps :: "(string \<times> dsnapshot list) list"
  dm_md :: "(string \<times> smap) list"
  dm_files :: "(string \<times> string) list"
  dm_mounts :: "(string \<times> string \<times> string) list"

definition notFound :: apierr where
  "notFound = \<lparr>ae_Name = ''NotFound'', ae_Message = ''no such object'', ae_Code = 10\<rparr>"

definition found :: "'a option \<Rightarrow> demo \<Rightarrow> 'a option sdkres \<times> demo" where
  "found p w = (case p of
      Some x \<Rightarrow> ((Some x, None, None), w)
    | None \<Rightarrow> ((None, Some notFound, None), w))"

definition demoDv :: "string \<Rightarrow> int \<Rightarrow> dvolume" where
  "demoDv name gib = \<lparr>dv_Path = ''/vol/'' @ name, dv_ReplicaCount = 3, dv_PlacementMode = ''hybrid'',
     dv_Size = gib, dv_CapacityInUse = 0, dv_Snapshots = []\<rparr>"

definition demoSi :: "string \<Rightarrow> int \<Rightarrow> storage_instance" where
  "demoSi name gib = \<lparr>si_Path = ''/si/'' @ name, si_OpState = ''available'', si_Ips = [''10.0.0.1'', ''10.0.0.2''],
     si_Iqn = ''iqn.demo'', si_AclPolicy = Some \<lparr>acl_Initiators = []\<rparr>,
     si_Volumes = [demoDv name gib]\<rparr>"

definition demoAi :: "string \<Rightarrow> int \<Rightarrow> app_instance" where
  "demoAi name gib = \<lparr>ai_Name = name, ai_AdminState = ''online'', ai_RepairPriority = ''default'',
     ai_AppTemplate = Some [], ai_StorageInstances = [demoSi name gib]\<rparr>"

definition askedSize :: "ai_create \<Rightarrow> int" where
  "askedSize a = (case ac_StorageInstances a of
      si # _ \<Rightarrow> (case sc_Volumes si of v # _ \<Rightarrow> vc_Size v | [] \<Rightarrow> 1)
    | [] \<Rightarrow> 1)"

definition demoSnap :: "string \<Rightarrow> string \<Rightarrow> string \<Rightarrow> dsnapshot" where
  "demoSnap path uuid ts = \<lparr>sn_Uuid = uuid, sn_UtcTs = ts, sn_Path = path @ ''/snap/'' @ ts,
     sn_OpState = ''available''\<rparr>"

definition snapsOf :: "demo \<Rightarrow> string \<Rightarrow> dsnapshot list" where
  "snapsOf w path = (case map_of (dm_snaps w) path of None \<Rightarrow> [] | Some ss \<Rightarrow> ss)"

definition unsupported :: goerr where "unsupported = PlainErr ''unsupported''"

definition demoSys :: sysinfo where
  "demoSys = \<lparr>sy_TotalCapacity = 1000, sy_TotalProvisionedCapacity = 10,
     sy_AllFlashTotalCapacity = 600, sy_AllFlashProvisionedCapacity = 5,
     sy_HybridTotalCapacity = 400, sy_HybridProvisionedCapacity = 5,
     sy_BuildVersion = ''b1'', sy_CallhomeEnabled = False, sy_CompressionEnabled = True,
     sy_Health = ''ok'', sy_L3Enabled = False, sy_Name = ''demo'', sy_OpState = ''active'',
     sy_SwVersion = ''3.3.1.0'', sy_Timezone = ''UTC'', sy_Uuid = ''u-0''\<rparr>"

definition demoEnv :: "demo env" where
  "demoEnv =
     \<lparr>x_ai_get = (\<lambda>name w. found (map_of (dm_ais w) name) w),
      x_ai_create = (\<lambda>a w.
        let ai = demoAi (ac_Name a) (askedSize a)
        in ((Some ai, None, None), w\<lparr>dm_ais := (ac_Name a, ai) # dm_ais w\<rparr>)),
      x_ai_list = (\<lambda>_ _ w. ((map snd (dm_ais w), None, None), w)),
      x_ai_set = (\<lambda>ai st _ w.
        let ai' = ai\<lparr>ai_AdminState := st\<rparr>
        in ((Some ai', None, None), w\<lparr>dm_ais := AList.update (ai_Name ai) ai' (dm_ais w)\<rparr>)),
      x_ai_delete = (\<lambda>ai _ w.
        ((Some ai, None, None), w\<lparr>dm_ais := filter (\<lambda>(n, _). n \<noteq> ai_Name ai) (dm_ais w)\<rparr>)),
      x_ai_reload = (\<lambda>ai w. found (map_of (dm_ais w) (ai_Name ai)) w),
      x_md_get = (\<lambda>ai w. found (Some (case map_of (dm_md w) (ai_Name ai) of None \<Rightarrow> Map.empty | Some m \<Rightarrow> m)) w),
      x_md_set = (\<lambda>ai md w. ((Some md, None, None), w\<lparr>dm_md := (ai_Name ai, md) # dm_md w\<rparr>)),
      x_vol_set = (\<lambda>dv n w. ((Some (dv\<lparr>dv_Size := n\<rparr>), None, None), w)),
      x_pp_get = (\<lambda>dv w. found (Some noLimits) w),
      x_pp_create = (\<lambda>dv p w. found (Some p) w),
      x_snap_list = (\<lambda>dv w. ((snapsOf w (dv_Path dv), None, None), w)),
      x_snap_create = (\<lambda>dv c w.
        let sn = demoSnap (dv_Path dv) (snc_Uuid c) ''1550370547.15''
        in ((Some sn, None, None), w\<lparr>dm_snaps := (dv_Path dv, sn # snapsOf w (dv_Path dv)) # dm_snaps w\<rparr>)),
      x_snap_reload = (\<lambda>sn w. found (Some sn) w),
      x_snap_delete = (\<lambda>sn w. ((Some sn, None, None), w\<lparr>dm_snaps := map (\<lambda>(p, ss). (p, remove1 sn ss)) (dm_snaps w)\<rparr>)),
      x_init_get = (\<lambda>iqn w. found (Some \<lparr>in_Name = ''i'', in_Path = ''/initiators/'' @ iqn, in_Id = iqn, in_Tenant = []\<rparr>) w),
      x_init_create = (\<lambda>name iqn _ w. found (Some \<lparr>in_Name = name, in_Path = ''/initiators/'' @ iqn, in_Id = iqn, in_Tenant = []\<rparr>) w),
      x_init_delete = (\<lambda>i _ w. found (Some i) w),
      x_acl_get = (\<lambda>si w. found (si_AclPolicy si) w),
      x_acl_set = (\<lambda>acl is w. found (Some (acl\<lparr>acl_Initiators := is\<rparr>)) w),
      x_sys_get = found (Some demoSys),
      x_ippool_get = (\<lambda>n w. found (Some \<lparr>ipp_Name = n, ipp_Path = ''/access_network_ip_pools/'' @ n\<rparr>) w),
      x_si_set = (\<lambda>si _ w. found (Some si) w),
      x_log_rotate = (\<lambda>_ _ w. (None, w)),
      x_iscsi_connect = (\<lambda>_ w. ((''/dev/sdb'', None), w)),
      x_iscsi_disconnect = (\<lambda>_ _ w. (None, w)),
      x_exec = (\<lambda>_ w. (([], None), w)),
      x_read_file = (\<lambda>f w. (case map_of (dm_files w) f of None \<Rightarrow> ([], Some unsupported) | Some d \<Rightarrow> (d, None), w)),
      x_write_file = (\<lambda>f d w. (None, w\<lparr>dm_files := (f, d) # dm_files w\<rparr>)),
      x_not_exist = (\<lambda>f w. (map_of (dm_files w) f = None, w)),
      x_mkdir_all = (\<lambda>f w. (None, w\<lparr>dm_files := (f, []) # dm_files w\<rparr>)),
      x_remove_all = (\<lambda>f w. (None, w\<lparr>dm_files := filter (\<lambda>(p, _). p \<noteq> f) (dm_files w)\<rparr>)),
      x_rand_intn = (\<lambda>_ w. (0, w)),
      x_new_uuid = (\<lambda>w. (''u-1'', w)),
      x_uuid_sha1 = (\<lambda>d n. d @ n),
      x_status_text = (\<lambda>_ m. m),
      x_quote = (\<lambda>x. x),
      x_sprintf0 = (\<lambda>x. x),
      x_parse_float = (\<lambda>_. Inr 1550370547),
      x_timestamp_proto = (\<lambda>t. Inr t),
      x_rune_cap = (\<lambda>n. n),
      x_schedule = (\<lambda>n. [0..<n]),
      x_lsblk_json = (\<lambda>_. Inl unsupported),
      x_ss_new = (\<lambda>xs. xs),
      x_ss_add = (\<lambda>x xs. x # xs),
      x_ss_delete = (\<lambda>x xs. removeAll x xs),
      x_ss_list = (\<lambda>xs. xs)\<rparr>"

text \<open>A world with two volumes, the second of which has a snapshot.\<close>

definition demoWorld :: demo where
  "demoWorld =
     \<lparr>dm_ais = [(''CSI-a'', demoAi ''CSI-a'' 16), (''CSI-b'', demoAi ''CSI-b'' 20)],
      dm_snaps = [(''/vol/CSI-b'', [demoSnap ''/vol/CSI-b'' ''u-7'' ''1550370547.15''])],
      dm_md = [], dm_files = [(''/etc/iscsi/initiatorname.iscsi'', ''InitiatorName=iqn.host'')], dm_mounts = []\<rparr>"

definition demoSt :: "demo \<Rightarrow> demo st" where
  "demoSt w = \<lparr>log = [], ext = w, rpcStatus = {}, healthy = False, d_manifest = None,
     d_vendorVersion = [], c_vendorVersion = []\<rparr>"

lemmas demo_defs = demoWorld_def demoSt_def found_def demoAi_def demoSi_def demoDv_def
  snapsOf_def demoSnap_def notFound_def

text \<open>The backend's functions, one at a time, so that a proof unfolds those it uses.\<close>

lemma demo_calls:
  "x_ai_get demoEnv = (\<lambda>name w. found (map_of (dm_ais w) name) w)"
  "x_ai_reload demoEnv = (\<lambda>ai w. found (map_of (dm_ais w) (ai_Name ai)) w)"
  "x_ai_set demoEnv = (\<lambda>ai st _ w.
     let ai' = ai\<lparr>ai_AdminState := st\<rparr>
     in ((Some ai', None, None), w\<lparr>dm_ais := AList.update (ai_Name ai) ai' (dm_ais w)\<rparr>))"
  "x_ai_delete demoEnv = (\<lambda>ai _ w.
     ((Some ai, None, None), w\<lparr>dm_ais := filter (\<lambda>(n, _). n \<noteq> ai_Name ai) (dm_ais w)\<rparr>))"
  "x_ai_create demoEnv = (\<lambda>a w.
     let ai = demoAi (ac_Name a) (askedSize a)
     in ((Some ai, None, None), w\<lparr>dm_ais := (ac_Name a, ai) # dm_ais w\<rparr>))"
  "x_snap_list demoEnv = (\<lambda>dv w. ((snapsOf w (dv_Path dv), None, None), w))"
  "x_acl_get demoEnv = (\<lambda>si w. found (si_AclPolicy si) w)"
  "x_acl_set demoEnv = (\<lambda>acl is w. found (Some (acl\<lparr>acl_Initiators := is\<rparr>)) w)"
  "x_sys_get demoEnv = found (Some demoSys)"
  "x_status_text demoEnv = (\<lambda>_ m. m)"
  "x_sprintf0 demoEnv = (\<lambda>x. x)"
  by (simp_all add: demoEnv_def)

lemma demo_parts [simp]:
  "parts (demoAi n g) = Some (demoSi n g, demoDv n g, \<lparr>acl_Initiators = []\<rparr>, [])"
  by (simp add: parts_def demoAi_def demoSi_def)

lemma demo_names [simp]: "ai_Name (demoAi n g) = n" "dv_Path (demoDv n g) = ''/vol/'' @ n" "dv_Size (demoDv n g) = g"
  by (simp_all add: demoAi_def demoDv_def)

end
