(* ===== verification/No_Panic.thy ===== *)
theory No_Panic
  imports Driver_Controller Demo_Backend
begin

text \<open>
  Freedom from panics. The code reads through pointers and slices of the backend's answers without
  a check; \<open>sdk_wf\<close> says what an answer must hold for that: a call without an error has a result,
  and an application instance has its first volume, an access list and a template. Under it, no
  controller RPC that the theorem names panics, whatever the backend answers otherwise.
\<close>

section \<open>Answers that can be read\<close>

definition whole :: "app_instance \<Rightarrow> bool" where
  "whole ai \<longleftrightarrow> parts ai \<noteq> None"

definition answered :: "'r option sdkres \<Rightarrow> bool" where
  "answered r = (case r of (None, None, None) \<Rightarrow> False | _ \<Rightarrow> True)"

definition goodAi :: "app_instance option sdkres \<Rightarrow> bool" where
  "goodAi r \<longleftrightarrow> answered r \<and> (case fst r of None \<Rightarrow> True | Some ai \<Rightarrow> whole ai)"

definition sdk_wf :: "'w env \<Rightarrow> bool" where
  "sdk_wf E \<longleftrightarrow>
     (\<forall>n w. goodAi (fst (x_ai_get E n w))) \<and>
     (\<forall>a w. goodAi (fst (x_ai_create E a w))) \<and>
     (\<forall>a w. goodAi (fst (x_ai_reload E a w))) \<and>
     (\<forall>n t w. list_all whole (fst (fst (x_ai_list E n t w)))) \<and>
     (\<forall>a w. answered (fst (x_md_get E a w))) \<and>
     (\<forall>a m w. answered (fst (x_md_set E a m w))) \<and>
     (\<forall>w. answered (fst (x_sys_get E w))) \<and>
     (\<forall>v c w. answered (fst (x_snap_create E v c w))) \<and>
     (\<forall>sn w. answered (fst (x_snap_reload E sn w)))"

definition goodVol :: "goerr + volume \<Rightarrow> bool" where
  "goodVol r = (case r of Inl _ \<Rightarrow> True | Inr v \<Rightarrow> whole (v_Ai v))"

abbreviation anything :: "'a \<Rightarrow> bool" where
  "anything \<equiv> \<lambda>_. True"

section \<open>The client\<close>

lemma returns_extG: "(\<And>w. Q (fst (f w))) \<Longrightarrow> returns (extG ev f) Q"
  by (simp add: returns_def go_eval)

lemma returns_sdkCall: "(\<And>w. Q (sdkResult (fst (f w)))) \<Longrightarrow> returns (sdkCall ev f) Q"
  by (simp add: returns_def go_eval)

lemma answered_result: "answered r \<Longrightarrow> sdkResult r = Inr p \<Longrightarrow> p \<noteq> None"
  by (auto simp: answered_def sdkResult_def split: prod.splits option.splits)

lemma returns_sleepG [returns_intros]: "Q () \<Longrightarrow> returns (sleepG n) Q"
  by (simp add: sleepG_def returns_upd)

text \<open>A call whose result is dereferenced.\<close>

lemma returns_sdkDeref:
  assumes "\<And>w. answered (fst (f w))" and "\<And>x. returns (k x) Q" and "\<And>e. Q (Inl e)"
  shows "returns (tryG (sdkCall ev f) (\<lambda>p. bindG (derefG p) k)) Q"
proof (rule returns_try)
  show "returns (sdkCall ev f) (\<lambda>r. case r of Inl _ \<Rightarrow> True | Inr p \<Rightarrow> p \<noteq> None)"
    using answered_result [OF assms(1)] by (intro returns_sdkCall) (auto split: sum.splits)
  show "returns (bindG (derefG p) k) Q" if "case Inr p of Inl _ \<Rightarrow> True | Inr p \<Rightarrow> p \<noteq> None" for p
    using that assms(2) by (auto intro: returns_bind [OF returns_deref])
qed (rule assms(3))

lemma whole_run:
  assumes "whole ai"
  shows "returns (firstVolume ai) anything"
    and "returns (aiToClientVol E (Some ai) False False c) (\<lambda>r. goodVol r \<and> (\<exists>v. r = Inr v))"
proof -
  from assms obtain si dv acl t where "parts ai = Some (si, dv, acl, t)"
    by (auto simp: whole_def)
  note run = parts_run [OF this]
  show "returns (firstVolume ai) anything"
    by (simp add: returns_def run)
  show "returns (aiToClientVol E (Some ai) False False c) (\<lambda>r. goodVol r \<and> (\<exists>v. r = Inr v))"
    using assms by (simp add: returns_def run goodVol_def)
qed

lemma goodAi_result: "goodAi r \<Longrightarrow> sdkResult r = Inr p \<Longrightarrow> \<exists>ai. p = Some ai \<and> whole ai"
  using answered_result [of r p]
  by (auto simp: goodAi_def sdkResult_def split: prod.splits option.splits)

lemma returns_instance:
  assumes "\<And>w. goodAi (fst (f w))" and "\<And>ai. whole ai \<Longrightarrow> returns (k (Some ai)) Q" and "\<And>e. Q (Inl e)"
  shows "returns (tryG (sdkCall ev f) k) Q"
proof (rule returns_try)
  show "returns (sdkCall ev f) (\<lambda>r. case r of Inl _ \<Rightarrow> True | Inr p \<Rightarrow> \<exists>ai. p = Some ai \<and> whole ai)"
    using goodAi_result [OF assms(1)] by (intro returns_sdkCall) (auto split: sum.splits)
qed (use assms in auto)

lemma GetVolume_returns: "sdk_wf E \<Longrightarrow> returns (GetVolume E name False False) goodVol"
  unfolding GetVolume_def
  by (auto intro!: returns_ret returns_instance returns_weaken [OF whole_run(2)]
      simp: goodVol_def sdk_wf_def)

lemma Reload_returns:
  assumes "sdk_wf E"
  shows "returns (Reload E r False False) goodVol"
  unfolding Reload_def
proof (rule returns_instance)
  show "goodAi (fst (x_ai_reload E (v_Ai r) w))" for w
    using assms by (simp add: sdk_wf_def)
  show "returns (bindG (aiToClientVol E (Some ai) False False (v_dc r)) (\<lambda>res.
      bindG (derefG (case res of Inl _ \<Rightarrow> None | Inr v \<Rightarrow> Some v)) (\<lambda>v. ret (Inr v)))) goodVol"
    if "whole ai" for ai
    by (rule returns_bind [OF whole_run(2) [OF that]])
      (auto intro!: returns_bind [OF returns_deref] returns_ret simp: goodVol_def)
qed (simp add: goodVol_def)

lemma wrapSnapshot_returns:
  "whole (v_Ai r) \<Longrightarrow> returns (wrapSnapshot E r s) (\<lambda>r. case r of Inl _ \<Rightarrow> True | Inr _ \<Rightarrow> True)"
  unfolding wrapSnapshot_def
  by (rule returns_try [OF whole_run(2)]) (auto intro!: returns_ret)

lemma VolListSnapshots_returns:
  assumes wf: "sdk_wf E" and r: "whole (v_Ai r)"
  shows "returns (VolListSnapshots E r sid) (\<lambda>(l, v). whole (v_Ai v))"
  unfolding VolListSnapshots_def
proof (rule returns_bind [OF Reload_returns [OF wf]])
  fix res assume res: "goodVol res"
  show "returns (case res of Inl _ \<Rightarrow> ret (Inr [], r)
     | Inr r' \<Rightarrow> bindG (firstVolume (v_Ai r')) (\<lambda>(_, v).
         bindG (sdkCall (SnapList (dv_Path v)) (x_snap_list E v)) (\<lambda>l. case l of
           Inl e \<Rightarrow> ret (Inl e, r')
         | Inr rsnaps \<Rightarrow> bindG (mapTryG (wrapSnapshot E r')
             (filter (\<lambda>s. sid = [] \<or> sid = sn_UtcTs s) rsnaps)) (\<lambda>snaps. ret (snaps, r')))))
    (\<lambda>(l, v). whole (v_Ai v))"
  proof (cases res)
    case (Inr r')
    with res have w: "whole (v_Ai r')" by (simp add: goodVol_def)
    have list: "returns (mapTryG (wrapSnapshot E r') xs) anything" for xs
      by (rule returns_weaken [OF returns_mapTry]) (auto intro!: wrapSnapshot_returns w)
    show ?thesis
      using w by (auto simp: Inr intro!: returns_bind [OF whole_run(1)] returns_ret
          returns_bind [OF returns_sdkCall [where Q = anything]] returns_bind [OF list] split: sum.splits)
  qed (use r in \<open>simp add: returns_ret\<close>)
qed

lemma HasSnapshots_returns:
  "sdk_wf E \<Longrightarrow> whole (v_Ai r) \<Longrightarrow> returns (HasSnapshots E r) anything"
  unfolding HasSnapshots_def
  by (rule returns_bind [OF VolListSnapshots_returns]) (auto intro!: returns_ret split: sum.splits)

lemma Delete_returns: "returns (Delete E r force) anything"
  unfolding Delete_def
  by (intro returns_try returns_sdkCall returns_ret) simp_all

lemma DeleteVolume_returns:
  assumes wf: "sdk_wf E"
  shows "returns (DeleteVolume E name force) anything"
  unfolding DeleteVolume_def
proof (rule returns_bind)
  show "returns (extG (AiGet name) (x_ai_get E name)) goodAi"
    using wf by (intro returns_extG) (simp add: sdk_wf_def)
  fix x assume "goodAi x"
  obtain ai apierr err where x: "x = (ai, apierr, err)" by (cases x)
  have ai: "whole a" if "ai = Some a" for a
    using \<open>goodAi x\<close> that by (simp add: x goodAi_def)
  have conv: "returns (aiToClientVol E ai False False True) goodVol"
  proof (cases ai)
    case None
    then show ?thesis by (simp add: aiToClientVol_def goodVol_def returns_ret)
  next
    case (Some a)
    then show ?thesis using returns_weaken [OF whole_run(2) [OF ai]] by blast
  qed
  have rest: "returns (bindG (HasSnapshots E v) (\<lambda>(h, v'). case h of
      Inl e \<Rightarrow> ret (Inl e)
    | Inr snaps \<Rightarrow> if snaps then ret (Inl (PlainErr (''Volume '' @ v_Name v' @
          '' cannot be deleted because it has snapshots''))) else Delete E v' force)) anything"
    if "whole (v_Ai v)" for v
    by (rule returns_bind [OF HasSnapshots_returns [OF wf that]])
      (auto intro!: returns_ret Delete_returns split: sum.splits)
  show "returns (case x of (ai, apierr, uu) \<Rightarrow> tryG (aiToClientVol E ai False False True) (\<lambda>v. case apierr of
      None \<Rightarrow> bindG (HasSnapshots E v) (\<lambda>(h, v'). case h of
          Inl e \<Rightarrow> ret (Inl e)
        | Inr snaps \<Rightarrow> if snaps then ret (Inl (PlainErr (''Volume '' @ v_Name v' @
              '' cannot be deleted because it has snapshots''))) else Delete E v' force)
    | Some a \<Rightarrow> ret (Inl (ErrTranslator a)))) anything"
    unfolding x prod.case
    by (rule returns_try [OF conv]) (auto simp: goodVol_def intro!: rest returns_ret split: option.splits)
qed


lemma VendorVersion_returns:
  assumes "sdk_wf E"
  shows "returns (VendorVersion E) anything"
  unfolding VendorVersion_def
  using assms by (intro returns_sdkDeref returns_bind [OF returns_upd] returns_ret) (simp_all add: sdk_wf_def)

lemma createRequest_returns:
  assumes "sdk_wf E"
  shows "returns (createRequest E name opts chap) anything"
  unfolding createRequest_def
  by (auto intro!: returns_ret returns_try [OF VendorVersion_returns [OF assms]]
      returns_try [OF returns_ret [where Q = anything]])

lemma CreateVolume_returns:
  assumes wf: "sdk_wf E"
  shows "returns (CreateVolume E name opts False chap) goodVol"
  unfolding CreateVolume_def
proof (rule returns_try [OF createRequest_returns [OF wf]])
  fix a
  show "returns (tryG (sdkCall (AiCreate a) (x_ai_create E a)) (\<lambda>newAi.
      bindG (aiToClientVol E newAi False False True) (\<lambda>res.
      bindG (derefG (case res of Inl _ \<Rightarrow> None | Inr v \<Rightarrow> Some v)) (\<lambda>v.
      let v = v\<lparr>v_Formatted := (vo_CloneSrc opts \<noteq> [] \<and> vo_CloneVolSrc opts \<noteq> [] \<and> vo_CloneSnapSrc opts \<noteq> [])\<rparr>
      in if False \<and> vo_Template opts = [] then SetPerformancePolicy E v opts else ret (Inr v))))) goodVol"
  proof (rule returns_instance)
    show "goodAi (fst (x_ai_create E a w))" for w
      using wf by (simp add: sdk_wf_def)
    show "returns (bindG (aiToClientVol E (Some ai) False False True) (\<lambda>res.
      bindG (derefG (case res of Inl _ \<Rightarrow> None | Inr v \<Rightarrow> Some v)) (\<lambda>v.
      let v = v\<lparr>v_Formatted := (vo_CloneSrc opts \<noteq> [] \<and> vo_CloneVolSrc opts \<noteq> [] \<and> vo_CloneSnapSrc opts \<noteq> [])\<rparr>
      in if False \<and> vo_Template opts = [] then SetPerformancePolicy E v opts else ret (Inr v)))) goodVol"
      if "whole ai" for ai
      by (rule returns_bind [OF whole_run(2) [OF that]])
        (auto intro!: returns_bind [OF returns_deref] returns_ret simp: goodVol_def)
  qed (simp add: goodVol_def)
qed (simp add: goodVol_def)

lemma GetMetadata_returns: "sdk_wf E \<Longrightarrow> returns (GetMetadata E ai) anything"
  unfolding GetMetadata_def
  by (intro returns_sdkDeref returns_ret) (simp_all add: sdk_wf_def)

lemma SetMetadata_returns:
  assumes "sdk_wf E"
  shows "returns (SetMetadata E debug r md) anything"
  unfolding SetMetadata_def
proof (rule returns_try [where A = anything])
  show "returns (if debug then GetMetadata E (v_Ai r) else ret (Inr md)) anything"
    using GetMetadata_returns [OF assms] by (simp add: returns_ret)
qed (use assms in \<open>auto intro!: returns_sdkDeref returns_ret simp: sdk_wf_def\<close>)

lemma convertAll_returns:
  "list_all whole ais \<Longrightarrow> returns (convertAll E ais) anything"
  by (induction ais)
    (auto intro!: returns_ret returns_bind [OF whole_run(2)] intro: returns_bind)

lemma ListVolumes_returns:
  assumes wf: "sdk_wf E"
  shows "returns (ListVolumes E n st) anything"
  unfolding ListVolumes_def
proof (rule returns_try)
  show "returns (sdkCall (AiList n st) (x_ai_list E n st)) (\<lambda>r. case r of Inl _ \<Rightarrow> True | Inr ais \<Rightarrow> list_all whole ais)"
    using wf by (intro returns_sdkCall) (auto simp: sdk_wf_def sdkResult_def split: prod.splits option.splits sum.splits; metis fst_conv)
qed (auto intro!: returns_bind [OF convertAll_returns] returns_ret)

lemma Resize_returns:
  assumes "sdk_wf E" and "whole (v_Ai r)"
  shows "returns (Resize E r n) anything"
  unfolding Resize_def
  by (rule returns_bind [OF whole_run(1) [OF assms(2)]])
    (auto intro!: returns_try [OF returns_sdkCall [where Q = anything]]
      returns_weaken [OF Reload_returns [OF assms(1)]])


lemma GetSnapshotByUuid_returns:
  assumes "whole (v_Ai r)"
  shows "returns (GetSnapshotByUuid E r uuid) anything"
  unfolding GetSnapshotByUuid_def
  by (rule returns_bind [OF whole_run(1) [OF assms]])
    (auto intro!: returns_try [OF returns_sdkCall [where Q = anything]] returns_ret
      returns_weaken [OF wrapSnapshot_returns [OF assms]] split: option.splits)

lemma pollAvailable_returns:
  assumes "sdk_wf E"
  shows "returns (pollAvailable E (Suc n) c) anything"
proof (rule poll.loop_returns)
  fix c
  have "returns (ReloadSnapshot E c) anything"
    unfolding ReloadSnapshot_def
    using assms by (intro returns_sdkDeref returns_ret) (simp_all add: sdk_wf_def)
  then show "returns (pollOnce E c) (\<lambda>r. case r of Inl d \<Rightarrow> True | Inr _ \<Rightarrow> True)"
    unfolding pollOnce_def
    by (rule returns_bind) (auto intro!: returns_ret returns_bind [OF returns_sleepG [where Q = anything]]
        split: sum.splits)
qed (simp_all add: returns_ret)

lemma CreateSnapshot_returns:
  assumes wf: "sdk_wf E" and r: "whole (v_Ai r)"
  shows "returns (CreateSnapshot E r name opts) anything"
  unfolding CreateSnapshot_def
proof (rule returns_bind [OF whole_run(1) [OF r]], unfold split_beta, rule returns_bind)
  fix x :: "storage_instance \<times> dvolume"
  let ?req = "snapRequest E name opts"
  show "returns (extG (SnapCreate (dv_Path (snd x)) ?req) (x_snap_create E (snd x) ?req)) answered"
    using wf by (intro returns_extG) (simp add: sdk_wf_def)
  fix y :: "dsnapshot option sdkres"
  assume y: "answered y"
  have poll: "returns (pollAvailable E 30 c) anything" for c
    using pollAvailable_returns [OF wf, of 29 c] by (simp add: numeral_eq_Suc)
  have made: "returns (tryG (aiToClientVol E (Some (v_Ai r)) False False False) (\<lambda>v.
      bindG (derefG (fst y)) (\<lambda>s. pollAvailable E 30 (toSnapshot s v)))) anything"
    if "fst y = Some sn" for sn
    by (rule returns_try [OF whole_run(2) [OF r]])
      (auto intro!: returns_bind [OF returns_deref [OF that]] poll)
  show "returns (case fst (snd y) of
      None \<Rightarrow> (case snd (snd y) of
        None \<Rightarrow> tryG (aiToClientVol E (Some (v_Ai r)) False False False) (\<lambda>v.
          bindG (derefG (fst y)) (\<lambda>s. pollAvailable E 30 (toSnapshot s v)))
      | Some e \<Rightarrow> ret (Inl e))
    | Some a \<Rightarrow> if ae_Name a = ''InvalidRequestError'' \<and> ae_Code a = 15
        then GetSnapshotByUuid E r (snapIdFromName E name) else ret (Inl (ErrTranslator a))) anything"
  proof (cases "fst (snd y)")
    case None
    then show ?thesis
      using y made by (cases y) (auto simp: answered_def returns_ret split: option.splits)
  next
    case (Some a)
    then show ?thesis
      by (simp add: returns_ret GetSnapshotByUuid_returns [OF r])
  qed
qed

lemma VolDeleteSnapshot_returns:
  assumes wf: "sdk_wf E"
  shows "returns (VolDeleteSnapshot E r sid) anything"
  unfolding VolDeleteSnapshot_def
  by (rule returns_bind [OF Reload_returns [OF wf]])
    (auto simp: goodVol_def intro!: returns_ret returns_bind [OF whole_run(1)]
      returns_try [OF returns_sdkCall [where Q = anything]] split: sum.splits option.splits)

lemma SnapshotPathFromCsiId_returns:
  assumes wf: "sdk_wf E" and two: "length (splitOn CHR '':'' sid) = 2"
  shows "returns (SnapshotPathFromCsiId E sid) anything"
proof -
  have list: "returns (bindG (VolListSnapshots E vol ts) (\<lambda>(l, _).
      let snaps = (case l of Inl _ \<Rightarrow> [] | Inr ss \<Rightarrow> ss)
      in case snaps of
           [s] \<Rightarrow> ret (Inr (ss_Path s))
         | _ \<Rightarrow> ret (Inl (PlainErr (''Unexpected number of snapshots found for csi snapshot ID: ''
             @ sid @ '', expected 1 found '' @ FormatInt (int (length snaps))))))) anything"
    if "whole (v_Ai vol)" for vol ts
    by (rule returns_bind [OF VolListSnapshots_returns [OF wf that]])
      (auto simp: Let_def intro!: returns_ret split: list.splits)
  show ?thesis
    unfolding SnapshotPathFromCsiId_def
    using two by (intro returns_bind [OF returns_index [where Q = anything]]
        returns_try [OF GetVolume_returns [OF wf]] list) (auto simp: goodVol_def)
qed

section \<open>The handlers\<close>

lemma returns_deferG: "returns m Q \<Longrightarrow> returns (deferG f m) Q"
  unfolding returns_def by (metis deferG_run fst_conv snd_conv)

lemma returns_failWith:
  assumes "returns m A" and "\<And>e. Q (Inl e)" and "\<And>x. A (Inr x) \<Longrightarrow> Q (Inr x)"
  shows "returns (failWith D c m) Q"
  unfolding failWith_def
  by (rule returns_bind [OF assms(1)]) (auto intro!: returns_ret assms split: sum.splits)

lemma serve_returns:
  assumes "ctx_TraceId ctx \<noteq> None" and "\<And>ctxt. returns (body ctxt) anything"
  shows "returns (serve D ctx piece fn req body) anything"
proof -
  have withCtxt: "returns (WithCtxt E c n i) anything" for E :: "'a env" and c n i
    unfolding WithCtxt_def GenId_def
    by (rule returns_bind [where A = anything]) (auto intro!: returns_ret returns_extG)
  have "returns (InitFunc D ctx piece fn req) anything"
    unfolding InitFunc_def Let_def
    using assms(1) by (auto intro!: returns_bind [OF withCtxt] returns_ret
        returns_bind [where m = getG and A = anything] returns_bind [OF returns_upd [where Q = anything]]
        simp: returns_def [of getG] getG_run)
  then show ?thesis
    unfolding serve_def
    by (rule returns_bind) (auto intro!: returns_deferG returns_ret assms(2))
qed


text \<open>Capabilities whose mount, if it is one, is there.\<close>

definition capsWhole :: "vol_cap option list option \<Rightarrow> bool" where
  "capsWhole vcs = (case vcs of
      None \<Rightarrow> True
    | Some l \<Rightarrow> list_all (\<lambda>vc. case vc of None \<Rightarrow> True | Some c \<Rightarrow> vcp_AccessType c \<noteq> MountAccess None) l)"

lemma registerAll_returns:
  "capsWhole (Some vcs) \<Longrightarrow> returns (registerAll D md vcs) anything"
proof (induction vcs arbitrary: md)
  case (Cons vc vcs)
  have "returns (RegisterVolumeCapability D md vc) anything"
    using Cons.prems by (auto simp: capsWhole_def RegisterVolumeCapability_def Let_def
        intro!: returns_ret split: option.splits access_type.splits)
  then show ?case
    using Cons by (auto simp: capsWhole_def intro!: returns_try)
qed (simp add: returns_ret)

lemma createWith_returns:
  assumes wf: "sdk_wf (dr_env D)"
  shows "returns (createWith D name md chap cr params) anything"
  unfolding createWith_def Let_def
  by (auto intro!: returns_ret returns_try [OF returns_failWith [OF CreateVolume_returns [OF wf], of anything]]
      returns_bind [OF SetMetadata_returns [OF wf]])

lemma createNew_returns:
  assumes wf: "sdk_wf (dr_env D)" and caps: "capsWhole (cvq_VolumeCapabilities req)"
  shows "returns (createNew D ctxt name chap cr req) anything"
proof -
  have src: "returns (cloneSource D cs dflt) anything" for cs dflt
    unfolding cloneSource_def validateSnapId_def
    by (auto intro!: returns_ret returns_failWith [where A = anything]
        SnapshotPathFromCsiId_returns [OF wf] split: option.splits)
  have reg: "returns (failWith D InvalidArgument (registerAll D md vcs)) anything"
    if "cvq_VolumeCapabilities req = Some vcs" for md vcs
    using caps that by (auto intro!: returns_failWith [OF registerAll_returns])
  show ?thesis
    unfolding createNew_def Let_def
    by (auto intro!: returns_ret returns_try [OF reg] returns_try [OF src] createWith_returns [OF wf]
        returns_try [OF returns_failWith [where A = anything]] split: option.splits)
qed


lemma CreateVolumeRpc_returns:
  assumes wf: "sdk_wf (dr_env D)" and trace: "ctx_TraceId ctx \<noteq> None"
    and name: "ascii (cvq_Name req)" and caps: "capsWhole (cvq_VolumeCapabilities req)"
  shows "returns (CreateVolumeRpc D ctx req) anything"
proof -
  have gen: "returns (GenName (dr_env D) (cvq_Name req)) anything" if "cvq_Name req \<noteq> []"
    using name that by (simp add: returns_def GenName_run)
  show ?thesis
    unfolding CreateVolumeRpc_def Let_def split_beta
    by (intro serve_returns trace)
      (auto intro!: returns_ret returns_bind [OF gen] returns_bind [OF GetVolume_returns [OF wf]]
        createNew_returns [OF wf] caps split: sum.splits)
qed

lemma DeleteVolumeRpc_returns:
  assumes "sdk_wf (dr_env D)" and "ctx_TraceId ctx \<noteq> None"
  shows "returns (DeleteVolumeRpc D ctx req) anything"
  unfolding DeleteVolumeRpc_def Let_def split_beta
  by (intro serve_returns assms(2))
    (auto intro!: returns_ret returns_bind [OF DeleteVolume_returns [OF assms(1)]])

lemma reading_rpcs_return:
  assumes wf: "sdk_wf (dr_env D)" and trace: "ctx_TraceId ctx \<noteq> None"
  shows "returns (ValidateVolumeCapabilities D ctx vreq) anything"
    and "returns (ListVolumesRpc D ctx lreq) anything"
proof -
  have get: "returns (failWith D c (GetVolume (dr_env D) n False False)) anything" for c n
    by (rule returns_failWith [OF GetVolume_returns [OF wf]]) simp_all
  have list: "returns (failWith D c (ListVolumes (dr_env D) n st)) anything" for c n st
    by (rule returns_failWith [OF ListVolumes_returns [OF wf]]) simp_all
  have token: "returns (failWith D c (ret r)) anything" for c and r :: "goerr + int"
    by (rule returns_failWith [where A = anything]) (simp_all add: returns_ret)
  show "returns (ValidateVolumeCapabilities D ctx vreq) anything"
    unfolding ValidateVolumeCapabilities_def
    by (intro serve_returns trace) (auto intro!: returns_ret returns_try [OF get])
  show "returns (ListVolumesRpc D ctx lreq) anything"
    unfolding ListVolumesRpc_def
    by (intro serve_returns trace) (auto intro!: returns_ret returns_try [OF token] returns_try [OF list])
qed

lemma snapshot_rpcs_return:
  assumes wf: "sdk_wf (dr_env D)" and trace: "ctx_TraceId ctx \<noteq> None"
  shows "returns (CreateSnapshotRpc D ctx csreq) anything"
    and "returns (DeleteSnapshotRpc D ctx sid) anything"
proof -
  have get: "returns (failWith D c (GetVolume (dr_env D) n False False)) goodVol" for c n
    by (rule returns_failWith [OF GetVolume_returns [OF wf]]) (simp_all add: goodVol_def)
  have snap: "returns (failWith D c (CreateSnapshot (dr_env D) v n opts)) anything"
    if "whole (v_Ai v)" for c v n opts
    by (rule returns_failWith [OF CreateSnapshot_returns [OF wf that]]) simp_all
  show "returns (CreateSnapshotRpc D ctx csreq) anything"
    unfolding CreateSnapshotRpc_def
    by (intro serve_returns trace)
      (auto intro!: returns_ret returns_try [OF get] returns_try [OF snap]
        returns_try [OF returns_ret [where Q = anything]] simp: goodVol_def)
  show "returns (DeleteSnapshotRpc D ctx sid) anything"
    unfolding DeleteSnapshotRpc_def Let_def split_beta
    by (intro serve_returns trace)
      (auto intro!: returns_ret returns_bind [OF GetVolume_returns [OF wf]]
        returns_bind [OF VolDeleteSnapshot_returns [OF wf]] split: sum.splits)
qed

lemma ControllerExpandVolume_returns:
  assumes wf: "sdk_wf (dr_env D)" and "ctx_TraceId ctx \<noteq> None" and "exq_CapacityRange req = Some cr"
  shows "returns (ControllerExpandVolume D ctx req) anything"
proof -
  have get: "returns (failWith D c (GetVolume (dr_env D) n False False)) goodVol" for c n
    by (rule returns_failWith [OF GetVolume_returns [OF wf]]) (simp_all add: goodVol_def)
  have resize: "returns (failWith D c (Resize (dr_env D) v n)) anything" if "whole (v_Ai v)" for c v n
    by (rule returns_failWith [OF Resize_returns [OF wf that]]) simp_all
  show ?thesis
    unfolding ControllerExpandVolume_def Let_def
    by (intro serve_returns assms(2))
      (auto intro!: returns_ret returns_try [OF get] returns_try [OF resize] simp: assms(3) goodVol_def)
qed


text \<open>A backend that knows every name.\<close>

definition steadyEnv :: "demo env" where
  "steadyEnv = demoEnv
     \<lparr>x_ai_get := (\<lambda>n w. found (Some (demoAi n 16)) w),
      x_ai_reload := (\<lambda>a w. found (Some (demoAi (ai_Name a) 16)) w),
      x_ai_list := (\<lambda>_ _ w. (([demoAi ''CSI-a'' 16], None, None), w))\<rparr>"

lemma steadyEnv_wf: "sdk_wf steadyEnv"
  by (simp add: sdk_wf_def steadyEnv_def demoEnv_def found_def goodAi_def answered_def whole_def Let_def)

section \<open>Listing and capacity\<close>

text \<open>Lists as long as a backend can have them, and a schedule of goroutines that runs each once.\<close>

definition listMax :: nat where "listMax = 2 ^ 30"

definition moderate :: "'w env \<Rightarrow> bool" where
  "moderate E \<longleftrightarrow>
     (\<forall>v w. length (fst (fst (x_snap_list E v w))) \<le> listMax) \<and>
     (\<forall>n t w. length (fst (fst (x_ai_list E n t w))) \<le> listMax) \<and>
     (\<forall>n. mset (x_schedule E n) = mset [0..<n])"

lemma returns_conj:
  "returns m Q \<Longrightarrow> (\<And>s x s'. m s = (Ret x, s') \<Longrightarrow> P x) \<Longrightarrow> returns m (\<lambda>x. Q x \<and> P x)"
  unfolding returns_def by blast

lemma mapTryG_length: "mapTryG f xs s = (Ret (Inr ys), s') \<Longrightarrow> length ys = length xs"
  by (induction xs arbitrary: ys s)
    (auto simp: go_eval split: prod.splits outcome.splits sum.splits)

lemma VolListSnapshots_length:
  assumes "moderate E" and "VolListSnapshots E r sid s = (Ret (Inr ss, v), s')"
  shows "length ss \<le> listMax"
proof -
  have bound: "length xs \<le> listMax" if "fst (x_snap_list E dv w) = (xs, a, e)" for dv w xs a e
    using assms(1) that unfolding moderate_def by (metis fst_conv)
  have "length (filter P xs) \<le> listMax" if "length xs \<le> listMax" for P and xs :: "dsnapshot list"
    using that length_filter_le le_trans by blast
  then show ?thesis
    using assms(2)
    by (auto simp: VolListSnapshots_def go_eval sdkCall_def sdkResult_def dest!: mapTryG_length bound
        split: prod.splits outcome.splits sum.splits option.splits)
qed

lemma gatherSnaps_length:
  "moderate E \<Longrightarrow> gatherSnaps E sid vs s = (Ret ss, s') \<Longrightarrow> length ss \<le> length vs * listMax"
proof (induction vs arbitrary: ss s)
  case (Cons v vs)
  then obtain l r s1 rest where one: "VolListSnapshots E v sid s = (Ret (l, r), s1)"
    and "gatherSnaps E sid vs s1 = (Ret rest, s')" and ss: "ss = (case l of Inl _ \<Rightarrow> [] | Inr xs \<Rightarrow> xs) @ rest"
    by (auto simp: go_eval split: prod.splits outcome.splits)
  with Cons have "length rest \<le> length vs * listMax" by blast
  moreover have "length (case l of Inl _ \<Rightarrow> [] | Inr xs \<Rightarrow> xs) \<le> listMax"
    using one VolListSnapshots_length [OF Cons.prems(1)] by (cases l) auto
  ultimately show ?case by (simp add: ss)
qed (simp add: go_eval)

lemma gatherSnaps_returns:
  "sdk_wf E \<Longrightarrow> list_all (\<lambda>v. whole (v_Ai v)) vs \<Longrightarrow> returns (gatherSnaps E sid vs) anything"
  by (induction vs)
    (auto intro!: returns_ret returns_bind [OF VolListSnapshots_returns] intro: returns_bind)

lemma convertAll_whole:
  "list_all whole ais \<Longrightarrow> returns (convertAll E ais) (\<lambda>vs. list_all (\<lambda>v. whole (v_Ai v)) vs \<and> length vs \<le> length ais)"
proof (induction ais)
  case (Cons ai ais)
  then have "whole ai" "list_all whole ais" by simp_all
  show ?case
    unfolding convertAll.simps
    by (rule returns_bind [OF whole_run(2) [OF \<open>whole ai\<close>]], rule returns_bind [OF Cons.IH [OF \<open>list_all whole ais\<close>]])
      (auto simp: goodVol_def intro!: returns_ret split: sum.splits)
qed (simp add: returns_ret)

text \<open>The volumes that are listed.\<close>

lemma volumesFor_returns:
  assumes wf: "sdk_wf E" and "moderate E"
  shows "returns (volumesFor E src) (\<lambda>r. case r of Inl _ \<Rightarrow> True
    | Inr vs \<Rightarrow> list_all (\<lambda>v. whole (v_Ai v)) vs \<and> length vs \<le> listMax)"
proof (cases "src = []")
  case True
  have list: "returns (sdkCall (AiList 0 0) (x_ai_list E 0 0)) (\<lambda>r. case r of Inl _ \<Rightarrow> True
      | Inr ais \<Rightarrow> list_all whole ais \<and> length ais \<le> listMax)"
    using assms by (intro returns_sdkCall)
      (auto simp: sdk_wf_def moderate_def sdkResult_def split: prod.splits option.splits sum.splits; metis fst_conv)
  show ?thesis
    unfolding volumesFor_def ListVolumes_def if_P [OF True]
    by (rule returns_try [OF list]) (auto intro!: returns_bind [OF convertAll_whole] returns_ret)
next
  case False
  show ?thesis
    unfolding volumesFor_def if_not_P [OF False]
    by (rule returns_try [OF GetVolume_returns [OF wf]]) (auto simp: goodVol_def listMax_def intro!: returns_ret)
qed

lemma scheduled_all:
  assumes "moderate E" and "list_all P xs"
  shows "list_all P (scheduled E xs)" and "length (scheduled E xs) = length xs"
proof -
  have perm: "mset (x_schedule E (length xs)) = mset [0..<length xs]"
    using assms(1) by (simp add: moderate_def)
  from mset_eq_setD [OF this] show "list_all P (scheduled E xs)"
    using assms(2) by (auto simp: scheduled_def list_all_iff)
  from mset_eq_length [OF perm] show "length (scheduled E xs) = length xs"
    by (simp add: scheduled_def)
qed

lemma findSnaps_returns:
  assumes wf: "sdk_wf E" and mod: "moderate E"
  shows "returns (findSnaps E vid sid src) (\<lambda>r. case r of Inl _ \<Rightarrow> True | Inr ss \<Rightarrow> length ss \<le> listMax * listMax)"
proof (cases "vid \<noteq> [] \<and> sid \<noteq> []")
  case True
  have "returns (VolListSnapshots E v sid) (\<lambda>x. (case x of (l, r) \<Rightarrow> whole (v_Ai r)) \<and>
      (case x of (Inl _, _) \<Rightarrow> True | (Inr ss, _) \<Rightarrow> length ss \<le> listMax))" if "whole (v_Ai v)" for v
    by (rule returns_conj [OF VolListSnapshots_returns [OF wf that]])
      (auto dest: VolListSnapshots_length [OF mod] split: sum.splits)
  then show ?thesis
    unfolding findSnaps_def if_P [OF True]
    by (intro returns_try [OF GetVolume_returns [OF wf]])
      (auto simp: goodVol_def listMax_def intro!: returns_bind returns_ret split: sum.splits)
next
  case False
  have "returns (gatherSnaps E sid (scheduled E vs)) (\<lambda>ss. length ss \<le> listMax * listMax)"
    if "list_all (\<lambda>v. whole (v_Ai v)) vs" "length vs \<le> listMax" for vs
  proof -
    have "length ss \<le> listMax * listMax" if "gatherSnaps E sid (scheduled E vs) s = (Ret ss, s')" for s ss s'
      using gatherSnaps_length [OF mod that] scheduled_all(2) [OF mod \<open>list_all _ vs\<close>] \<open>length vs \<le> listMax\<close>
      by (auto intro: le_trans mult_le_mono1)
    then show ?thesis
      using returns_conj [OF gatherSnaps_returns [OF wf scheduled_all(1) [OF mod that(1)]]] by (auto simp: returns_def)
  qed
  then show ?thesis
    unfolding findSnaps_def if_not_P [OF False]
    by (intro returns_try [OF volumesFor_returns [OF wf mod]]) (auto intro!: returns_bind returns_ret)
qed

lemma pageOf_returns:
  assumes "0 \<le> m" and "m < 2 ^ 31" and "0 \<le> st" and "length xs \<le> listMax * listMax"
  shows "returns (pageOf xs m st) anything"
proof (cases "st \<le> int (length xs)")
  case True
  have len: "int (length xs) \<le> 2 ^ 60" using assms(4) by (simp add: listMax_def)
  show ?thesis
  proof (cases "m = 0")
    case m: True
    have "sub64 (int (length xs)) st = int (length xs) - st"
      and "add64 st (int (length xs) - st) = int (length xs)"
      using True len assms(3) by (simp_all add: sub64_def add64_def int64_def)
    with True m assms(3) show ?thesis
      by (auto simp: pageOf_def sliceG_def Let_def returns_def go_eval)
  next
    case False
    then have "pageOf xs m st s = (Ret (take (nat m) (drop (nat st) xs), min (st + m) (int (length xs))), s)" for s
      using assms True len by (intro pageOf_run) simp_all
    then show ?thesis by (metis returns_def)
  qed
qed (simp add: pageOf_def returns_ret)

lemma ListSnapshots_returns:
  assumes "sdk_wf E" and "moderate E" and "0 \<le> m" and "m < 2 ^ 31" and "0 \<le> st"
  shows "returns (ListSnapshots E sid src m st) anything"
  unfolding ListSnapshots_def Let_def split_beta
  by (auto intro!: returns_ret returns_try [OF findSnaps_returns [OF assms(1,2)]]
      returns_bind [OF pageOf_returns [OF assms(3-5)]])

lemma GetCapacity_returns: "sdk_wf E \<Longrightarrow> returns (GetCapacity E) anything"
  unfolding GetCapacity_def by (intro returns_sdkDeref returns_ret) (simp_all add: sdk_wf_def)



end
