(* ===== verification/Client_Lifecycle.thy ===== *)
theory Client_Lifecycle
  imports Demo_Backend
begin

text \<open>
  What the client's operations on volumes and snapshots do from end to end: when a volume is
  deleted and when not, and what is listed. The hypotheses describe the backend's answers; each
  theorem with one is applied to the backend of \<open>Demo_Backend\<close>.
\<close>

section \<open>Deleting a volume\<close>

text \<open>C15: a volume for which the backend lists a snapshot is not deleted: the caller gets the error
  that says so, and nothing but three reading calls was made.\<close>

theorem DeleteVolume_refuses:
  assumes "x_ai_get E name (ext s) = ((Some ai, None, err), w1)"
    and "parts ai = Some p"
    and "x_ai_reload E ai w1 = ((Some ai', None, None), w2)"
    and "parts ai' = Some (si, dv, acl, t)"
    and "x_snap_list E dv w2 = ((snaps, None, None), w3)"
    and "snaps \<noteq> []"
  shows "DeleteVolume E name force s =
    (Ret (Inl (PlainErr (''Volume '' @ ai_Name ai' @ '' cannot be deleted because it has snapshots''))),
     s\<lparr>log := log s @ [AiGet name, AiReload (ai_Name ai), SnapList (dv_Path dv)], ext := w3\<rparr>)"
proof -
  obtain si0 dv0 acl0 t0 where p: "parts ai = Some (si0, dv0, acl0, t0)"
    using assms(2) by (cases p) auto
  show ?thesis
    using assms HasSnapshots_run [where r = "clientVol True ai si0 dv0 acl0 t0" and E = E
        and s = "s\<lparr>log := log s @ [AiGet name], ext := w1\<rparr>"]
    by (simp add: DeleteVolume_def go_eval parts_run [OF p])
qed

theorem DeleteVolume_refuses_witness:
  "DeleteVolume demoEnv ''CSI-b'' True (demoSt demoWorld) =
    (Ret (Inl (PlainErr ''Volume CSI-b cannot be deleted because it has snapshots'')),
     (demoSt demoWorld)\<lparr>log := [AiGet ''CSI-b'', AiReload ''CSI-b'', SnapList ''/vol/CSI-b'']\<rparr>)"
  using DeleteVolume_refuses [of demoEnv "''CSI-b''" "demoSt demoWorld" "demoAi ''CSI-b'' 20" None demoWorld
      "(demoSi ''CSI-b'' 20, demoDv ''CSI-b'' 20, \<lparr>acl_Initiators = []\<rparr>, [])"
      "demoAi ''CSI-b'' 20" demoWorld "demoSi ''CSI-b'' 20" "demoDv ''CSI-b'' 20" "\<lparr>acl_Initiators = []\<rparr>" "[]"
      "[demoSnap ''/vol/CSI-b'' ''u-7'' ''1550370547.15'']" demoWorld True]
  by (simp add: demo_calls found_def demoSt_def demoWorld_def snapsOf_def Let_def)

text \<open>C16: a volume without snapshots is taken offline and then deleted, both for the instance as it
  was after the reload, and nothing else is touched.\<close>

theorem DeleteVolume_deletes:
  assumes "x_ai_get E name (ext s) = ((Some ai, None, err), w1)"
    and "parts ai = Some p"
    and "x_ai_reload E ai w1 = ((Some ai', None, None), w2)"
    and "parts ai' = Some (si, dv, acl, t)"
    and "x_snap_list E dv w2 = (([], None, None), w3)"
    and "x_ai_set E ai' ''offline'' force w3 = ((x, None, None), w4)"
    and "x_ai_delete E ai' force w4 = ((y, None, None), w5)"
  shows "DeleteVolume E name force s =
    (Ret (Inr ()),
     s\<lparr>log := log s @ [AiGet name, AiReload (ai_Name ai), SnapList (dv_Path dv),
         AiSet (ai_Name ai') ''offline'' force, AiDelete (ai_Name ai') force], ext := w5\<rparr>)"
proof -
  obtain si0 dv0 acl0 t0 where p: "parts ai = Some (si0, dv0, acl0, t0)"
    using assms(2) by (cases p) auto
  show ?thesis
    using assms HasSnapshots_run [where r = "clientVol True ai si0 dv0 acl0 t0" and E = E
        and s = "s\<lparr>log := log s @ [AiGet name], ext := w1\<rparr>"]
    by (simp add: DeleteVolume_def Delete_def go_eval sdkResult_def parts_run [OF p])
qed

theorem DeleteVolume_deletes_witness:
  "fst (DeleteVolume demoEnv ''CSI-a'' True (demoSt demoWorld)) = Ret (Inr ())
   \<and> map fst (dm_ais (ext (snd (DeleteVolume demoEnv ''CSI-a'' True (demoSt demoWorld))))) = [''CSI-b'']"
proof -
  let ?ai = "demoAi ''CSI-a'' 16"
  let ?w4 = "snd (x_ai_set demoEnv ?ai ''offline'' True demoWorld)"
  let ?w5 = "snd (x_ai_delete demoEnv ?ai True ?w4)"
  have "DeleteVolume demoEnv ''CSI-a'' True (demoSt demoWorld) =
    (Ret (Inr ()), (demoSt demoWorld)\<lparr>log := log (demoSt demoWorld) @
       [AiGet ''CSI-a'', AiReload (ai_Name ?ai), SnapList (dv_Path (demoDv ''CSI-a'' 16)),
        AiSet (ai_Name ?ai) ''offline'' True, AiDelete (ai_Name ?ai) True], ext := ?w5\<rparr>)"
    by (rule DeleteVolume_deletes [where ai = ?ai and ai' = ?ai and err = None and ?w1.0 = demoWorld
          and ?w2.0 = demoWorld and ?w3.0 = demoWorld and ?w4.0 = ?w4 and dv = "demoDv ''CSI-a'' 16"
          and x = "Some (?ai\<lparr>ai_AdminState := ''offline''\<rparr>)" and y = "Some ?ai"])
      (simp_all add: demo_calls found_def demoSt_def demoWorld_def snapsOf_def Let_def)
  then show ?thesis
    by (simp add: demo_calls demoWorld_def demoSt_def Let_def)
qed

text \<open>C32: the guard is as good as the reload before it: when the reload fails, the volume counts as one
  without snapshots, and is taken offline and deleted without asking for them.\<close>

theorem DeleteVolume_unguarded:
  assumes "x_ai_get E name (ext s) = ((Some ai, None, err), w1)"
    and "parts ai = Some p"
    and "x_ai_reload E ai w1 = ((r, Some a, None), w2)"
    and "x_ai_set E ai ''offline'' force w2 = ((x, None, None), w3)"
    and "x_ai_delete E ai force w3 = ((y, None, None), w4)"
  shows "DeleteVolume E name force s =
    (Ret (Inr ()),
     s\<lparr>log := log s @ [AiGet name, AiReload (ai_Name ai),
         AiSet (ai_Name ai) ''offline'' force, AiDelete (ai_Name ai) force], ext := w4\<rparr>)"
proof -
  obtain si0 dv0 acl0 t0 where p: "parts ai = Some (si0, dv0, acl0, t0)"
    using assms(2) by (cases p) auto
  show ?thesis
    using assms
    by (simp add: DeleteVolume_def Delete_def HasSnapshots_def VolListSnapshots_def Reload_def go_eval
        sdkResult_def parts_run [OF p])
qed

text \<open>The second volume, which has a snapshot, on a backend whose reload fails.\<close>

definition flakyEnv :: "demo env" where
  "flakyEnv = demoEnv\<lparr>x_ai_reload := (\<lambda>ai w. ((None, Some notFound, None), w))\<rparr>"

theorem DeleteVolume_unguarded_witness:
  "fst (DeleteVolume flakyEnv ''CSI-b'' True (demoSt demoWorld)) = Ret (Inr ())
   \<and> map fst (dm_ais (ext (snd (DeleteVolume flakyEnv ''CSI-b'' True (demoSt demoWorld))))) = [''CSI-a'']"
proof -
  let ?ai = "demoAi ''CSI-b'' 20"
  let ?w4 = "snd (x_ai_set demoEnv ?ai ''offline'' True demoWorld)"
  let ?w5 = "snd (x_ai_delete demoEnv ?ai True ?w4)"
  have "DeleteVolume flakyEnv ''CSI-b'' True (demoSt demoWorld) =
    (Ret (Inr ()), (demoSt demoWorld)\<lparr>log := log (demoSt demoWorld) @
       [AiGet ''CSI-b'', AiReload (ai_Name ?ai),
        AiSet (ai_Name ?ai) ''offline'' True, AiDelete (ai_Name ?ai) True], ext := ?w5\<rparr>)"
    by (rule DeleteVolume_unguarded [where ai = ?ai and err = None and ?w1.0 = demoWorld
          and ?w2.0 = demoWorld and ?w3.0 = ?w4 and a = notFound and r = None
          and x = "Some (?ai\<lparr>ai_AdminState := ''offline''\<rparr>)" and y = "Some ?ai"])
      (simp_all add: flakyEnv_def demo_calls found_def demoSt_def demoWorld_def snapsOf_def Let_def)
  then show ?thesis
    by (simp add: demo_calls demoWorld_def demoSt_def Let_def)
qed

end
