(* ===== verification/Call_Table.thy ===== *)
theory Call_Table
  imports Driver_Core
begin

text \<open>
  Handlers of concurrent RPCs and the table of calls in progress (\<open>InitFunc\<close> in
  \<open>pkg/driver/driver.go\<close>). gRPC runs every RPC in a goroutine of its own; the table is a plain map
  without a lock. So the lookup and the insertion of one call are two steps, and steps of
  other calls may come between: the relation \<open>callStep\<close>. The relation \<open>lockedStep\<close> is the same
  protocol with the two steps made one, as under a lock.
  The steps use the operations of \<open>InitFunc\<close>'s model; what the handlers do to the rest of the
  state may be anything that keeps the table.
\<close>

section \<open>Steps\<close>

datatype phase = Arrived | Looked bool | Running | Rejected | Finished

text \<open>The caller \<open>i\<close> has the key \<open>key i\<close>; a configuration is the state and every caller's phase.\<close>

type_synonym 'w config = "'w st \<times> (nat \<Rightarrow> phase)"

inductive callStep :: "(nat \<Rightarrow> string) \<Rightarrow> 'w config \<Rightarrow> 'w config \<Rightarrow> bool" for key where
  look: "ph i = Arrived \<Longrightarrow> callStep key (s, ph) (s, ph(i := Looked (isRunning (key i) s)))"
| insert: "ph i = Looked False \<Longrightarrow> callStep key (s, ph) (setRunning (key i) s, ph(i := Running))"
| reject: "ph i = Looked True \<Longrightarrow> callStep key (s, ph) (s, ph(i := Rejected))"
| finish: "ph i = Running \<Longrightarrow> callStep key (s, ph) (clearRunning (key i) s, ph(i := Finished))"
| work: "rpcStatus s' = rpcStatus s \<Longrightarrow> callStep key (s, ph) (s', ph)"

inductive lockedStep :: "(nat \<Rightarrow> string) \<Rightarrow> 'w config \<Rightarrow> 'w config \<Rightarrow> bool" for key where
  enter: "ph i = Arrived \<Longrightarrow> \<not> isRunning (key i) s \<Longrightarrow>
    lockedStep key (s, ph) (setRunning (key i) s, ph(i := Running))"
| refuse: "ph i = Arrived \<Longrightarrow> isRunning (key i) s \<Longrightarrow> lockedStep key (s, ph) (s, ph(i := Rejected))"
| leave: "ph i = Running \<Longrightarrow> lockedStep key (s, ph) (clearRunning (key i) s, ph(i := Finished))"
| act: "rpcStatus s' = rpcStatus s \<Longrightarrow> lockedStep key (s, ph) (s', ph)"

inductive_cases callStepE: "callStep key (s, ph) c"
inductive_cases lockedStepE: "lockedStep key (s, ph) c"

definition initial :: "'w config \<Rightarrow> bool" where
  "initial c \<longleftrightarrow> rpcStatus (fst c) = {} \<and> snd c = (\<lambda>_. Arrived)"

lemmas table_ops = isRunning_def setRunning_def clearRunning_def

section \<open>The interface of an invariant\<close>

locale step_invariant =
  fixes step :: "'c \<Rightarrow> 'c \<Rightarrow> bool" and start :: "'c \<Rightarrow> bool" and I :: "'c \<Rightarrow> bool"
  assumes start_I: "start c \<Longrightarrow> I c"
    and step_I: "step c c' \<Longrightarrow> I c \<Longrightarrow> I c'"
begin

lemma reachable_I:
  assumes "start c" and "step\<^sup>*\<^sup>* c c'"
  shows "I c'"
  using assms(2) by (induction rule: rtranclp_induct) (auto intro: start_I [OF assms(1)] step_I)

end

section \<open>With a lock\<close>

text \<open>The table is exactly the keys of the running callers, and no key runs twice.\<close>

definition exclusive :: "(nat \<Rightarrow> string) \<Rightarrow> 'w config \<Rightarrow> bool" where
  "exclusive key c \<longleftrightarrow>
     rpcStatus (fst c) = key ` {i. snd c i = Running} \<and> inj_on key {i. snd c i = Running}"

lemma exclusive_step:
  assumes "lockedStep key c c'" and "exclusive key c"
  shows "exclusive key c'"
  using assms
proof (induction rule: lockedStep.induct)
  case (enter ph i s)
  have new: "{j. (ph(i := Running)) j = Running} = insert i {j. ph j = Running}" by auto
  from enter have "key i \<notin> key ` {j. ph j = Running}"
    by (simp add: exclusive_def isRunning_def)
  then have "inj_on key (insert i {j. ph j = Running})"
    using enter by (auto simp: exclusive_def)
  then show ?case
    using enter.prems by (simp only: exclusive_def new fst_conv snd_conv setRunning_def)
      (simp add: image_insert)
next
  case (refuse ph i s)
  then have "{j. (ph(i := Rejected)) j = Running} = {j. ph j = Running}" by auto
  then show ?case using refuse by (simp add: exclusive_def)
next
  case (leave ph i s)
  have new: "{j. (ph(i := Finished)) j = Running} = {j. ph j = Running} - {i}" by auto
  have "key ` ({j. ph j = Running} - {i}) = key ` {j. ph j = Running} - {key i}"
    using leave by (auto simp: exclusive_def inj_on_def)
  then show ?case
    using leave unfolding exclusive_def fst_conv snd_conv new clearRunning_def
    by (auto intro: inj_on_subset)
next
  case (act s' s ph)
  then show ?case by (simp add: exclusive_def)
qed

interpretation locked: step_invariant "lockedStep key" initial "exclusive key" for key
proof
  show "exclusive key c" if "initial c" for c :: "'a config"
    using that by (simp add: initial_def exclusive_def)
qed (rule exclusive_step)

text \<open>If the lookup and the insertion were one step, no two handlers of the same key would ever
  run at the same time, and the table would hold the keys of the running handlers and no other.\<close>

theorem locked_calls_exclusive:
  assumes "initial c" and "(lockedStep key)\<^sup>*\<^sup>* c (s, ph)"
    and "ph i = Running" and "ph j = Running" and "key i = key j"
  shows "i = j \<and> isRunning (key i) s"
  using locked.reachable_I [OF assms(1,2)] assms(3-5)
  by (auto simp: exclusive_def isRunning_def inj_on_def)

theorem locked_calls_exclusive_witness:
  "\<exists>s :: nat st. (lockedStep (\<lambda>_. ''k''))\<^sup>*\<^sup>* (undefined\<lparr>rpcStatus := {}\<rparr>, \<lambda>_. Arrived) (s, (\<lambda>_. Arrived)(3 := Running))
     \<and> isRunning ''k'' s"
proof -
  let ?s = "undefined\<lparr>rpcStatus := {}\<rparr> :: nat st"
  have "lockedStep (\<lambda>_. ''k'') (?s, \<lambda>_. Arrived) (setRunning ''k'' ?s, (\<lambda>_. Arrived)(3 := Running))"
    using lockedStep.enter [of "\<lambda>_. Arrived" 3 "\<lambda>_. ''k''" ?s] by (simp add: isRunning_def)
  then have "(lockedStep (\<lambda>_. ''k''))\<^sup>*\<^sup>* (?s, \<lambda>_. Arrived) (setRunning ''k'' ?s, (\<lambda>_. Arrived)(3 := Running))"
    by (rule r_into_rtranclp)
  moreover from this have "isRunning ''k'' (setRunning ''k'' ?s)"
    using locked_calls_exclusive [of "(?s, \<lambda>_. Arrived)" "\<lambda>_. ''k''" "setRunning ''k'' ?s"
        "(\<lambda>_. Arrived)(3 := Running)" 3 3] by (simp add: initial_def)
  ultimately show ?thesis by blast
qed

section \<open>Without a lock\<close>

lemma callSteps:
  assumes "callStep key c c'" and "(callStep key)\<^sup>*\<^sup>* c' c''"
  shows "(callStep key)\<^sup>*\<^sup>* c c''"
  using assms by (rule converse_rtranclp_into_rtranclp)

text \<open>Two callers with the same key: both look, then both insert.\<close>

definition bothIn :: "nat \<Rightarrow> phase" where
  "bothIn = (\<lambda>_. Arrived)(0 := Running, 1 := Running)"

lemma both_enter:
  assumes "rpcStatus s = {}"
  shows "(callStep (\<lambda>_. k))\<^sup>*\<^sup>* (s, \<lambda>_. Arrived) (setRunning k s, bothIn)"
proof -
  let ?p = "\<lambda>_ :: nat. Arrived"
  let ?p1 = "?p(0 := Looked False)" and ?p2 = "?p(0 := Looked False, 1 := Looked False)"
  have "callStep (\<lambda>_. k) (s, ?p) (s, ?p1)"
    using callStep.look [of ?p 0 "\<lambda>_. k" s] assms by (simp add: isRunning_def)
  moreover have "callStep (\<lambda>_. k) (s, ?p1) (s, ?p2)"
    using callStep.look [of ?p1 1 "\<lambda>_. k" s] assms by (simp add: isRunning_def)
  moreover have "callStep (\<lambda>_. k) (s, ?p2) (setRunning k s, ?p2(0 := Running))"
    by (rule callStep.insert) simp
  moreover have "?p2(0 := Running, 1 := Running) = bothIn"
    by (auto simp: bothIn_def)
  then have "callStep (\<lambda>_. k) (setRunning k s, ?p2(0 := Running)) (setRunning k s, bothIn)"
    using callStep.insert [of "?p2(0 := Running)" 1 "\<lambda>_. k" "setRunning k s"]
    by (simp add: setRunning_def)
  ultimately show ?thesis
    by (meson callSteps rtranclp.rtrancl_refl)
qed

text \<open>As the code has it, two calls with the same key can both be let in; and when the first of
  them finishes, the table no longer holds the key while the second still runs, so that the next
  call with it is let in too.\<close>

theorem calls_race:
  "\<exists>c s t. initial c \<and> (callStep (\<lambda>_. k))\<^sup>*\<^sup>* c (s, bothIn) \<and> bothIn 0 = Running \<and> bothIn 1 = Running \<and>
     callStep (\<lambda>_. k) (s, bothIn) (t, bothIn(0 := Finished)) \<and> \<not> isRunning k (t :: 'w st)"
proof -
  let ?s = "undefined\<lparr>rpcStatus := {}\<rparr> :: 'w st"
  have "initial (?s, \<lambda>_. Arrived)" by (simp add: initial_def)
  moreover have "callStep (\<lambda>_. k) (setRunning k ?s, bothIn)
      (clearRunning k (setRunning k ?s), bothIn(0 := Finished))"
    by (rule callStep.finish) (simp add: bothIn_def)
  moreover have "\<not> isRunning k (clearRunning k (setRunning k ?s))"
    by (simp add: table_ops)
  ultimately show ?thesis
    using both_enter [of ?s k] by (force simp: bothIn_def)
qed

section \<open>No key is left behind\<close>

text \<open>What holds even without the lock: a key in the table has a handler that runs.\<close>

definition owned :: "(nat \<Rightarrow> string) \<Rightarrow> 'w config \<Rightarrow> bool" where
  "owned key c \<longleftrightarrow> rpcStatus (fst c) \<subseteq> key ` {i. snd c i = Running}"

lemma owned_step:
  assumes "callStep key c c'" and "owned key c"
  shows "owned key c'"
  using assms
proof (induction rule: callStep.induct)
  case (look ph i s)
  then have "{j. (ph(i := Looked (isRunning (key i) s))) j = Running} = {j. ph j = Running}" by auto
  with look show ?case by (simp add: owned_def)
next
  case (reject ph i s)
  then have "{j. (ph(i := Rejected)) j = Running} = {j. ph j = Running}" by auto
  with reject show ?case by (simp add: owned_def)
next
  case (finish ph i s)
  show ?case
    unfolding owned_def fst_conv snd_conv clearRunning_def
  proof
    fix k
    assume "k \<in> rpcStatus (s\<lparr>rpcStatus := rpcStatus s - {key i}\<rparr>)"
    then have k: "k \<in> rpcStatus s" "k \<noteq> key i" by simp_all
    with finish.prems obtain j where "ph j = Running" "k = key j" by (auto simp: owned_def)
    with k(2) show "k \<in> key ` {j. (ph(i := Finished)) j = Running}" by auto
  qed
qed (auto simp: owned_def setRunning_def)

interpretation unlocked: step_invariant "callStep key" initial "owned key" for key
proof
  show "owned key c" if "initial c" for c :: "'a config"
    using that by (simp add: initial_def owned_def)
qed (rule owned_step)

text \<open>C10: in every state that concurrent calls can reach, in spite of the race a key is in the table
  only while a handler of that key runs; so once all of them are over, no call is refused.\<close>

theorem no_stale_keys:
  assumes "initial c" and "(callStep key)\<^sup>*\<^sup>* c (s, ph)" and "isRunning k s"
  shows "\<exists>i. ph i = Running \<and> key i = k"
  using unlocked.reachable_I [OF assms(1,2)] assms(3) by (auto simp: owned_def isRunning_def)

theorem no_stale_keys_witness:
  "\<exists>i. bothIn i = Running \<and> (\<lambda>_. ''k'') i = ''k''"
proof -
  let ?s = "undefined\<lparr>rpcStatus := {}\<rparr> :: nat st"
  have "initial (?s, \<lambda>_. Arrived)" by (simp add: initial_def)
  then show ?thesis
    by (rule no_stale_keys [OF _ both_enter [of ?s "''k''"]]) (simp_all add: table_ops)
qed

section \<open>The code's bracket is such a caller\<close>

text \<open>C33: one handler's run, from the lookup to the deferred clean-up, also when its body panics, is
  a path of the protocol: the caller ends rejected when its key was in the table, else finished,
  with the table as it was.\<close>

theorem serve_follows_protocol:
  assumes "ctx_TraceId ctx = Some t" and "t \<noteq> []"
    and "\<And>ctxt. frame (keeps rpcStatus) (body ctxt)"
    and "key i = callKey D piece fn req" and "ph i = Arrived"
  shows "(callStep key)\<^sup>*\<^sup>* (s, ph)
    (snd (serve D ctx piece fn req body s), ph(i := if isRunning (key i) s then Rejected else Finished))"
proof -
  have look: "callStep key (s, ph) (s, ph(i := Looked (isRunning (key i) s)))"
    using assms(5) by (rule callStep.look)
  show ?thesis
  proof (cases "isRunning (key i) s")
    case True
    have "callStep key (s, ph(i := Looked True)) (s, ph(i := Rejected))"
      using callStep.reject [of "ph(i := Looked True)" i key s] by simp
    with look True assms(1,2,4) show ?thesis
      by (auto simp: serve_run Let_def intro: callSteps)
  next
    case False
    obtain c where run: "snd (serve D ctx piece fn req body s) =
        clearRunning (key i) (snd (body c (setRunning (key i) s)))"
      using False assms(1,2,4) by (auto simp: serve_run Let_def split_beta)
    let ?t = "snd (body c (setRunning (key i) s))"
    have "callStep key (s, ph(i := Looked False)) (setRunning (key i) s, ph(i := Running))"
      using callStep.insert [of "ph(i := Looked False)" i key s] by simp
    moreover have "callStep key (setRunning (key i) s, ph(i := Running)) (?t, ph(i := Running))"
      using assms(3) [of c] by (intro callStep.work) (simp add: frame_def keeps_def)
    moreover have "callStep key (?t, ph(i := Running)) (clearRunning (key i) ?t, ph(i := Finished))"
      using callStep.finish [of "ph(i := Running)" i key ?t] by simp
    ultimately show ?thesis
      using look False run by (auto intro: callSteps)
  qed
qed

theorem serve_follows_protocol_witness:
  "\<forall>(D :: nat driver) s. (callStep (\<lambda>_. callKey D ''identity'' ''Probe'' (ReqOther [])))\<^sup>*\<^sup>*
     (s, \<lambda>_. Arrived)
     (snd (serve D (topctxt\<lparr>ctx_TraceId := Some ''t''\<rparr>) ''identity'' ''Probe'' (ReqOther []) (\<lambda>_. ret (Inr ())) s),
      (\<lambda>_. Arrived)(0 := if isRunning (callKey D ''identity'' ''Probe'' (ReqOther [])) s then Rejected else Finished))"
  by (intro allI serve_follows_protocol [where t = "''t''"]) (simp_all add: topctxt_def frame_intros)

end
