(* ===== verification/Client_Access.thy ===== *)
theory Client_Access
  imports Client_Volume
begin

text \<open>
  \<open>pkg/client/acl.go\<close> and \<open>login.go\<close>: the host's iSCSI initiator, the access list of a volume's
  storage instance, and the login and logout of the host through the iSCSI connector.
\<close>

section \<open>Initiators\<close>

record client_initiator =
  ci_Init :: initiator
  ci_Name :: string
  ci_Path :: string
  ci_Iqn :: string

definition initiatorFile :: string where
  "initiatorFile = ''/etc/iscsi/initiatorname.iscsi''"

definition GetClientIqn :: "'w env \<Rightarrow> ('w, goerr + string) io" where
  "GetClientIqn E =
     bindG (extG (ReadFile initiatorFile) (x_read_file E initiatorFile)) (\<lambda>(dat, err). case err of
       Some e \<Rightarrow> ret (Inl e)
     | None \<Rightarrow>
         bindG (indexG (splitOn CHR ''='' (TrimSpace dat)) 1) (\<lambda>iqn. ret (Inr iqn)))"

definition toInitiator :: "initiator option \<Rightarrow> ('w, goerr + client_initiator option) io" where
  "toInitiator p =
     bindG (derefG p) (\<lambda>i.
     ret (Inr (Some \<lparr>ci_Init = i, ci_Name = in_Name i, ci_Path = in_Path i, ci_Iqn = in_Id i\<rparr>)))"

text \<open>The result \<open>Inr None\<close> is Go's \<open>(nil, nil)\<close>: an API error other than the expected one returns
  the transport error, which is nil then. The transport error of the lookup is not looked at
  otherwise.\<close>

definition CreateGetInitiator :: "'w env \<Rightarrow> ('w, goerr + client_initiator option) io" where
  "CreateGetInitiator E =
     tryG (GetClientIqn E) (\<lambda>iqn.
     bindG (extG (InitGet iqn) (x_init_get E iqn)) (\<lambda>(p, apierr, err). case apierr of
       None \<Rightarrow> toInitiator p
     | Some a \<Rightarrow>
         if ae_Name a \<noteq> ''NotFoundError''
         then ret (case err of Some e \<Rightarrow> Inl e | None \<Rightarrow> Inr None)
         else
           bindG (GenName E []) (\<lambda>name.
           tryG (sdkCall (InitCreate name iqn True) (x_init_create E name iqn True)) toInitiator)))"

definition DeleteInitiator :: "'w env \<Rightarrow> client_initiator \<Rightarrow> bool \<Rightarrow> ('w, goerr option) io" where
  "DeleteInitiator E r quiet =
     bindG (extG (InitDelete (ci_Iqn r)) (x_init_delete E (ci_Init r) (ci_Iqn r))) (\<lambda>(_, apierr, err).
     ret (if quiet then None
          else case err of Some e \<Rightarrow> Some e | None \<Rightarrow> map_option ErrTranslator apierr))"

section \<open>Access lists\<close>

text \<open>What both operations do: read the list, change it, write it back.\<close>

definition updateAcl ::
    "'w env \<Rightarrow> volume \<Rightarrow> client_initiator option \<Rightarrow>
     (client_initiator \<Rightarrow> initiator list \<Rightarrow> initiator list) \<Rightarrow> ('w, goerr + unit) io" where
  "updateAcl E r cinit f =
     bindG (derefG cinit) (\<lambda>ci.
     bindG (indexG (ai_StorageInstances (v_Ai r)) 0) (\<lambda>si.
     bindG (derefG (si_AclPolicy si)) (\<lambda>_.
     tryG (sdkCall (AclGet (si_Path si)) (x_acl_get E si)) (\<lambda>p.
     bindG (derefG p) (\<lambda>acl.
     let inits = f ci (acl_Initiators acl); acl = acl\<lparr>acl_Initiators := inits\<rparr>
     in tryG (sdkCall (AclSet (si_Path si) inits) (x_acl_set E acl inits)) (\<lambda>_. ret (Inr ())))))))"

definition pathOnly :: "string \<Rightarrow> initiator" where
  "pathOnly p = \<lparr>in_Name = [], in_Path = p, in_Id = [], in_Tenant = []\<rparr>"

definition withInitiator :: "client_initiator \<Rightarrow> initiator list \<Rightarrow> initiator list" where
  "withInitiator ci inits = filter (\<lambda>i. in_Tenant i = []) (inits @ [pathOnly (ci_Path ci)])"

text \<open>Every initiator that is kept is written with the path of the one to remove.\<close>

definition withoutInitiator :: "client_initiator \<Rightarrow> initiator list \<Rightarrow> initiator list" where
  "withoutInitiator ci inits =
     map (\<lambda>_. pathOnly (ci_Path ci)) (filter (\<lambda>i. in_Path i \<noteq> ci_Path ci) inits)"

definition RegisterAcl :: "'w env \<Rightarrow> volume \<Rightarrow> client_initiator option \<Rightarrow> ('w, goerr + unit) io" where
  "RegisterAcl E r cinit = updateAcl E r cinit withInitiator"

definition UnregisterAcl :: "'w env \<Rightarrow> volume \<Rightarrow> client_initiator option \<Rightarrow> ('w, goerr + unit) io" where
  "UnregisterAcl E r cinit = updateAcl E r cinit withoutInitiator"

section \<open>Login and logout\<close>

definition robin :: "'w env \<Rightarrow> ('w, int) io" where
  "robin E = extG (RandInt 2) (x_rand_intn E 2)"

text \<open>The addresses to log in to.\<close>

definition loginIps :: "'w env \<Rightarrow> volume \<Rightarrow> bool \<Rightarrow> bool \<Rightarrow> ('w, string list) io" where
  "loginIps E v multipath round_robin =
     (if multipath then
        if round_robin then
          bindG (robin E) (\<lambda>i. bindG (indexG (v_Ips v) i) (\<lambda>ip. ret [ip]))
        else ret (v_Ips v)
      else bindG (indexG (v_Ips v) 0) (\<lambda>ip. ret [ip]))"

text \<open>\<open>len(chapParams) != 0\<close>\<close>

definition chapGiven :: "smap \<Rightarrow> bool" where
  "chapGiven chap \<longleftrightarrow> chap \<noteq> Map.empty"

definition connectorFor :: "volume \<Rightarrow> bool \<Rightarrow> smap \<Rightarrow> string list \<Rightarrow> connector" where
  "connectorFor v multipath chap ips =
     \<lparr>cn_Targets = map (\<lambda>ip. (v_Iqn v, ip, ''3260'')) ips, cn_Lun = 0, cn_Multipath = multipath,
      cn_RetryCount = 3,
      cn_AuthType = (if chapGiven chap then ''chap'' else []),
      cn_SessionSecrets =
        (if chapGiven chap then
           \<lparr>cs_Type = ''chap'', cs_UserName = mdGet chap chapUser, cs_Password = mdGet chap chapPass,
            cs_UserNameIn = mdGet chap chapUserIn, cs_PasswordIn = mdGet chap chapPassIn\<rparr>
         else \<lparr>cs_Type = [], cs_UserName = [], cs_Password = [], cs_UserNameIn = [], cs_PasswordIn = []\<rparr>),
      cn_DoDiscovery = \<not> chapGiven chap, cn_DoCHAPDiscovery = chapGiven chap\<rparr>"

definition Login :: "'w env \<Rightarrow> volume \<Rightarrow> bool \<Rightarrow> bool \<Rightarrow> smap \<Rightarrow> ('w, goerr + volume) io" where
  "Login E v multipath round_robin chap =
     bindG (loginIps E v multipath round_robin) (\<lambda>ips.
     let c = connectorFor v multipath chap ips
     in bindG (extG (IscsiConnect c) (x_iscsi_connect E c)) (\<lambda>(path, err). case err of
          Some e \<Rightarrow> ret (Inl e)
        | None \<Rightarrow>
            if length path < 1
            then ret (Inl (PlainErr (''Recieved no paths from ISCSI connector: '' @ path)))
            else ret (Inr (v\<lparr>v_DevicePath := path\<rparr>))))"

definition Logout :: "'w env \<Rightarrow> volume \<Rightarrow> ('w, goerr + volume) io" where
  "Logout E v =
     bindG (extG (IscsiDisconnect (v_Iqn v) (v_Ips v)) (x_iscsi_disconnect E (v_Iqn v) (v_Ips v))) (\<lambda>err.
     ret (case err of Some e \<Rightarrow> Inl e | None \<Rightarrow> Inr (v\<lparr>v_DevicePath := []\<rparr>)))"

section \<open>Effects\<close>

lemma access_frame [frame_intros]:
  "frame (keeps driver_fields) (CreateGetInitiator E)"
  "frame (keeps driver_fields) (DeleteInitiator E ci quiet)"
  "frame (keeps driver_fields) (updateAcl E r cinit f)"
  "frame (keeps driver_fields) (RegisterAcl E r cinit)"
  "frame (keeps driver_fields) (UnregisterAcl E r cinit)"
  "frame (keeps driver_fields) (Login E r multipath round_robin chap)"
  "frame (keeps driver_fields) (Logout E r)"
  unfolding CreateGetInitiator_def GetClientIqn_def toInitiator_def DeleteInitiator_def
    RegisterAcl_def UnregisterAcl_def updateAcl_def Login_def loginIps_def robin_def Logout_def
  by (intro frame_intros)+

section \<open>What the access list becomes\<close>

lemma updateAcl_run:
  assumes "ai_StorageInstances (v_Ai r) = si # sis" and "si_AclPolicy si = Some acl0"
    and "x_acl_get E si (ext s) = ((Some acl, None, None), w)"
    and "x_acl_set E (acl\<lparr>acl_Initiators := f ci (acl_Initiators acl)\<rparr>) (f ci (acl_Initiators acl)) w =
      ((x, None, None), w')"
  shows "updateAcl E r (Some ci) f s =
    (Ret (Inr ()), s\<lparr>log := log s @ [AclGet (si_Path si), AclSet (si_Path si) (f ci (acl_Initiators acl))], ext := w'\<rparr>)"
  using assms by (simp add: updateAcl_def go_eval sdkResult_def Let_def)

text \<open>Taking a host off a volume's access list writes, for every other host on the list, the path
  of the host that was to be taken off: that host stays on the list if there was any other, and
  all the others lose their access.\<close>

theorem UnregisterAcl_writes:
  assumes "ai_StorageInstances (v_Ai r) = si # sis" and "si_AclPolicy si = Some acl0"
    and "x_acl_get E si (ext s) = ((Some acl, None, None), w)"
    and "x_acl_set E (acl\<lparr>acl_Initiators := replicate n (pathOnly (ci_Path ci))\<rparr>)
      (replicate n (pathOnly (ci_Path ci))) w = ((x, None, None), w')"
    and "n = length (filter (\<lambda>i. in_Path i \<noteq> ci_Path ci) (acl_Initiators acl))"
  shows "UnregisterAcl E r (Some ci) s =
    (Ret (Inr ()), s\<lparr>log := log s @ [AclGet (si_Path si),
       AclSet (si_Path si) (replicate n (pathOnly (ci_Path ci)))], ext := w'\<rparr>)"
proof -
  have "withoutInitiator ci (acl_Initiators acl) = replicate n (pathOnly (ci_Path ci))"
    using assms(5) by (simp add: withoutInitiator_def map_replicate_const)
  then show ?thesis
    using updateAcl_run [OF assms(1-3), of withoutInitiator ci] assms(4)
    by (simp add: UnregisterAcl_def)
qed

text \<open>Putting a host on the list keeps the other hosts without a tenant, in their order, adds the
  path at the end, and drops the hosts that have a tenant.\<close>

theorem RegisterAcl_writes:
  assumes "ai_StorageInstances (v_Ai r) = si # sis" and "si_AclPolicy si = Some acl0"
    and "x_acl_get E si (ext s) = ((Some acl, None, None), w)"
    and "inits = filter (\<lambda>i. in_Tenant i = []) (acl_Initiators acl) @ [pathOnly (ci_Path ci)]"
    and "x_acl_set E (acl\<lparr>acl_Initiators := inits\<rparr>) inits w = ((x, None, None), w')"
  shows "RegisterAcl E r (Some ci) s =
    (Ret (Inr ()), s\<lparr>log := log s @ [AclGet (si_Path si), AclSet (si_Path si) inits], ext := w'\<rparr>)"
proof -
  have "withInitiator ci (acl_Initiators acl) = inits"
    using assms(4) by (simp add: withInitiator_def pathOnly_def)
  then show ?thesis
    using updateAcl_run [OF assms(1-3), of withInitiator ci] assms(5)
    by (simp add: RegisterAcl_def)
qed

text \<open>The initiator's name is read from the file's first line, the part after the first equals sign.\<close>

lemma GetClientIqn_run:
  assumes "x_read_file E initiatorFile (ext s) = ((dat, None), w)"
    and "splitOn CHR ''='' (TrimSpace dat) = a # iqn # rest"
  shows "GetClientIqn E s = (Ret (Inr iqn), s\<lparr>log := log s @ [ReadFile initiatorFile], ext := w\<rparr>)"
  using assms by (simp add: GetClientIqn_def go_eval)

text \<open>An answer of the backend that is an error, but not the "not found" of initiators, is
  returned as no initiator and no error; the handlers then dereference it.\<close>

theorem CreateGetInitiator_swallows:
  assumes "x_read_file E initiatorFile (ext s) = ((dat, None), w)"
    and "splitOn CHR ''='' (TrimSpace dat) = a # iqn # rest"
    and "x_init_get E iqn w = ((p, Some e, None), w')" and "ae_Name e \<noteq> ''NotFoundError''"
  shows "CreateGetInitiator E s =
      (Ret (Inr None), s\<lparr>log := log s @ [ReadFile initiatorFile, InitGet iqn], ext := w'\<rparr>) \<and>
    RegisterAcl E v None s = (Panic ''invalid memory address or nil pointer dereference'', s)"
  using assms GetClientIqn_run [OF assms(1,2)]
  by (simp add: CreateGetInitiator_def RegisterAcl_def updateAcl_def go_eval)

end
