(* ===== verification/Client_Mount.thy ===== *)
theory Client_Mount
  imports Client_Volume "HOL-Library.Word"
begin

text \<open>
  \<open>pkg/client/mount.go\<close>: the host side of a volume - formatting, mounting, bind mounts, growing the
  file system - by programs of the host (\<open>mkfs\<close>, \<open>mount\<close>, \<open>lsblk\<close>, ...). The two loops that wait for
  a program carry their counter; \<open>strings.Fields\<close> is for ASCII white space.
\<close>

section \<open>What is on a device\<close>

fun Fields :: "string \<Rightarrow> string list" where
  "Fields [] = []"
| "Fields (c # cs) =
     (if isSpace c then Fields cs
      else case cs of
        [] \<Rightarrow> [[c]]
      | d # ds \<Rightarrow> (if isSpace d then [c] # Fields cs
                  else case Fields cs of [] \<Rightarrow> [[c]] | w # ws \<Rightarrow> (c # w) # ws))"

definition findFs :: "'w env \<Rightarrow> string \<Rightarrow> ('w, goerr + string) io" where
  "findFs E device =
     bindG (RunCmd E [''lsblk'', ''-f'', device, ''--json'']) (\<lambda>(out, err). case err of
       Some e \<Rightarrow> ret (Inl e)
     | None \<Rightarrow> (case x_lsblk_json E out of
         Inl e \<Rightarrow> ret (Inl e)
       | Inr data \<Rightarrow>
           bindG (derefG data) (\<lambda>data. case lb_BlockDevices data of
             [] \<Rightarrow>
               bindG (RunCmd E [''lsblk'', ''-f'']) (\<lambda>(_, err). case err of
                 Some e \<Rightarrow> ret (Inl e)
               | None \<Rightarrow> ret (Inl (PlainErr ''No block devices returned from lsblk'')))
           | entry # _ \<Rightarrow>
               bindG (derefG entry) (\<lambda>entry.
               if lbe_FsType entry = [] then ret (Inl (PlainErr ''No filesystem found''))
               else ret (Inr (lbe_FsType entry))))))"

definition findMnt :: "'w env \<Rightarrow> string \<Rightarrow> ('w, goerr + string) io" where
  "findMnt E device =
     bindG (RunCmd E [''grep'', [CHR 39] @ device @ [CHR 39], ''/proc/mounts'']) (\<lambda>(out, err).
     ret (case err of Some e \<Rightarrow> Inl e | None \<Rightarrow> Inr out))"

definition readlink :: "'w env \<Rightarrow> string \<Rightarrow> ('w, string \<times> goerr option) io" where
  "readlink E device = RunCmd E [''readlink'', ''-f'', device]"

definition deviceFromMount :: "'w env \<Rightarrow> string \<Rightarrow> ('w, goerr + string) io" where
  "deviceFromMount E file =
     bindG (RunCmd E [''sh'', ''-c'', ''grep '' @ [CHR 39] @ file @ [CHR 39] @ '' /proc/mounts'']) (\<lambda>(out, err).
     case err of
       Some e \<Rightarrow> ret (Inl e)
     | None \<Rightarrow>
         bindG (indexG (Fields out) 0) (\<lambda>device.
         bindG (readlink E device) (\<lambda>(dev, err). case err of
           Some _ \<Rightarrow> ret (Inr device)
         | None \<Rightarrow> ret (Inr (TrimSpace dev)))))"

section \<open>Device nodes\<close>

text \<open>Operations of the file that the rest of the driver does not call. \<open>unix.Stat\<close> (the device number
  \<open>Rdev\<close>), \<open>unix.Major\<close>, \<open>unix.Minor\<close> and the answer of \<open>os.Stat\<close>, nil after an error, are parameters.\<close>

record 'w dev_host =
  dh_stat :: "string \<Rightarrow> 'w \<Rightarrow> (goerr + 64 word) \<times> 'w"
  dh_major :: "64 word \<Rightarrow> 32 word"
  dh_minor :: "64 word \<Rightarrow> 32 word"
  dh_is_dir :: "string \<Rightarrow> 'w \<Rightarrow> bool option \<times> 'w"

definition getMajorMinor :: "'w dev_host \<Rightarrow> string \<Rightarrow> ('w, goerr + 32 word \<times> 32 word) io" where
  "getMajorMinor H device =
     tryG (extG (StatFile device) (dh_stat H device)) (\<lambda>dev.
     ret (Inr (dh_major H dev, dh_minor H dev)))"

definition FormatUint :: "'n::len word \<Rightarrow> string" where
  "FormatUint x = natDigits (unat x)"

definition devLink :: "'w env \<Rightarrow> 'w dev_host \<Rightarrow> string \<Rightarrow> string \<Rightarrow> ('w, goerr + unit) io" where
  "devLink E H device dest =
     tryG (getMajorMinor H device) (\<lambda>(major, minor).
     bindG (RunCmd E [''mknod'', dest, ''b'', FormatUint (ucast major :: 64 word), FormatUint (ucast minor :: 64 word)]) (\<lambda>(_, err).
     ret (case err of Some e \<Rightarrow> Inl e | None \<Rightarrow> Inr ())))"

definition isDevice :: "'w dev_host \<Rightarrow> string \<Rightarrow> ('w, bool) io" where
  "isDevice H file =
     bindG (extG (StatFile file) (dh_is_dir H file)) (\<lambda>f.
     bindG (derefG f) (\<lambda>dir. ret (\<not> dir \<and> prefix ''/dev/'' file)))"

section \<open>Formatting\<close>

text \<open>\<open>n\<close> is \<open>timeout + 1\<close>, cut at 0: the loop gives up when \<open>timeout\<close> is below 0.\<close>

fun formatLoop :: "'w env \<Rightarrow> string list \<Rightarrow> nat \<Rightarrow> ('w, goerr + unit) io" where
  "formatLoop E cmd n =
     bindG (RunCmd E cmd) (\<lambda>(out, err). case err of
       None \<Rightarrow> ret (Inr ())
     | Some e \<Rightarrow>
         if out \<noteq> [] \<and> contains out ''will not make a filesystem here'' then ret (Inl e)
         else case n of
           0 \<Rightarrow> ret (Inl e)
         | Suc n' \<Rightarrow> bindG (sleepG 1) (\<lambda>_. formatLoop E cmd n'))"

declare formatLoop.simps [simp del]

definition format_device :: "'w env \<Rightarrow> string \<Rightarrow> string \<Rightarrow> string list \<Rightarrow> int \<Rightarrow> ('w, goerr + unit) io" where
  "format_device E device fsType fsArgs timeout =
     formatLoop E ([''mkfs.'' @ fsType] @ fsArgs @ [device]) (nat (timeout + 1))"

definition Format :: "'w env \<Rightarrow> volume \<Rightarrow> string \<Rightarrow> string list \<Rightarrow> int \<Rightarrow> ('w, goerr + volume) io" where
  "Format E v fsType fsArgs timeout =
     (if v_Formatted v then ret (Inr v)
      else
        bindG (findFs E (v_DevicePath v)) (\<lambda>f. case f of
          Inr fs \<Rightarrow> ret (Inr (v\<lparr>v_Formatted := True, v_FsType := fs\<rparr>))
        | Inl _ \<Rightarrow>
            bindG (findMnt E (v_DevicePath v)) (\<lambda>m. case m of
              Inr _ \<Rightarrow> ret (Inr (v\<lparr>v_Formatted := True\<rparr>))
            | Inl _ \<Rightarrow>
                tryG (format_device E (v_DevicePath v) fsType fsArgs timeout) (\<lambda>_.
                ret (Inr (v\<lparr>v_FsType := fsType, v_FsArgs := fsArgs\<rparr>))))))"

section \<open>Mounting\<close>

definition mount_dev ::
    "'w env \<Rightarrow> string \<Rightarrow> string \<Rightarrow> string list \<Rightarrow> string \<Rightarrow> ('w, goerr + unit) io" where
  "mount_dev E source dest options fs =
     bindG (extG (StatFile dest) (x_not_exist E dest)) (\<lambda>missing.
     bindG (if missing then extG (MkdirAll dest) (x_mkdir_all E dest) else ret None) (\<lambda>err. case err of
       Some e \<Rightarrow> ret (Inl e)
     | None \<Rightarrow>
         bindG (deviceFromMount E source) (\<lambda>d.
         let cmd = (case d of
               Inl _ \<Rightarrow>
                 if ''--bind'' \<in> set options then [''mount'', source, dest] @ options
                 else [''mount'', ''-t'', fs, source, dest] @ options
             | Inr dev \<Rightarrow> [''mount'', dev, dest] @ remove1 ''--bind'' options)
         in bindG (RunCmd E cmd) (\<lambda>(_, err).
            ret (case err of Some e \<Rightarrow> Inl e | None \<Rightarrow> Inr ())))))"

definition noDevice :: "volume \<Rightarrow> goerr" where
  "noDevice v = PlainErr (''No device path found for volume '' @ v_Name v @ ''.  Is the volume logged in?'')"

definition Mount :: "'w env \<Rightarrow> volume \<Rightarrow> string \<Rightarrow> string list \<Rightarrow> string \<Rightarrow> ('w, goerr + volume) io" where
  "Mount E v dest options fs =
     (if v_DevicePath v = [] then ret (Inl (noDevice v))
      else tryG (mount_dev E (v_DevicePath v) dest options fs) (\<lambda>_.
           ret (Inr (v\<lparr>v_MountPath := dest\<rparr>))))"

definition BindMount :: "'w env \<Rightarrow> volume \<Rightarrow> string \<Rightarrow> string \<Rightarrow> ('w, goerr + volume) io" where
  "BindMount E v dest fs =
     (if v_DevicePath v = [] then ret (Inl (noDevice v))
      else if v_MountPath v = [] then
        ret (Inl (PlainErr (''Mount path doesn'' @ [CHR 39] @ ''t exist for volume '' @ v_Name v @
          '', cannot bind-mount an unmounted volume'')))
      else
        tryG (mount_dev E (v_MountPath v) dest [''--bind''] fs) (\<lambda>_.
        ret (Inr (v\<lparr>v_BindMountPaths := Some (case v_BindMountPaths v of
          None \<Rightarrow> x_ss_new E [dest] | Some ps \<Rightarrow> x_ss_add E dest ps)\<rparr>))))"

text \<open>The directory is removed whatever \<open>umount\<close> returns.\<close>

definition unmount :: "'w env \<Rightarrow> string \<Rightarrow> ('w, goerr + unit) io" where
  "unmount E path =
     bindG (RunCmd E [''umount'', path]) (\<lambda>_.
     bindG (extG (RemoveAll path) (x_remove_all E path)) (\<lambda>err.
     ret (case err of Some e \<Rightarrow> Inl e | None \<Rightarrow> Inr ())))"

definition UnBindMount :: "'w env \<Rightarrow> volume \<Rightarrow> string \<Rightarrow> ('w, goerr + volume) io" where
  "UnBindMount E v path =
     bindG (unmount E path) (\<lambda>r. case r of
       Inl _ \<Rightarrow> ret (Inr v)
     | Inr _ \<Rightarrow>
         bindG (derefG (v_BindMountPaths v)) (\<lambda>ps.
         ret (Inr (v\<lparr>v_BindMountPaths := Some (x_ss_delete E path ps)\<rparr>))))"

definition Unmount :: "'w env \<Rightarrow> volume \<Rightarrow> ('w, goerr + volume) io" where
  "Unmount E v =
     (if v_MountPath v = [] then ret (Inl (PlainErr ''Volume is already unmounted''))
      else tryG (unmount E (v_MountPath v)) (\<lambda>_. ret (Inr (v\<lparr>v_MountPath := []\<rparr>))))"

section \<open>Growing a file system\<close>

text \<open>\<open>timeout\<close> starts at 60; the expected size is multiplied in every round.\<close>

fun sizeLoop :: "'w env \<Rightarrow> string \<Rightarrow> nat \<Rightarrow> int \<Rightarrow> ('w, goerr + unit) io" where
  "sizeLoop E device timeout expectedSize =
     bindG (RunCmd E [''iscsiadm'', ''-m'', ''session'', ''-R'']) (\<lambda>_.
     bindG (RunCmd E [''blockdev'', ''--getsize64'', device]) (\<lambda>(out, _).
     let expectedSize = mul64 expectedSize GiB;
         (sz, _) = ParseInt (TrimSuffix out [CHR 10]) 10
     in if sz = expectedSize then ret (Inr ())
        else case timeout of
          0 \<Rightarrow> ret (Inl (PlainErr (''Blockdevice '' @ device @
            '' did not resolve to expected size before timeout reached'')))
        | Suc n \<Rightarrow> sizeLoop E device n expectedSize))"

declare sizeLoop.simps [simp del]

definition checkDeviceSize :: "'w env \<Rightarrow> string \<Rightarrow> int \<Rightarrow> ('w, goerr + unit) io" where
  "checkDeviceSize E device expectedSize = sizeLoop E device 60 expectedSize"

definition expandFs :: "'w env \<Rightarrow> string \<Rightarrow> string \<Rightarrow> ('w, goerr + unit) io" where
  "expandFs E path fs =
     bindG (RunCmd E (if fs = Ext4 then [''resize2fs'', path]
                      else if fs = Xfs then [''xfs_growfs'', path] else [])) (\<lambda>(_, err).
     ret (case err of Some e \<Rightarrow> Inl e | None \<Rightarrow> Inr ()))"

definition ExpandFs :: "'w env \<Rightarrow> string \<Rightarrow> string \<Rightarrow> int \<Rightarrow> ('w, goerr + unit) io" where
  "ExpandFs E path fs gib =
     tryG (deviceFromMount E path) (\<lambda>device.
     tryG (checkDeviceSize E device gib) (\<lambda>_.
     expandFs E device fs))"

section \<open>Effects\<close>

lemma formatLoop_frame [frame_intros]: "frame (keeps driver_fields) (formatLoop E cmd n)"
proof (induction n)
  case 0
  show ?case
    by (subst formatLoop.simps) (simp only: nat.case, intro frame_intros)
next
  case (Suc n)
  show ?case
    by (subst formatLoop.simps) (simp only: nat.case, intro frame_intros Suc)
qed

lemma sizeLoop_frame [frame_intros]: "frame (keeps driver_fields) (sizeLoop E device n sz)"
proof (induction n arbitrary: sz)
  case 0
  show ?case
    by (subst sizeLoop.simps) (simp only: nat.case, intro frame_intros)
next
  case (Suc n)
  show ?case
    by (subst sizeLoop.simps) (simp only: nat.case, intro frame_intros Suc)
qed

lemma mount_frame [frame_intros]:
  "frame (keeps driver_fields) (findFs E device)"
  "frame (keeps driver_fields) (findMnt E device)"
  "frame (keeps driver_fields) (deviceFromMount E file)"
  "frame (keeps driver_fields) (Format E v fsType fsArgs timeout)"
  "frame (keeps driver_fields) (mount_dev E source dest options fs)"
  "frame (keeps driver_fields) (Mount E v dest options fs)"
  "frame (keeps driver_fields) (BindMount E v dest fs)"
  "frame (keeps driver_fields) (UnBindMount E v path)"
  "frame (keeps driver_fields) (Unmount E v)"
  "frame (keeps driver_fields) (ExpandFs E path fs gib)"
  unfolding findFs_def findMnt_def deviceFromMount_def readlink_def Format_def format_device_def
    mount_dev_def Mount_def BindMount_def UnBindMount_def Unmount_def unmount_def ExpandFs_def
    checkDeviceSize_def expandFs_def Let_def
  by (intro frame_intros)+

section \<open>Formatting\<close>

definition formatOnce :: "'w env \<Rightarrow> string list \<Rightarrow> goerr \<Rightarrow> ('w, (goerr + unit) + goerr) io" where
  "formatOnce E cmd before = bindG (RunCmd E cmd) (\<lambda>(out, err). ret (case err of
       None \<Rightarrow> Inl (Inr ())
     | Some e \<Rightarrow>
         if out \<noteq> [] \<and> contains out ''will not make a filesystem here'' then Inl (Inl e) else Inr e))"

interpretation fmt: retry_loop "\<lambda>n _. formatLoop E cmd n" "formatOnce E cmd" "sleepG 1" Inl for E cmd
proof
  fix n and c :: goerr
  show "formatLoop E cmd n = bindG (formatOnce E cmd c) (\<lambda>r. case r of
      Inl d \<Rightarrow> ret d
    | Inr c' \<Rightarrow> (case n of 0 \<Rightarrow> ret (Inl c') | Suc n' \<Rightarrow> bindG (sleepG 1) (\<lambda>_. formatLoop E cmd n')))"
    by (rule ext, subst formatLoop.simps)
      (auto simp: formatOnce_def go_eval split: nat.splits prod.splits outcome.splits option.splits)
qed

definition execs :: "event \<Rightarrow> bool" where
  "execs e = (case e of Exec _ \<Rightarrow> True | _ \<Rightarrow> False)"

lemma RunCmd_cost: "frame (made execs 1) (RunCmd E cmd)"
  unfolding RunCmd_def Let_def
  by (intro frame_branches made_extG) (simp add: frame_def go_eval made.cost_any)

lemma formatOnce_cost: "frame (made execs 1) (formatOnce E cmd c)"
proof -
  have "frame (made execs (1 + 0)) (formatOnce E cmd c)"
    unfolding formatOnce_def split_beta by (intro made.cost_bind RunCmd_cost made.cost_ret)
  then show ?thesis by simp
qed

text \<open>Formatting runs the program at most \<open>timeout + 2\<close> times (once for a negative timeout), and
  one second passes between two runs.\<close>

theorem format_bounded:
  "frame (made execs (Suc (nat (timeout + 1)))) (format_device E device fsType fsArgs timeout)"
proof -
  have "frame (made execs 0) (sleepG 1 :: ('a, unit) io)"
    by (intro made_none frame_intros) (simp add: execs_def)
  then have "frame (made execs (1 * Suc (nat (timeout + 1))))
      (formatLoop E ([''mkfs.'' @ fsType] @ fsArgs @ [device]) (nat (timeout + 1)))"
    by (intro fmt.loop_cost made.step_cost_axioms formatOnce_cost)
  then show ?thesis
    by (simp add: format_device_def)
qed

text \<open>C34: a device on which \<open>lsblk\<close> sees a file system is never formatted: the only program run is
  \<open>lsblk\<close>, and the volume is marked with the file system found.\<close>

theorem Format_spares_data:
  assumes "x_exec E [''lsblk'', ''-f'', v_DevicePath v, ''--json''] (ext s) = ((out, None), w)"
    and "x_lsblk_json E out = Inr (Some data)" and "lb_BlockDevices data = Some entry # rest"
    and "lbe_FsType entry \<noteq> []"
    and "TrimSpace (v_DevicePath v) = v_DevicePath v" and "v_DevicePath v \<noteq> []" and "\<not> v_Formatted v"
  shows "Format E v fsType fsArgs timeout s =
    (Ret (Inr (v\<lparr>v_Formatted := True, v_FsType := lbe_FsType entry\<rparr>)),
     s\<lparr>log := log s @ [Exec [''lsblk'', ''-f'', v_DevicePath v, ''--json'']], ext := w\<rparr>)"
proof -
  have "map TrimSpace [''lsblk'', ''-f'', v_DevicePath v, ''--json''] =
      [''lsblk'', ''-f'', v_DevicePath v, ''--json'']"
    using assms(5) by (simp add: TrimSpace_def trimBytes_def isSpace_def)
  then have "RunCmd E [''lsblk'', ''-f'', v_DevicePath v, ''--json''] s =
      (Ret (out, None), s\<lparr>log := log s @ [Exec [''lsblk'', ''-f'', v_DevicePath v, ''--json'']], ext := w\<rparr>)"
    using assms(1,6) by (simp add: RunCmd_def go_eval Let_def)
  then show ?thesis
    using assms by (simp add: Format_def findFs_def go_eval)
qed

section \<open>Device nodes\<close>

lemma FormatUint_reads_back: "parseDigits False 10 0 (FormatUint (x :: 64 word)) = PNum (unat x)"
  unfolding FormatUint_def using unsigned_less [of x] by (intro parseDigits_natDigits) simp

text \<open>\<open>isDevice\<close> drops the error of \<open>os.Stat\<close> and asks the nil result whether it is a directory.\<close>

lemma isDevice_missing:
  "dh_is_dir H file (ext s) = (None, w) \<Longrightarrow>
   fst (isDevice H file s) = Panic ''invalid memory address or nil pointer dereference''"
  by (simp add: isDevice_def go_eval)

section \<open>Unmounting\<close>

text \<open>When \<open>umount\<close> fails, so that the volume is still mounted, its directory is removed with
  everything in it all the same, and the call succeeds.\<close>

theorem unmount_removes_mounted:
  assumes "x_exec E [''umount'', path] (ext s) = ((out, Some e), w)"
    and "x_remove_all E path w = (None, w')"
    and "TrimSpace path = path" and "path \<noteq> []"
  shows "unmount E path s =
    (Ret (Inr ()), s\<lparr>log := log s @ [Exec [''umount'', path], RemoveAll path], ext := w'\<rparr>)"
proof -
  have "map TrimSpace [''umount'', path] = [''umount'', path]"
    using assms(3) by (simp add: TrimSpace_def trimBytes_def isSpace_def)
  then have "RunCmd E [''umount'', path] s =
      (Ret (out, Some e), s\<lparr>log := log s @ [Exec [''umount'', path]], ext := w\<rparr>)"
    using assms(1,4) by (simp add: RunCmd_def go_eval Let_def)
  then show ?thesis
    using assms(2) by (simp add: unmount_def go_eval)
qed

section \<open>Waiting for a device's size\<close>

lemma wrap64_shift90: "mul64 (mul64 (mul64 x GiB) GiB) GiB = 0"
proof -
  have "mul64 (mul64 (mul64 x GiB) GiB) GiB = wrap64 (x * GiB * GiB * GiB)"
    unfolding mul64_def by (metis wrap64_mult_left mult.assoc)
  also have "x * GiB * GiB * GiB = 2 ^ 64 * (2 ^ 26 * x)"
    by (simp add: GiB_def)
  also have "wrap64 (2 ^ 64 * (2 ^ 26 * x)) = 0"
    unfolding wrap64_def by (subst add.commute, subst mod_mult_self2) simp
  finally show ?thesis .
qed


text \<open>A host whose programs print nothing.\<close>

definition silent :: "'w env \<Rightarrow> bool" where
  "silent E \<longleftrightarrow> (\<forall>args w. fst (fst (x_exec E args w)) = [])"

lemma RunCmd_silent:
  assumes "silent E" and "TrimSpace c \<noteq> []"
  obtains err s' where "RunCmd E (c # cs) s = (Ret ([], err), s')"
proof -
  let ?args = "filter (\<lambda>c. c \<noteq> []) (map TrimSpace (c # cs))"
  have "RunCmd E (c # cs) s = (Ret (fst (x_exec E ?args (ext s))),
      s\<lparr>log := log s @ [Exec ?args], ext := snd (x_exec E ?args (ext s))\<rparr>)"
    using assms(2) by (simp add: RunCmd_def go_eval Let_def)
  moreover have "fst (x_exec E ?args (ext s)) = ([], snd (fst (x_exec E ?args (ext s))))"
    using assms(1) by (simp add: silent_def prod_eq_iff)
  ultimately show thesis
    by (metis that)
qed

lemma sizeLoop_silent:
  assumes "silent E"
  obtains s' where "sizeLoop E device (Suc n) x s =
    (if mul64 x GiB = 0 then (Ret (Inr ()), s') else sizeLoop E device n (mul64 x GiB) s')"
proof -
  have words: "TrimSpace ''iscsiadm'' \<noteq> []" "TrimSpace ''blockdev'' \<noteq> []"
    by (simp_all add: TrimSpace_def trimBytes_def isSpace_def)
  obtain e1 s1 where "RunCmd E [''iscsiadm'', ''-m'', ''session'', ''-R''] s = (Ret ([], e1), s1)"
    by (rule RunCmd_silent [OF assms words(1)])
  moreover obtain e2 s2 where "RunCmd E [''blockdev'', ''--getsize64'', device] s1 = (Ret ([], e2), s2)"
    by (rule RunCmd_silent [OF assms words(2)])
  ultimately show thesis
    by (intro that [of s2], subst sizeLoop.simps)
      (simp add: go_eval Let_def TrimSuffix_def ParseInt_def)
qed

text \<open>The size that is waited for is multiplied by 2^30 in every round, so that from the third
  round on it is 0, and 0 is also what an output that is no number counts as: on a host where
  \<open>blockdev\<close> (like every program) fails without output, the check succeeds for every size.\<close>

theorem checkDeviceSize_blind:
  assumes "silent E"
  shows "fst (checkDeviceSize E device gib s) = Ret (Inr ())"
proof -
  have steps: "(60 :: nat) = Suc (Suc (Suc 57))" by simp
  obtain s1 where 1: "sizeLoop E device (Suc (Suc (Suc 57))) gib s =
    (if mul64 gib GiB = 0 then (Ret (Inr ()), s1) else sizeLoop E device (Suc (Suc 57)) (mul64 gib GiB) s1)"
    by (rule sizeLoop_silent [OF assms])
  obtain s2 where 2: "sizeLoop E device (Suc (Suc 57)) (mul64 gib GiB) s1 =
    (if mul64 (mul64 gib GiB) GiB = 0 then (Ret (Inr ()), s2)
     else sizeLoop E device (Suc 57) (mul64 (mul64 gib GiB) GiB) s2)"
    by (rule sizeLoop_silent [OF assms])
  obtain s3 where "sizeLoop E device (Suc 57) (mul64 (mul64 gib GiB) GiB) s2 = (Ret (Inr ()), s3)"
    using sizeLoop_silent [OF assms, of device 57 "mul64 (mul64 gib GiB) GiB" s2]
    by (metis wrap64_shift90)
  with 1 2 show ?thesis
    unfolding checkDeviceSize_def steps by auto
qed

end
