(* ===== verification/Driver_Node.thy ===== *)
theory Driver_Node
  imports Driver_Core Client_Access Client_Mount
begin

text \<open>
  \<open>pkg/driver/node.go\<close>: the RPCs of the node service. The metadata map \<open>md\<close> and the volume \<open>vol\<close>
  are updated as the handlers go; a deferred clean-up, a panic and every early return are the
  source's.
\<close>

section \<open>Staging\<close>

definition StripAndServe ::
    "'w driver \<Rightarrow> rpc_ctx \<Rightarrow> string \<Rightarrow> (stage_req \<Rightarrow> csi_req) \<Rightarrow> stage_req \<Rightarrow>
     (rpc_ctx \<Rightarrow> smap \<Rightarrow> ('w, goerr + 'r) io) \<Rightarrow> ('w, goerr + 'r) io" where
  "StripAndServe D ctx funcName wrap req body =
     (let (secrets, chap) = StripSecretsAndGetChapParams (WithSecrets (sgq_Secrets req))
      in serve D ctx ''node'' funcName (wrap (req\<lparr>sgq_Secrets := secrets\<rparr>)) (\<lambda>ctxt. body ctxt chap))"

text \<open>Formatting, unless the volume or its metadata says it was done; \<open>strings.Split\<close> never
  returns an empty slice, so that the default arguments are not reached.\<close>

definition stageFormat ::
    "'w driver \<Rightarrow> volume \<Rightarrow> smap \<Rightarrow> string \<Rightarrow> ('w, goerr + volume \<times> smap) io" where
  "stageFormat D vol md fsType =
     (let args = splitOn CHR '' '' (mdGet md ''fs_args'');
          args = (if length args = 0 then (case DefaultFsArgs fsType of None \<Rightarrow> [] | Some a \<Rightarrow> a) else args)
      in if \<not> v_Formatted vol \<and> mdGet md ''formatted'' \<noteq> ''true'' then
           tryG (failWith D Unknown
                   (Format (dr_env D) vol fsType args (ev_FormatTimeout (dr_vars D)))) (\<lambda>vol.
           ret (Inr (vol\<lparr>v_Formatted := True\<rparr>, md(''formatted'' \<mapsto> ''true''))))
         else ret (Inr (vol, md)))"

definition stageMount ::
    "'w driver \<Rightarrow> volume \<Rightarrow> smap \<Rightarrow> vol_cap \<Rightarrow> string \<Rightarrow> ('w, goerr + volume \<times> smap) io" where
  "stageMount D vol md vc path = (case vcp_AccessType vc of
      MountAccess _ \<Rightarrow>
        let fsType = (if mdGet md ''fs_type'' = [] then Ext4 else mdGet md ''fs_type'')
        in tryG (stageFormat D vol md fsType) (\<lambda>(vol, md).
           tryG (failWith D Unknown
                   (Mount (dr_env D) vol path (splitOn CHR '' '' (mdGet md ''m_args'')) fsType)) (\<lambda>vol.
           ret (Inr (vol, md(''mount_path'' \<mapsto> v_MountPath vol)))))
    | BlockAccess \<Rightarrow> ret (Inr (vol, md(''mount_path'' \<mapsto> v_DevicePath vol)))
    | NoAccess \<Rightarrow> ret (Inl (StatusErr InvalidArgument ''Unknown volume capability'')))"

text \<open>\<open>vol.SetMetadata\<close> returns the map, which the handlers drop.\<close>

definition storeMetadata :: "'w driver \<Rightarrow> volume \<Rightarrow> smap \<Rightarrow> ('w, goerr + unit) io" where
  "storeMetadata D vol md =
     tryG (SetMetadata (dr_env D) (ev_MetadataDebug (dr_vars D)) vol md) (\<lambda>_. ret (Inr ()))"

definition NodeStageVolume :: "'w driver \<Rightarrow> rpc_ctx \<Rightarrow> stage_req \<Rightarrow> ('w, goerr + unit) io" where
  "NodeStageVolume D ctx req =
     StripAndServe D ctx ''NodeStageVolume'' ReqStage req (\<lambda>ctxt chap.
     let E = dr_env D in
     if sgq_VolumeId req = [] then
       ret (Inl (StatusErr InvalidArgument ''VolumeId cannot be empty''))
     else if sgq_StagingTargetPath req = [] then
       ret (Inl (StatusErr InvalidArgument (''StagingTargetPath cannot be empty. Kubelet on the worker node is '' @
         ''responsible for creating this StagingTargetPath directory.'')))
     else case sgq_VolumeCapability req of
       None \<Rightarrow> ret (Inl (StatusErr InvalidArgument ''VolumeCapability cannot be nil''))
     | Some vc \<Rightarrow>
         tryG (failWith D NotFound (GetVolume E (sgq_VolumeId req) False True)) (\<lambda>vol.
         tryG (failWith D Unknown (GetMetadata E (v_Ai vol))) (\<lambda>md.
         tryG (failWith D InvalidArgument (RegisterVolumeCapability D md (Some vc))) (\<lambda>md.
         tryG (failWith D Unknown (CreateGetInitiator E)) (\<lambda>ini.
         tryG (failWith D Unknown (RegisterAcl E vol ini)) (\<lambda>_.
         tryG (failWith D Unknown (Online E vol)) (\<lambda>vol.
         tryG (failWith D Unknown (Login E vol (\<not> ev_DisableMultipath (dr_vars D))
                 (mdGet md ''round_robin'' = ''true'') chap)) (\<lambda>vol.
         tryG (stageMount D vol (md(''device_path'' \<mapsto> v_DevicePath vol)) vc
                 (sgq_StagingTargetPath req)) (\<lambda>(vol, md).
         failWith D Unknown (storeMetadata D vol md))))))))))"

text \<open>Unstaging goes on after errors: \<open>orElse\<close> keeps the old value then.\<close>

definition orElse :: "('w, goerr + 'a) io \<Rightarrow> 'a \<Rightarrow> ('w, 'a) io" where
  "orElse m dflt = bindG m (\<lambda>r. ret (case r of Inl _ \<Rightarrow> dflt | Inr x \<Rightarrow> x))"

definition NodeUnstageVolume :: "'w driver \<Rightarrow> rpc_ctx \<Rightarrow> stage_req \<Rightarrow> ('w, goerr + unit) io" where
  "NodeUnstageVolume D ctx req =
     serve D ctx ''node'' ''NodeUnstageVolume'' (ReqUnstage req) (\<lambda>_.
     let E = dr_env D in
     if sgq_VolumeId req = [] then
       ret (Inl (StatusErr InvalidArgument ''VolumeId cannot be empty''))
     else if sgq_StagingTargetPath req = [] then
       ret (Inl (StatusErr InvalidArgument ''StagingTargetPath cannot be empty''))
     else
       tryG (failWith D NotFound (GetVolume E (sgq_VolumeId req) False True)) (\<lambda>vol.
       bindG (orElse (Unmount E vol) vol) (\<lambda>vol.
       bindG (orElse (GetMetadata E (v_Ai vol)) Map.empty) (\<lambda>md.
       let md = md(''mount_path'' \<mapsto> []) in
       bindG (storeMetadata D vol md) (\<lambda>_.
       bindG (orElse (Logout E vol) vol) (\<lambda>vol.
       bindG (orElse (CreateGetInitiator E) None) (\<lambda>ini.
       bindG (UnregisterAcl E vol ini) (\<lambda>_.
       bindG (if mdGet md ''delete_on_unmount'' = ''true'' then Delete E vol False
              else ret (Inr ())) (\<lambda>_.
       ret (Inr ()))))))))))"

section \<open>Publishing\<close>

text \<open>The pod's details, each only when it is there.\<close>

definition putNonEmpty :: "string \<Rightarrow> string \<Rightarrow> smap \<Rightarrow> smap" where
  "putNonEmpty k v md = (if v = [] then md else md(k \<mapsto> v))"

definition podDetails :: "smap option \<Rightarrow> smap \<Rightarrow> smap" where
  "podDetails ctx md = (case ctx of
      None \<Rightarrow> md
    | Some c \<Rightarrow>
        putNonEmpty ''k8s_service_account'' (mdGet c ''csi.storage.k8s.io/serviceAccount.name'')
          (putNonEmpty ''pod_uid'' (mdGet c ''csi.storage.k8s.io/pod.uid'')
            (putNonEmpty ''pod_namespace'' (mdGet c ''csi.storage.k8s.io/pod.namespace'')
              (putNonEmpty ''pod_name'' (mdGet c ''csi.storage.k8s.io/pod.name'') md))))"

text \<open>The lookup's error is not looked at: a failed lookup is a nil volume.\<close>

definition NodePublishVolume :: "'w driver \<Rightarrow> rpc_ctx \<Rightarrow> publish_req \<Rightarrow> ('w, goerr + unit) io" where
  "NodePublishVolume D ctx req =
     serve D ctx ''node'' ''NodePublishVolume'' (ReqPublish req) (\<lambda>_.
     let E = dr_env D in
     if pbq_VolumeId req = [] then
       ret (Inl (StatusErr InvalidArgument ''VolumeId cannot be empty''))
     else if pbq_StagingTargetPath req = [] then
       ret (Inl (StatusErr InvalidArgument ''StagingTargetPath cannot be empty''))
     else if pbq_TargetPath req = [] then
       ret (Inl (StatusErr InvalidArgument ''TargetPath cannot be empty''))
     else
       bindG (GetVolume E (pbq_VolumeId req) False True) (\<lambda>r.
       case pbq_VolumeCapability req of
         None \<Rightarrow> ret (Inl (StatusErr InvalidArgument ''VolumeCapability cannot be nil''))
       | Some vc \<Rightarrow>
           bindG (derefG (case r of Inl _ \<Rightarrow> None | Inr v \<Rightarrow> Some v)) (\<lambda>vol.
           tryG (failWith D Unknown (GetMetadata E (v_Ai vol))) (\<lambda>md.
           tryG (failWith D InvalidArgument (RegisterVolumeCapability D md (Some vc))) (\<lambda>md.
           bindG (derefG (v_BindMountPaths vol)) (\<lambda>ps.
           let ps = fold (x_ss_add E) (splitOn CHR '','' (mdGet md ''bind_mount'')) ps;
               vol = vol\<lparr>v_BindMountPaths := Some ps\<rparr>
           in tryG (failWith D Unknown (BindMount E vol (pbq_TargetPath req) (mdGet md ''fs_type''))) (\<lambda>vol.
              bindG (derefG (v_BindMountPaths vol)) (\<lambda>ps.
              let md = md(''bind_mount'' \<mapsto> joinWith '','' (x_ss_list E ps))
              in failWith D Unknown
                   (storeMetadata D vol (podDetails (pbq_VolumeContext req) md))))))))))"

definition NodeUnpublishVolume :: "'w driver \<Rightarrow> rpc_ctx \<Rightarrow> publish_req \<Rightarrow> ('w, goerr + unit) io" where
  "NodeUnpublishVolume D ctx req =
     serve D ctx ''node'' ''NodeUnpublishVolume'' (ReqUnpublish req) (\<lambda>_.
     let E = dr_env D in
     if pbq_VolumeId req = [] then
       ret (Inl (StatusErr InvalidArgument ''VolumeId cannot be empty''))
     else if pbq_TargetPath req = [] then
       ret (Inl (StatusErr InvalidArgument ''TargetPath cannot be empty''))
     else
       tryG (failWith D NotFound (GetVolume E (pbq_VolumeId req) False True)) (\<lambda>vol.
       tryG (failWith D Unknown (GetMetadata E (v_Ai vol))) (\<lambda>md.
       bindG (derefG (v_BindMountPaths vol)) (\<lambda>ps.
       let ps = fold (x_ss_delete E) (splitOn CHR '','' (mdGet md ''bind_mount'')) ps;
           vol = vol\<lparr>v_BindMountPaths := Some ps\<rparr>;
           md = md(''pod_name'' \<mapsto> [], ''pod_namespace'' \<mapsto> [], ''pod_uid'' \<mapsto> [],
                   ''k8s_service_account'' \<mapsto> [])
       in tryG (failWith D Unknown (storeMetadata D vol md)) (\<lambda>_.
          bindG (UnBindMount E vol (pbq_TargetPath req)) (\<lambda>_. ret (Inr ())))))))"

section \<open>Information\<close>

text \<open>The key of \<open>NodeGetCapabilities\<close> carries another function's name.\<close>

definition NodeGetCapabilities :: "'w driver \<Rightarrow> rpc_ctx \<Rightarrow> csi_req \<Rightarrow> ('w, goerr + string list) io" where
  "NodeGetCapabilities D ctx req =
     serve D ctx ''node'' ''NodeGetVolumeStats'' req (\<lambda>_.
       ret (Inr [''STAGE_UNSTAGE_VOLUME'', ''GET_VOLUME_STATS'', ''EXPAND_VOLUME'']))"

definition NodeGetInfo :: "'w driver \<Rightarrow> rpc_ctx \<Rightarrow> csi_req \<Rightarrow> ('w, goerr + string \<times> int) io" where
  "NodeGetInfo D ctx req =
     serve D ctx ''node'' ''NodeGetInfo'' req (\<lambda>_.
       ret (Inr (dr_nid D, ev_VolPerNode (dr_vars D))))"

definition NodeGetVolumeStats :: "'w driver \<Rightarrow> rpc_ctx \<Rightarrow> string \<Rightarrow> ('w, goerr + volume_usage) io" where
  "NodeGetVolumeStats D ctx vid =
     serve D ctx ''node'' ''NodeGetVolumeStats'' (ReqVolumeStats vid) (\<lambda>_.
       tryG (failWith D NotFound (GetVolume (dr_env D) vid False False)) (\<lambda>v.
       bindG (GetUsage v) (\<lambda>(sz, used, avail).
       ret (Inr \<lparr>us_Available = mul64 avail GiB, us_Total = mul64 sz GiB,
         us_Used = mul64 used GiB\<rparr>))))"

definition NodeExpandVolume :: "'w driver \<Rightarrow> rpc_ctx \<Rightarrow> expand_req \<Rightarrow> ('w, goerr + int) io" where
  "NodeExpandVolume D ctx req =
     serve D ctx ''node'' ''NodeExpandVolume'' (ReqExpand req) (\<lambda>_.
       tryG (failWith D NotFound (GetVolume (dr_env D) (exq_VolumeId req) False False)) (\<lambda>v.
       tryG (failWith D Unknown (GetMetadata (dr_env D) (v_Ai v))) (\<lambda>md.
       bindG (derefG (map_option fillLimit (exq_CapacityRange req))) (\<lambda>cr.
       tryG (failWith D FailedPrecondition
               (ExpandFs (dr_env D) (exq_VolumePath req) (mdGet md ''fs_type'')
                 (quot64 (cr_RequiredBytes cr) GiB))) (\<lambda>_.
       ret (Inr (cr_RequiredBytes cr)))))))"

section \<open>Effects\<close>

lemma orElse_frame [frame_intros]: "frame (logs Q) m \<Longrightarrow> frame (logs Q) (orElse m d)"
  "frame (keeps f) m \<Longrightarrow> frame (keeps f) (orElse m d)"
  by (auto simp: orElse_def intro!: frame_intros)

lemma storeMetadata_frame [frame_intros]:
  "(\<And>n. Q (MdGet n)) \<Longrightarrow> (\<And>n md. Q (MdSet n md)) \<Longrightarrow> frame (logs Q) (storeMetadata D vol md)"
  "frame (keeps driver_fields) (storeMetadata D vol md)"
  by (auto simp: storeMetadata_def intro!: frame_intros)

lemma stageMount_frame [frame_intros]:
  "frame (keeps driver_fields) (stageMount D vol md vc path)"
  by (auto simp: stageMount_def stageFormat_def Let_def split_beta intro!: frame_intros
      split: access_type.splits prod.splits)

lemma node_frame [frame_intros]:
  "frame (keeps driver_fields) (NodeStageVolume D ctx req)"
  "frame (keeps driver_fields) (NodeUnstageVolume D ctx req)"
  "frame (keeps driver_fields) (NodePublishVolume D ctx preq)"
  "frame (keeps driver_fields) (NodeUnpublishVolume D ctx preq)"
  "frame (keeps driver_fields) (NodeGetCapabilities D ctx r)"
  "frame (keeps driver_fields) (NodeGetInfo D ctx r)"
  "frame (keeps driver_fields) (NodeGetVolumeStats D ctx vid)"
  "frame (keeps driver_fields) (NodeExpandVolume D ctx ereq)"
  unfolding NodeStageVolume_def NodeUnstageVolume_def NodePublishVolume_def NodeUnpublishVolume_def
    NodeGetCapabilities_def NodeGetInfo_def NodeGetVolumeStats_def NodeExpandVolume_def
    StripAndServe_def
  by (auto simp: Let_def split_beta intro!: frame_intros split: prod.splits)

section \<open>Unstaging and the data\<close>

lemma host_not_destroys [frame_intros]:
  "frame (logs (\<lambda>e. \<not> destroys e)) (Unmount E v)"
  "frame (logs (\<lambda>e. \<not> destroys e)) (Logout E v)"
  "frame (logs (\<lambda>e. \<not> destroys e)) (CreateGetInitiator E)"
  "frame (logs (\<lambda>e. \<not> destroys e)) (UnregisterAcl E v ini)"
  unfolding Unmount_def unmount_def Logout_def CreateGetInitiator_def GetClientIqn_def toInitiator_def
    UnregisterAcl_def updateAcl_def Let_def
  by (intro frame_intros; simp)+

text \<open>Unstaging a volume deletes nothing, unless the metadata the backend returns say
  \<open>delete_on_unmount\<close>.\<close>

theorem NodeUnstage_keeps_volume:
  assumes "\<And>ai w md. fst (fst (x_md_get (dr_env D) ai w)) = Some md \<Longrightarrow> mdGet md ''delete_on_unmount'' \<noteq> ''true''"
  shows "frame (logs (\<lambda>e. \<not> destroys e)) (NodeUnstageVolume D ctx req)"
proof -
  let ?E = "dr_env D" and ?Q = "\<lambda>e. \<not> destroys e"
  have read: "frame (logs ?Q) (GetVolume ?E n False True)" for n
    by (rule GetVolume_reads) (rule reads_not_destroys)
  have md: "mdGet md ''delete_on_unmount'' \<noteq> ''true''"
    if "orElse (GetMetadata ?E ai) Map.empty s = (Ret md, s')" for ai s s' md
    using that assms [of ai "ext s"]
    by (auto simp: orElse_def GetMetadata_def go_eval derefG_def sdkResult_def mdGet_def
        split: prod.splits outcome.splits option.splits sum.splits)
  have rest: "frame (logs ?Q) (bindG (storeMetadata D vol (md(''mount_path'' \<mapsto> []))) (\<lambda>_.
      bindG (orElse (Logout ?E vol) vol) (\<lambda>vol.
      bindG (orElse (CreateGetInitiator ?E) None) (\<lambda>ini.
      bindG (UnregisterAcl ?E vol ini) (\<lambda>_.
      bindG (if mdGet (md(''mount_path'' \<mapsto> [])) ''delete_on_unmount'' = ''true'' then Delete ?E vol False
             else ret (Inr ())) (\<lambda>_. ret (Inr ())))))))"
    if "mdGet md ''delete_on_unmount'' \<noteq> ''true''" for vol md
  proof -
    have "mdGet (md(''mount_path'' \<mapsto> [])) ''delete_on_unmount'' \<noteq> ''true''"
      using that by (simp add: mdGet_def)
    then show ?thesis
      by (simp only: if_False) (intro frame_intros; simp)
  qed
  show ?thesis
    unfolding NodeUnstageVolume_def Let_def
    by (intro serve_logs frame_branches lg.frame_ret lg.frame_try lg.frame_bind failWith_frame read
        orElse_frame host_not_destroys lg.frame_bind_post [where m = "orElse (GetMetadata ?E (v_Ai vol)) Map.empty" for vol, OF _ md rest]
        GetMetadata_frame) simp_all
qed

section \<open>Publishing a volume that is not there\<close>

lemma running_undone:
  "\<not> isRunning k s \<Longrightarrow> clearRunning k ((setRunning k s)\<lparr>log := l, ext := w\<rparr>) = s\<lparr>log := l, ext := w\<rparr>"
  by (cases s) (simp add: isRunning_def setRunning_def clearRunning_def)

text \<open>Publishing a volume that the backend does not find is a nil dereference, not an error.\<close>

theorem NodePublish_missing_panics:
  assumes "ctx_TraceId ctx = Some t" and "t \<noteq> []"
    and "\<not> isRunning (callKey D ''node'' ''NodePublishVolume'' (ReqPublish req)) s"
    and "pbq_VolumeId req \<noteq> []" and "pbq_StagingTargetPath req \<noteq> []" and "pbq_TargetPath req \<noteq> []"
    and "pbq_VolumeCapability req = Some vc"
    and "x_ai_get (dr_env D) (pbq_VolumeId req) (ext s) = ((p, Some a, None), w)"
  shows "NodePublishVolume D ctx req s =
    (Panic ''invalid memory address or nil pointer dereference'',
     s\<lparr>log := log s @ [AiGet (pbq_VolumeId req)], ext := w\<rparr>)"
proof -
  have "ext (setRunning k s) = ext s" "log (setRunning k s) = log s" for k
    by (simp_all add: setRunning_def)
  then show ?thesis
    using assms running_undone [OF assms(3)]
    by (simp add: NodePublishVolume_def serve_run GetVolume_def go_eval sdkResult_def Let_def)
qed

end
