(* ===== verification/Driver_Identity.thy ===== *)
theory Driver_Identity
  imports Driver_Core
begin

text \<open>\<open>pkg/driver/identity.go\<close>: the three RPCs of the identity service.\<close>

definition manifestMap :: "manifest \<Rightarrow> smap" where
  "manifestMap mf = map_of
     [(''build_version'', mf_BuildVersion mf),
      (''callhome_enabled'', mf_CallhomeEnabled mf),
      (''compression_enabled'', mf_CompressionEnabled mf),
      (''health'', mf_Health mf),
      (''l3_enabled'', mf_L3Enabled mf),
      (''name'', mf_Name mf),
      (''op_state'', mf_OpState mf),
      (''sw_version'', mf_SwVersion mf),
      (''timezone'', mf_Timezone mf),
      (''uuid'', mf_Uuid mf)]"

text \<open>The manifest is asked for once and kept in the driver.\<close>

definition getManifestData :: "'w driver \<Rightarrow> ('w, goerr + smap) io" where
  "getManifestData D =
     bindG getG (\<lambda>s.
     tryG (case d_manifest s of
             None \<Rightarrow> tryG (GetManifest (dr_env D)) (\<lambda>mf.
                     bindG (updG (\<lambda>s. s\<lparr>d_manifest := Some mf\<rparr>)) (\<lambda>_. ret (Inr ())))
           | Some _ \<Rightarrow> ret (Inr ())) (\<lambda>_.
     bindG getG (\<lambda>s.
     bindG (derefG (d_manifest s)) (\<lambda>mf. ret (Inr (manifestMap mf))))))"

definition GetPluginInfo :: "'w driver \<Rightarrow> rpc_ctx \<Rightarrow> csi_req \<Rightarrow> ('w, goerr + plugin_info) io" where
  "GetPluginInfo D ctx req =
     serve D ctx ''identity'' ''GetPluginInfo'' req (\<lambda>_.
       tryG (failWith D Unavailable (getManifestData D)) (\<lambda>m.
       bindG getG (\<lambda>s.
       ret (Inr
         \<lparr>pi_Name = dr_name D,
          pi_VendorVersion = joinWith '';'' [dr_version D, d_vendorVersion s],
          pi_Manifest = m\<rparr>))))"

definition GetPluginCapabilities :: "'w driver \<Rightarrow> rpc_ctx \<Rightarrow> csi_req \<Rightarrow> ('w, goerr + string list) io" where
  "GetPluginCapabilities D ctx req =
     serve D ctx ''identity'' ''GetPluginCapabilities'' req (\<lambda>_.
       ret (Inr [''CONTROLLER_SERVICE'', ''ONLINE'', ''OFFLINE'']))"

definition Probe :: "'w driver \<Rightarrow> rpc_ctx \<Rightarrow> csi_req \<Rightarrow> ('w, goerr + bool) io" where
  "Probe D ctx req =
     serve D ctx ''identity'' ''Probe'' req (\<lambda>_. bindG getG (\<lambda>s. ret (Inr (healthy s))))"

section \<open>The manifest\<close>

lemma getManifestData_cached:
  "d_manifest s = Some mf \<Longrightarrow> getManifestData D s = (Ret (Inr (manifestMap mf)), s)"
  by (simp add: getManifestData_def go_eval)

lemma GetManifest_fields: "frame (keeps driver_fields) (GetManifest E)"
  by (intro frame_intros)

lemma getManifestData_result:
  assumes "getManifestData D s = (Ret (Inr m), s')"
  shows "\<exists>mf. d_manifest s' = Some mf \<and> m = manifestMap mf \<and> rpcStatus s' = rpcStatus s"
proof (cases "d_manifest s")
  case (Some mf)
  with assms show ?thesis by (auto simp: getManifestData_cached)
next
  case None
  obtain r t where g: "GetManifest (dr_env D) s = (r, t)" by fastforce
  have "rpcStatus t = rpcStatus s"
    using frameD [OF GetManifest_fields g] by (simp add: keeps_def driver_fields_def)
  with None g assms show ?thesis
    by (auto simp: getManifestData_def go_eval split: outcome.splits sum.splits)
qed

text \<open>\<open>GetPluginInfo\<close> asks the backend at most once: after a call that succeeded, the next one
  gives the same answer and makes no call at all, whatever the backend would say by then.\<close>

theorem GetPluginInfo_cached:
  assumes "ctx_TraceId ctx = Some t" and "t \<noteq> []"
    and "GetPluginInfo D ctx req s = (Ret (Inr info), s')"
  shows "GetPluginInfo D ctx req s' = (Ret (Inr info), s')"
proof -
  let ?k = "callKey D ''identity'' ''GetPluginInfo'' req"
  note serve = serve_run [OF assms(1,2)]
  have free: "\<not> isRunning ?k s"
    using assms(3) by (auto simp: GetPluginInfo_def serve Let_def split: if_splits)
  obtain m u where m: "getManifestData D (setRunning ?k s) = (Ret (Inr m), u)"
    and info: "info = \<lparr>pi_Name = dr_name D, pi_VendorVersion = joinWith '';'' [dr_version D, d_vendorVersion u], pi_Manifest = m\<rparr>"
    and s': "s' = clearRunning ?k u"
    using assms(3) free
    by (auto simp: GetPluginInfo_def serve Let_def go_eval failWith_def
        split: prod.splits outcome.splits sum.splits)
  obtain mf where mf: "d_manifest u = Some mf" "m = manifestMap mf" "rpcStatus u = insert ?k (rpcStatus s)"
    using getManifestData_result [OF m] by (auto simp: setRunning_def)
  have "clearRunning ?k (setRunning ?k s') = s'"
    by (simp add: s' setRunning_def clearRunning_def)
  moreover have "getManifestData D (setRunning ?k s') = (Ret (Inr m), setRunning ?k s')"
    using mf by (simp add: s' setRunning_def clearRunning_def getManifestData_cached)
  moreover have "\<not> isRunning ?k s'"
    by (simp add: s' isRunning_def clearRunning_def)
  ultimately show ?thesis
    by (simp add: GetPluginInfo_def serve Let_def go_eval failWith_def info)
      (simp add: s' setRunning_def clearRunning_def)
qed

text \<open>No identity RPC leaves a trace in the table of calls.\<close>

lemma identity_table [frame_intros]:
  "frame (keeps rpcStatus) (Probe D ctx req)"
  "frame (keeps rpcStatus) (GetPluginCapabilities D ctx req)"
  unfolding Probe_def GetPluginCapabilities_def by (intro frame_intros)+

text \<open>\<open>Probe\<close> answers the health flag, changes nothing and calls nothing.\<close>

theorem Probe_reports:
  assumes "ctx_TraceId ctx = Some t" and "t \<noteq> []"
    and "\<not> isRunning (callKey D ''identity'' ''Probe'' req) s"
  shows "Probe D ctx req s = (Ret (Inr (healthy s)), s)"
proof -
  have "clearRunning k (setRunning k s) = s" if "\<not> isRunning k s" for k
    using that by (cases s) (simp add: isRunning_def setRunning_def clearRunning_def)
  then show ?thesis
    using assms by (simp add: Probe_def serve_run go_eval Let_def) (simp add: setRunning_def)
qed

end
