(* ===== verification/Common_Log.thy ===== *)
theory Common_Log
  imports Common_Util
begin

text \<open>
  \<open>pkg/common/log.go\<close>: the logging functions over the logrus package, and the formatter they
  install. A log entry's data are a map; the order in which it is ranged over, the caller of a
  logging function, the clock and \<open>fmt\<close>'s formatting of arguments are parameters. The state is the
  text written so far. The models of the other files leave their logging out; what it can do to
  a run is what is shown here: it needs a context with both values, and it writes at most two
  lines.
\<close>

section \<open>Definitions\<close>

datatype level = DebugLevel | InfoLevel | WarnLevel | ErrorLevel | FatalLevel

text \<open>A field of an entry and an argument of a format: a number, or a text as \<open>fmt\<close> prints it.\<close>

datatype log_value = LogInt int | LogText string

record logger =
  lo_caller :: "(string \<times> int \<times> string) option"  \<comment> \<open>file, line and function\<close>
  lo_order :: "(string \<times> log_value) list \<Rightarrow> (string \<times> log_value) list"
  lo_now :: string
  lo_sprintf :: "string \<Rightarrow> log_value list \<Rightarrow> string"

record log_entry =
  en_Level :: level
  en_Message :: string
  en_Data :: "(string \<times> log_value) list"

type_synonym 'a logging = "(string, 'a) go"

definition ReqName :: string where "ReqName = ''req''"

definition TraceId :: string where "TraceId = ''tid''"

text \<open>\<open>level.String()\<close>, in upper case.\<close>

fun levelText :: "level \<Rightarrow> string" where
  "levelText DebugLevel = ''DEBUG''"
| "levelText InfoLevel = ''INFO''"
| "levelText WarnLevel = ''WARNING''"
| "levelText ErrorLevel = ''ERROR''"
| "levelText FatalLevel = ''FATAL''"

definition fieldText :: "string \<Rightarrow> log_value \<Rightarrow> string" where
  "fieldText f v = f @ '': '' @ (case v of LogInt n \<Rightarrow> FormatInt n | LogText t \<Rightarrow> t)"

fun fieldsText :: "string \<Rightarrow> (string \<times> log_value) list \<Rightarrow> string" where
  "fieldsText fstring [] = fstring"
| "fieldsText fstring ((f, v) # fs) = fieldsText (joinWith '' '' [fstring, fieldText f v]) fs"

definition FormatEntry :: "logger \<Rightarrow> log_entry \<Rightarrow> string" where
  "FormatEntry L entry =
     lo_now L @ '' '' @ levelText (en_Level entry) @ '' '' @ TrimSpace (en_Message entry) @ '' ||> '' @
     fieldsText [] (lo_order L (en_Data entry)) @ [CHR 10]"

text \<open>\<open>WithField\<close> adds to the entry's data, a map.\<close>

definition WithField :: "string \<Rightarrow> log_value \<Rightarrow> (string \<times> log_value) list \<Rightarrow> (string \<times> log_value) list" where
  "WithField k v fs = (k, v) # filter (\<lambda>(k', _). k' \<noteq> k) fs"

definition DecorateRuntimeContext :: "logger \<Rightarrow> (string \<times> log_value) list \<Rightarrow> (string \<times> log_value) list" where
  "DecorateRuntimeContext L fs = (case lo_caller L of
      Some (file, line, fName) \<Rightarrow>
        WithField ''func'' (LogText fName) (WithField ''line'' (LogInt line) (WithField ''file'' (LogText file) fs))
    | None \<Rightarrow> fs)"

definition assertString :: "string option \<Rightarrow> string logging" where
  "assertString v = (case v of
      None \<Rightarrow> panic ''interface conversion: interface is nil, not string''
    | Some t \<Rightarrow> ret t)"

definition logHelper :: "logger \<Rightarrow> rpc_ctx \<Rightarrow> (string \<times> log_value) list logging" where
  "logHelper L ctxt =
     bindG (assertString (ctx_ReqName ctxt)) (\<lambda>reqname.
     bindG (assertString (ctx_TraceId ctxt)) (\<lambda>tid.
     ret (DecorateRuntimeContext L [(ReqName, LogText reqname), (TraceId, LogText tid)])))"

text \<open>An entry is formatted and written; every level is enabled. After a fatal entry the process
  exits.\<close>

definition emit :: "logger \<Rightarrow> level \<Rightarrow> string \<Rightarrow> (string \<times> log_value) list \<Rightarrow> unit logging" where
  "emit L lev msg fs =
     bindG (updG (\<lambda>out. out @ FormatEntry L \<lparr>en_Level = lev, en_Message = msg, en_Data = fs\<rparr>)) (\<lambda>_.
     if lev = FatalLevel then panic ''exit status 1'' else ret ())"

text \<open>\<open>Debug\<close>, \<open>Info\<close>, \<open>Warning\<close>, \<open>Error\<close> and \<open>Fatal\<close>: a value's text without a format.\<close>

definition logText :: "logger \<Rightarrow> level \<Rightarrow> rpc_ctx \<Rightarrow> string \<Rightarrow> unit logging" where
  "logText L lev ctxt s = bindG (logHelper L ctxt) (emit L lev s)"

definition Debug :: "logger \<Rightarrow> rpc_ctx \<Rightarrow> string \<Rightarrow> unit logging" where
  "Debug L = logText L DebugLevel"

definition Info :: "logger \<Rightarrow> rpc_ctx \<Rightarrow> string \<Rightarrow> unit logging" where
  "Info L = logText L InfoLevel"

definition Warning :: "logger \<Rightarrow> rpc_ctx \<Rightarrow> string \<Rightarrow> unit logging" where
  "Warning L = logText L WarnLevel"

definition Error :: "logger \<Rightarrow> rpc_ctx \<Rightarrow> string \<Rightarrow> unit logging" where
  "Error L = logText L ErrorLevel"

definition Fatal :: "logger \<Rightarrow> rpc_ctx \<Rightarrow> string \<Rightarrow> unit logging" where
  "Fatal L = logText L FatalLevel"

text \<open>\<open>strings.Count\<close>: occurrences that do not overlap, of a non-empty text.\<close>

function countOf :: "string \<Rightarrow> string \<Rightarrow> nat" where
  "countOf t s =
     (if s = [] \<or> t = [] then 0
      else if prefix t s then Suc (countOf t (drop (length t) s))
      else countOf t (tl s))"
  by pat_completeness auto
termination
  by (relation "measure (\<lambda>(t, s). length s)") (auto simp: length_greater_0_conv [symmetric] simp del: length_greater_0_conv)

declare countOf.simps [simp del]

definition verbs :: "string list" where
  "verbs = [''%s'', ''%f'', ''%d'', ''%v'', ''%#v'', ''%t'', ''%p'', ''%+v'']"

definition verbCount :: "string \<Rightarrow> nat" where
  "verbCount s = fold (\<lambda>f c. c + countOf f s) verbs 0"

definition wrongArgs :: string where
  "wrongArgs = ''Wrong number of args for format string, [%d != %d]'' @ [CHR 10]"

definition withNewline :: "string \<Rightarrow> string" where
  "withNewline s = (if suffix [CHR 10] s then s else joinWith [] [s, [CHR 10]])"

lemma wrongArgs_verbs: "verbCount wrongArgs = 2"
  by code_simp

text \<open>\<open>checkArgs\<close> warns of a wrong number of arguments, by \<open>Warningf\<close>, which checks its own format in
  turn; that one has the right number. \<open>logf\<close> is the common part of \<open>Debugf\<close> to \<open>Fatalf\<close>.\<close>

function checkArgs :: "logger \<Rightarrow> rpc_ctx \<Rightarrow> string \<Rightarrow> log_value list \<Rightarrow> string logging"
  and logf :: "logger \<Rightarrow> level \<Rightarrow> rpc_ctx \<Rightarrow> string \<Rightarrow> log_value list \<Rightarrow> unit logging" where
  "checkArgs L ctxt s args =
     bindG (if verbCount s \<noteq> length args
            then logf L WarnLevel ctxt wrongArgs [LogInt (int (length args)), LogInt (int (verbCount s))]
            else ret ()) (\<lambda>_.
     ret (withNewline s))"
| "logf L lev ctxt s args =
     bindG (checkArgs L ctxt s args) (\<lambda>s.
     bindG (logHelper L ctxt) (emit L lev (lo_sprintf L s args)))"
  by pat_completeness auto
termination
  by (relation "measure (\<lambda>x. case x of
        Inl (_, _, s, args) \<Rightarrow> (if verbCount s = length args then 0 else 2)
      | Inr (_, _, _, s, args) \<Rightarrow> (if verbCount s = length args then 1 else 3))")
    (simp_all add: wrongArgs_verbs)

declare checkArgs.simps [simp del] logf.simps [simp del]

definition Debugf :: "logger \<Rightarrow> rpc_ctx \<Rightarrow> string \<Rightarrow> log_value list \<Rightarrow> unit logging" where
  "Debugf L = logf L DebugLevel"

definition Infof :: "logger \<Rightarrow> rpc_ctx \<Rightarrow> string \<Rightarrow> log_value list \<Rightarrow> unit logging" where
  "Infof L = logf L InfoLevel"

definition Warningf :: "logger \<Rightarrow> rpc_ctx \<Rightarrow> string \<Rightarrow> log_value list \<Rightarrow> unit logging" where
  "Warningf L = logf L WarnLevel"

definition Errorf :: "logger \<Rightarrow> rpc_ctx \<Rightarrow> string \<Rightarrow> log_value list \<Rightarrow> unit logging" where
  "Errorf L = logf L ErrorLevel"

definition Fatalf :: "logger \<Rightarrow> rpc_ctx \<Rightarrow> string \<Rightarrow> log_value list \<Rightarrow> unit logging" where
  "Fatalf L = logf L FatalLevel"

section \<open>What a logging call writes\<close>

definition logFields :: "logger \<Rightarrow> string \<Rightarrow> string \<Rightarrow> (string \<times> log_value) list" where
  "logFields L req tid = DecorateRuntimeContext L [(ReqName, LogText req), (TraceId, LogText tid)]"

definition logLine :: "logger \<Rightarrow> level \<Rightarrow> string \<Rightarrow> string \<Rightarrow> string \<Rightarrow> string" where
  "logLine L lev msg req tid =
     FormatEntry L \<lparr>en_Level = lev, en_Message = msg, en_Data = logFields L req tid\<rparr>"

lemma logHelper_run:
  assumes "ctx_ReqName ctxt = Some req" and "ctx_TraceId ctxt = Some tid"
  shows "logHelper L ctxt = ret (logFields L req tid)"
  using assms by (simp add: logHelper_def assertString_def logFields_def)

lemma logHelper_nil:
  assumes "ctx_ReqName ctxt = None \<or> ctx_TraceId ctxt = None"
  shows "logHelper L ctxt s = (Panic ''interface conversion: interface is nil, not string'', s)"
  using assms by (auto simp: logHelper_def assertString_def go_eval split: option.splits)

lemma logf_right:
  assumes "ctx_ReqName ctxt = Some req" and "ctx_TraceId ctxt = Some tid"
    and "verbCount s = length args"
  shows "logf L lev ctxt s args out =
    (if lev = FatalLevel then Panic ''exit status 1'' else Ret (),
     out @ logLine L lev (lo_sprintf L (withNewline s) args) req tid)"
  by (simp add: logf.simps checkArgs.simps assms(3) logHelper_run [OF assms(1,2)] emit_def go_eval logLine_def)

text \<open>With both values in the context, a call of \<open>Debugf\<close> to \<open>Fatalf\<close> writes the line of its
  message, the format ended by a newline; before it one line of warning, in the warning level,
  exactly when the number of arguments is not the number of verbs. The check of the warning's own
  format goes no deeper. Only a fatal call ends the process.\<close>

theorem logf_writes:
  assumes "ctx_ReqName ctxt = Some req" and "ctx_TraceId ctxt = Some tid"
  shows "logf L lev ctxt s args out =
    (if lev = FatalLevel then Panic ''exit status 1'' else Ret (),
     out @ (if verbCount s = length args then []
            else logLine L WarnLevel (lo_sprintf L wrongArgs [LogInt (int (length args)), LogInt (int (verbCount s))]) req tid) @
     logLine L lev (lo_sprintf L (withNewline s) args) req tid)"
proof (cases "verbCount s = length args")
  case True
  then show ?thesis by (simp add: logf_right [OF assms])
next
  case False
  have "suffix [CHR 10] wrongArgs" by code_simp
  then have w: "withNewline wrongArgs = wrongArgs" by (simp add: withNewline_def)
  have "logf L WarnLevel ctxt wrongArgs [LogInt (int (length args)), LogInt (int (verbCount s))] out =
      (Ret (), out @ logLine L WarnLevel
        (lo_sprintf L wrongArgs [LogInt (int (length args)), LogInt (int (verbCount s))]) req tid)"
    by (subst logf_right [OF assms]) (simp_all add: wrongArgs_verbs w)
  with False show ?thesis
    by (subst logf.simps, subst checkArgs.simps)
      (simp add: logHelper_run [OF assms] emit_def go_eval logLine_def)
qed

theorem logf_writes_witness:
  "logf \<lparr>lo_caller = None, lo_order = id, lo_now = ''now'', lo_sprintf = (\<lambda>f _. f)\<rparr> InfoLevel
     (topctxt\<lparr>ctx_ReqName := Some ''r'', ctx_TraceId := Some ''t''\<rparr>) ''%s'' [] [] =
   (Ret (), ''now WARNING Wrong number of args for format string, [%d != %d] ||>  req: r tid: t'' @ [CHR 10] @
     ''now INFO %s ||>  req: r tid: t'' @ [CHR 10])"
proof -
  have v: "verbCount ''%s'' = 1" by code_simp
  have t: "TrimSpace wrongArgs = ''Wrong number of args for format string, [%d != %d]''"
    "TrimSpace (withNewline ''%s'') = ''%s''" by code_simp+
  show ?thesis
    by (subst logf_writes [of _ "''r''" "''t''"])
      (simp_all add: v t topctxt_def logLine_def logFields_def DecorateRuntimeContext_def FormatEntry_def
        fieldText_def ReqName_def TraceId_def)
qed

text \<open>A logging call whose context lacks the request's name or the trace id panics, at
  whatever level, and writes nothing.\<close>

theorem logging_needs_context:
  assumes "ctx_ReqName ctxt = None \<or> ctx_TraceId ctxt = None"
  shows "logf L lev ctxt s args out = (Panic ''interface conversion: interface is nil, not string'', out) \<and>
    logText L lev ctxt msg out = (Panic ''interface conversion: interface is nil, not string'', out)"
proof -
  have one: "logf L lev ctxt s args out = (Panic ''interface conversion: interface is nil, not string'', out)"
    if "verbCount s = length args" for lev s args
    by (simp add: logf.simps checkArgs.simps that go_eval logHelper_nil [OF assms])
  have "logf L lev ctxt s args out = (Panic ''interface conversion: interface is nil, not string'', out)"
  proof (cases "verbCount s = length args")
    case False
    then show ?thesis
      by (subst logf.simps, subst checkArgs.simps) (simp add: go_eval one wrongArgs_verbs)
  qed (rule one)
  then show ?thesis by (simp add: logText_def go_eval logHelper_nil [OF assms])
qed

section \<open>One entry, one line\<close>

abbreviation newlines :: "string \<Rightarrow> nat" where
  "newlines s \<equiv> count_list s (CHR 10)"

definition valueText :: "log_value \<Rightarrow> string" where
  "valueText v = (case v of LogInt n \<Rightarrow> FormatInt n | LogText t \<Rightarrow> t)"

lemma newlines_fieldsText:
  "newlines (fieldsText acc fs) = newlines acc + sum_list (map (\<lambda>(f, v). newlines f + newlines (valueText v)) fs)"
  by (induction acc fs rule: fieldsText.induct) (simp_all add: fieldText_def valueText_def)

lemma newlines_level [simp]: "newlines (levelText lev) = 0"
  by (cases lev) simp_all

text \<open>A formatted entry ends in a newline, and holds no other one, when neither the clock's
  text, nor the trimmed message, nor the fields hold one.\<close>

theorem FormatEntry_one_line:
  assumes "newlines (lo_now L) = 0" and "newlines (TrimSpace (en_Message entry)) = 0"
    and "list_all (\<lambda>(f, v). newlines f = 0 \<and> newlines (valueText v) = 0) (lo_order L (en_Data entry))"
  shows "newlines (FormatEntry L entry) = 1 \<and> last (FormatEntry L entry) = CHR 10"
proof -
  have "sum_list (map (\<lambda>(f, v). newlines f + newlines (valueText v)) (lo_order L (en_Data entry))) = 0"
    using assms(3) by (auto simp: list_all_iff)
  with assms(1,2) show ?thesis
    by (simp add: FormatEntry_def newlines_fieldsText)
qed

theorem FormatEntry_one_line_witness:
  "newlines (FormatEntry \<lparr>lo_caller = None, lo_order = id, lo_now = ''now'', lo_sprintf = (\<lambda>f _. f)\<rparr>
     \<lparr>en_Level = InfoLevel, en_Message = ''up'' @ [CHR 10], en_Data = [(''line'', LogInt 7)]\<rparr>) = 1"
proof -
  have "TrimSpace (''up'' @ [CHR 10]) = ''up''" and "newlines (FormatInt 7) = 0" by code_simp+
  then show ?thesis
    by (subst FormatEntry_one_line [THEN conjunct1]) (simp_all add: valueText_def)
qed

end
