(* ===== verification/Driver_Server.thy ===== *)
theory Driver_Server
  imports Driver_Core Common_Log
begin

text \<open>
  The start of the driver and the way a request takes into it: the constructors of \<open>pkg/client\<close>
  and \<open>pkg/driver\<close>, \<open>Run\<close>, and the interceptor \<open>logServerAndSetId\<close> through which gRPC
  calls every handler. A goroutine that is started is an event; the loops it runs are
  \<open>Heartbeater\<close> and \<open>LogPusher\<close>. The parsing of URLs, the file system, sockets, the SDK's
  constructor and gRPC's server are parameters.
\<close>

section \<open>Definitions\<close>

record 'w host =
  ho_url_parse :: "string \<Rightarrow> goerr + (string \<times> string \<times> string)"  \<comment> \<open>scheme, host and path\<close>
  ho_path_join :: "string \<Rightarrow> string \<Rightarrow> string"
  ho_remove :: "string \<Rightarrow> 'w \<Rightarrow> (goerr \<times> bool) option \<times> 'w"  \<comment> \<open>the error, and \<open>os.IsNotExist\<close> of it\<close>
  ho_listen :: "string \<Rightarrow> string \<Rightarrow> 'w \<Rightarrow> goerr option \<times> 'w"
  ho_serve :: "'w \<Rightarrow> goerr option \<times> 'w"
  ho_stop :: "'w \<Rightarrow> unit \<times> 'w"
  ho_new_sdk :: "string \<Rightarrow> 'w \<Rightarrow> goerr option \<times> 'w"
  ho_sdk_health :: "'w \<Rightarrow> goerr option \<times> 'w"

definition NewDateraClient :: "'w host \<Rightarrow> bool \<Rightarrow> string \<Rightarrow> ('w, goerr + unit) io" where
  "NewDateraClient H healthcheck drv =
     bindG (extG (NewSdk drv) (ho_new_sdk H drv)) (\<lambda>err. case err of
       Some e \<Rightarrow> ret (Inl e)
     | None \<Rightarrow>
         if healthcheck then
           bindG (extG SysGet (ho_sdk_health H)) (\<lambda>err. case err of
             Some e \<Rightarrow> ret (Inl e)
           | None \<Rightarrow> ret (Inr ()))
         else ret (Inr ()))"

text \<open>The versions are set when the program is linked: version, git hash and SDK version.\<close>

definition NewDateraDriver ::
    "'w host \<Rightarrow> 'w env \<Rightarrow> (rpc_ctx \<Rightarrow> rpc_ctx) \<Rightarrow> (csi_req \<Rightarrow> string) \<Rightarrow> (string list \<Rightarrow> string list) \<Rightarrow>
     (string \<Rightarrow> string) \<Rightarrow> string \<Rightarrow> string \<times> string \<times> string \<Rightarrow> ('w, goerr + 'w driver) io" where
  "NewDateraDriver H E sdkctx fmt order getenv host = (\<lambda>(version, githash, sdkVersion).
     tryG (NewDateraClient H False (''datera-csi-'' @ version @ ''-'' @ githash @ ''-gosdk-'' @ sdkVersion)) (\<lambda>_.
     ret (Inr (newDriver E sdkctx fmt order getenv host version))))"

fun serviceName :: "service \<Rightarrow> string" where
  "serviceName ControllerService = ''controller''"
| "serviceName IdentityService = ''identity''"
| "serviceName NodeService = ''node''"

text \<open>An event of its own that changes nothing outside.\<close>

definition noteG :: "event \<Rightarrow> ('w, unit) io" where
  "noteG ev = extG ev (\<lambda>w. ((), w))"

fun registerServices :: "service list \<Rightarrow> ('w, unit) io" where
  "registerServices [] = ret ()"
| "registerServices (v # vs) = bindG (noteG (RegisterService (serviceName v))) (\<lambda>_. registerServices vs)"

definition removeSocket :: "'w host \<Rightarrow> string \<Rightarrow> ('w, goerr option) io" where
  "removeSocket H addr =
     bindG (extG (RemoveFile addr) (ho_remove H addr)) (\<lambda>r.
     ret (case r of None \<Rightarrow> None | Some (e, notExist) \<Rightarrow> if notExist then None else Some e))"

definition startServing :: "'w driver \<Rightarrow> 'w host \<Rightarrow> string \<Rightarrow> string \<Rightarrow> ('w, goerr option) io" where
  "startServing D H scheme addr =
     bindG (extG (ListenOn scheme addr) (ho_listen H scheme addr)) (\<lambda>err. case err of
       Some e \<Rightarrow> ret (Some e)
     | None \<Rightarrow>
         bindG (registerServices (services (ev_Type (dr_vars D)))) (\<lambda>_.
         bindG (noteG (Spawn ''Heartbeater'')) (\<lambda>_.
         bindG (if ev_LogPush (dr_vars D) then noteG (Spawn ''LogPusher'') else ret ()) (\<lambda>_.
         extG ServeRpcs (ho_serve H)))))"

definition Run :: "'w driver \<Rightarrow> 'w host \<Rightarrow> ('w, goerr option) io" where
  "Run D H = (case ho_url_parse H (dr_sock D) of
      Inl e \<Rightarrow> ret (Some e)
    | Inr (scheme, host, path) \<Rightarrow>
        if scheme \<noteq> ''unix'' then ret (Some (PlainErr ''Only unix sockets are supported by CSI''))
        else
          let addr = (if host = [] then path else ho_path_join H host path)
          in bindG (extG (StatFile addr) (x_not_exist (dr_env D) addr)) (\<lambda>missing.
             bindG (if missing then extG (MkdirAll addr) (x_mkdir_all (dr_env D) addr) else ret None) (\<lambda>err. case err of
               Some e \<Rightarrow> ret (Some e)
             | None \<Rightarrow>
                 bindG (removeSocket H addr) (\<lambda>err. case err of
                   Some e \<Rightarrow> ret (Some e)
                 | None \<Rightarrow> startServing D H scheme addr))))"

definition Stop :: "'w driver \<Rightarrow> 'w host \<Rightarrow> ('w, unit) io" where
  "Stop D H = bindG (WithCtxt (dr_env D) topctxt ''Stop'' []) (\<lambda>_. extG StopServer (ho_stop H))"

text \<open>gRPC's interceptor: an id for the request, a context with it, and the handler. The outgoing
  metadata and the log lines are left out.\<close>

definition logServerAndSetId ::
    "'w env \<Rightarrow> rpc_ctx \<Rightarrow> (rpc_ctx \<Rightarrow> ('w, goerr + 'r) io) \<Rightarrow> ('w, goerr + 'r) io" where
  "logServerAndSetId E ctx handler =
     bindG (GenId E) (\<lambda>i.
     bindG (WithCtxt E ctx ''rpc'' i) handler)"

section \<open>The start\<close>

text \<open>What starts the service: registrations, loops, and serving.\<close>

fun starts :: "event \<Rightarrow> bool" where
  "starts (RegisterService _) = True"
| "starts (Spawn _) = True"
| "starts ServeRpcs = True"
| "starts _ = False"

lemma registerServices_run:
  "registerServices vs s = (Ret (), s\<lparr>log := log s @ map (RegisterService \<circ> serviceName) vs\<rparr>)"
  by (induction vs arbitrary: s) (simp_all add: go_eval noteG_def)

lemma startServing_run:
  assumes "ho_listen H scheme addr (ext s) = (None, w)" and "ho_serve H w = (r, w')"
  shows "startServing D H scheme addr s =
    (Ret r, s\<lparr>log := log s @ ListenOn scheme addr #
        map (RegisterService \<circ> serviceName) (services (ev_Type (dr_vars D))) @
        Spawn ''Heartbeater'' # (if ev_LogPush (dr_vars D) then [Spawn ''LogPusher''] else []) @ [ServeRpcs],
      ext := w'\<rparr>)"
  using assms by (simp add: startServing_def go_eval registerServices_run noteG_def)

text \<open>With a socket under a path of the host, \<open>Run\<close> looks at the path, creates it as a
  directory when it is not there, removes it, and opens the listener; only then does it register
  the services of the driver's type, in the order controller, identity, node, start the heartbeat,
  and the log pusher when the environment asks for it, and serve until the server ends. A socket
  file that was not there to be removed is no error.\<close>

theorem Run_starts:
  assumes "ho_url_parse H (dr_sock D) = Inr (''unix'', [], path)"
    and "x_not_exist (dr_env D) path (ext s) = (missing, w1)"
    and "(if missing then x_mkdir_all (dr_env D) path w1 else (None, w1)) = (None, w2)"
    and "ho_remove H path w2 = (r, w3)" and "case r of None \<Rightarrow> True | Some (e, notExist) \<Rightarrow> notExist"
    and "ho_listen H ''unix'' path w3 = (None, w4)" and "ho_serve H w4 = (res, w5)"
  shows "Run D H s =
    (Ret res, s\<lparr>log := log s @ [StatFile path] @ (if missing then [MkdirAll path] else []) @
        [RemoveFile path, ListenOn ''unix'' path] @
        map (RegisterService \<circ> serviceName) (services (ev_Type (dr_vars D))) @
        [Spawn ''Heartbeater''] @ (if ev_LogPush (dr_vars D) then [Spawn ''LogPusher''] else []) @ [ServeRpcs],
      ext := w5\<rparr>)"
proof -
  have removed: "removeSocket H path t = (Ret None, t\<lparr>log := log t @ [RemoveFile path], ext := w3\<rparr>)"
    if "ext t = w2" for t
    using assms(4,5) that by (auto simp: removeSocket_def go_eval split: option.splits)
  have served: "startServing D H ''unix'' path t =
    (Ret res, t\<lparr>log := log t @ ListenOn ''unix'' path #
        map (RegisterService \<circ> serviceName) (services (ev_Type (dr_vars D))) @
        Spawn ''Heartbeater'' # (if ev_LogPush (dr_vars D) then [Spawn ''LogPusher''] else []) @ [ServeRpcs],
      ext := w5\<rparr>)" if "ext t = w3" for t
    using that assms(6,7) by (intro startServing_run) simp_all
  show ?thesis
    using assms(1-3)
    by (cases missing) (simp_all add: Run_def go_eval Let_def removed served)
qed

text \<open>When no listener can be opened, what would follow it plays no part.\<close>

lemma listen_refused:
  assumes "\<And>sch a w. fst (ho_listen H sch a w) \<noteq> None" and "\<And>e. frame (logs Q) (f e)"
    and "Q (ListenOn scheme addr)"
  shows "frame (logs Q) (bindG (extG (ListenOn scheme addr) (ho_listen H scheme addr))
    (\<lambda>err. case err of Some e \<Rightarrow> f e | None \<Rightarrow> k))"
proof (rule lg.frame_bind_post [where P = "\<lambda>err. err \<noteq> None"])
  show "frame (logs Q) (extG (ListenOn scheme addr) (ho_listen H scheme addr))"
    using assms(3) by (rule logs_extG)
  show "err \<noteq> None" if "extG (ListenOn scheme addr) (ho_listen H scheme addr) s = (Ret err, s')" for s err s'
    using that assms(1) by (auto simp: go_eval)
  show "frame (logs Q) (case err of Some e \<Rightarrow> f e | None \<Rightarrow> k)" if "err \<noteq> None" for err
    using that assms(2) by auto
qed

text \<open>Whatever goes wrong before the listener is open, nothing is registered, started or
  served.\<close>

theorem Run_fails_early:
  assumes "\<And>sch a w. fst (ho_listen H sch a w) \<noteq> None"
  shows "frame (logs (\<lambda>e. \<not> starts e)) (Run D H)"
proof -
  have "frame (logs (\<lambda>e. \<not> starts e)) (startServing D H scheme addr)" for scheme addr
    unfolding startServing_def
    by (rule listen_refused [OF assms]) (simp_all add: frame_intros)
  then show ?thesis
    unfolding Run_def removeSocket_def Let_def
    by (intro frame_intros; simp)
qed

section \<open>Behind the interceptor\<close>

lemma logServerAndSetId_run:
  assumes "x_new_uuid E (ext s) = (i, w)" and "i \<noteq> []"
  shows "logServerAndSetId E ctx handler s =
    handler (topctxt\<lparr>ctx_TraceId := Some i, ctx_ReqName := Some ''rpc''\<rparr>) (s\<lparr>log := log s @ [NewUuid], ext := w\<rparr>)"
  using assms by (simp add: logServerAndSetId_def GenId_def WithCtxt_def go_eval)

text \<open>Every handler behind the interceptor gets a context with both values, so that neither its
  logging nor \<open>InitFunc\<close> fails on it.\<close>

lemma interceptor_context:
  obtains i s' where "logServerAndSetId E ctx handler s =
    handler (topctxt\<lparr>ctx_TraceId := Some i, ctx_ReqName := Some ''rpc''\<rparr>) s'"
  using that by (cases "fst (x_new_uuid E (ext s)) = []")
    (simp_all add: logServerAndSetId_def GenId_def WithCtxt_def go_eval)

end
