(* ===== verification/Store_Refinement.thy ===== *)
theory Store_Refinement
  imports Driver_Controller Driver_Server Demo_Backend
begin

text \<open>
  The controller as a store of volumes. The specification knows a map from names to sizes, with the
  snapshots of each volume, and answers requests to create and to delete volumes. The
  code's RPCs, behind the interceptor, refine it: on a backend that keeps the laws of such a
  store, every sequence of requests gets the specification's answers and leaves the backend with
  the specification's map. \<open>yields\<close> is the total-correctness triple the proofs are made of.
\<close>

section \<open>The specification\<close>

text \<open>A snapshot is its uuid and its time stamp.\<close>

type_synonym snaps = "(string \<times> string) list"
type_synonym store = "string \<rightharpoonup> int \<times> snaps"

datatype store_cmd = CreateCmd create_volume_req | DeleteCmd delete_volume_req

datatype store_reply = Made int string | Conflict | Deleted | HeldBySnapshots | Failed

definition storeName :: "string \<Rightarrow> string" where
  "storeName name = ''CSI-'' @ take 58 name"

text \<open>A volume of \<open>gib\<close> GiB is what a request asks for.\<close>

definition fits :: "cap_range option \<Rightarrow> int \<Rightarrow> bool" where
  "fits cr gib = (case cr of
      None \<Rightarrow> True
    | Some cr \<Rightarrow> cr_RequiredBytes cr = mul64 gib GiB \<and> mul64 gib GiB \<le> cr_LimitBytes cr)"

definition specCreate :: "create_volume_req \<Rightarrow> store \<Rightarrow> store_reply \<times> store" where
  "specCreate req vols =
     (let n = storeName (cvq_Name req); cr = map_option fillLimit (cvq_CapacityRange req)
      in case vols n of
           Some (gib, _) \<Rightarrow> (if fits cr gib then Made (mul64 gib GiB) n else Conflict, vols)
         | None \<Rightarrow> (Made (mul64 (sizeFor cr) GiB) n, vols(n \<mapsto> (sizeFor cr, []))))"

definition specDelete :: "string \<Rightarrow> store \<Rightarrow> store_reply \<times> store" where
  "specDelete n vols =
     (if n = [] then (Failed, vols)
      else case vols n of
        None \<Rightarrow> (Deleted, vols)
      | Some (_, held) \<Rightarrow> if held \<noteq> [] then (HeldBySnapshots, vols) else (Deleted, vols(n := None)))"

fun specStep :: "store_cmd \<Rightarrow> store \<Rightarrow> store_reply \<times> store" where
  "specStep (CreateCmd req) vols = specCreate req vols"
| "specStep (DeleteCmd req) vols = specDelete (dvq_VolumeId req) vols"

fun specRun :: "store_cmd list \<Rightarrow> store \<Rightarrow> store_reply list \<times> store" where
  "specRun [] vols = ([], vols)"
| "specRun (c # cs) vols =
     (let (r, vols') = specStep c vols; (rs, vols'') = specRun cs vols' in (r # rs, vols''))"

section \<open>The code, as the store's client sees it\<close>

definition createReply :: "goerr + csi_volume \<Rightarrow> store_reply" where
  "createReply r = (case r of
      Inr v \<Rightarrow> Made (vol_CapacityBytes v) (vol_VolumeId v)
    | Inl (StatusErr AlreadyExists _) \<Rightarrow> Conflict
    | Inl _ \<Rightarrow> Failed)"

definition deleteReply :: "goerr + unit \<Rightarrow> store_reply" where
  "deleteReply r = (case r of
      Inr _ \<Rightarrow> Deleted
    | Inl (StatusErr FailedPrecondition _) \<Rightarrow> HeldBySnapshots
    | Inl _ \<Rightarrow> Failed)"

fun codeStep :: "'w driver \<Rightarrow> store_cmd \<Rightarrow> ('w, store_reply) io" where
  "codeStep D (CreateCmd req) =
     bindG (logServerAndSetId (dr_env D) topctxt (\<lambda>ctx. CreateVolumeRpc D ctx req)) (\<lambda>r. ret (createReply r))"
| "codeStep D (DeleteCmd req) =
     bindG (logServerAndSetId (dr_env D) topctxt (\<lambda>ctx. DeleteVolumeRpc D ctx req)) (\<lambda>r. ret (deleteReply r))"

text \<open>The requests considered: a plain volume - no template, no source, no topology - of an ASCII
  name, with supported capabilities, parameters that parse, and a capacity range that is one.\<close>

definition capSupported :: "vol_cap option \<Rightarrow> bool" where
  "capSupported vc = (case vc of
      None \<Rightarrow> False
    | Some c \<Rightarrow> (case vcp_AccessType c of
        BlockAccess \<Rightarrow> True
      | MountAccess (Some m) \<Rightarrow> mv_FsType m = [] \<or> isSupportedFs (mv_FsType m)
      | _ \<Rightarrow> False))"

definition plainCreate :: "create_volume_req \<Rightarrow> bool" where
  "plainCreate req \<longleftrightarrow>
     ascii (cvq_Name req) \<and> cvq_Name req \<noteq> [] \<and> cvq_AccessibilityRequirements req = None \<and>
     (case cvq_VolumeCapabilities req of None \<Rightarrow> False | Some vcs \<Rightarrow> list_all capSupported vcs) \<and>
     cvq_VolumeContentSource req = None \<and>
     (case parseVolParams (cvq_Parameters req) of Inl _ \<Rightarrow> False | Inr p \<Rightarrow> vo_Template p = []) \<and>
     (case map_option fillLimit (cvq_CapacityRange req) of
        None \<Rightarrow> True | Some cr \<Rightarrow> cr_RequiredBytes cr \<le> cr_LimitBytes cr)"

fun plain :: "store_cmd \<Rightarrow> bool" where
  "plain (CreateCmd req) = plainCreate req"
| "plain (DeleteCmd _) = True"

section \<open>The laws of the backend\<close>

text \<open>\<open>vols w\<close> is the store in the world \<open>w\<close>; \<open>own ai\<close> says that \<open>ai\<close> came from the backend.\<close>

definition shown :: "(app_instance \<Rightarrow> bool) \<Rightarrow> app_instance \<Rightarrow> string \<Rightarrow> int \<Rightarrow> bool" where
  "shown own ai n gib \<longleftrightarrow> own ai \<and> ai_Name ai = n \<and>
     (case parts ai of None \<Rightarrow> False | Some (si, dv, acl, t) \<Rightarrow> dv_Size dv = gib)"

definition snapKey :: "dsnapshot \<Rightarrow> string \<times> string" where
  "snapKey sn = (sn_Uuid sn, sn_UtcTs sn)"

record 'w store_view =
  sv_store :: "'w \<Rightarrow> store"
  sv_own :: "app_instance \<Rightarrow> bool"

text \<open>Lookups: found or an API error; deletions and creations of one name; everything else leaves the
  store alone.\<close>

definition store_reads :: "'w env \<Rightarrow> 'w store_view \<Rightarrow> bool" where
  "store_reads E V \<longleftrightarrow>
     (\<forall>n w. sv_store V w n = None \<longrightarrow>
        (\<exists>a w'. x_ai_get E n w = ((None, Some a, None), w') \<and> sv_store V w' = sv_store V w)) \<and>
     (\<forall>n w gib held. sv_store V w n = Some (gib, held) \<longrightarrow>
        (\<exists>ai w'. x_ai_get E n w = ((Some ai, None, None), w') \<and> shown (sv_own V) ai n gib \<and>
           sv_store V w' = sv_store V w)) \<and>
     (\<forall>ai w gib held. sv_own V ai \<longrightarrow> sv_store V w (ai_Name ai) = Some (gib, held) \<longrightarrow>
        (\<exists>ai' w'. x_ai_reload E ai w = ((Some ai', None, None), w') \<and> shown (sv_own V) ai' (ai_Name ai) gib \<and>
           sv_store V w' = sv_store V w)) \<and>
     (\<forall>ai si dv acl t w gib held. sv_own V ai \<longrightarrow> parts ai = Some (si, dv, acl, t) \<longrightarrow>
        sv_store V w (ai_Name ai) = Some (gib, held) \<longrightarrow>
        (\<exists>ss w'. x_snap_list E dv w = ((ss, None, None), w') \<and> map snapKey ss = held \<and>
           sv_store V w' = sv_store V w)) \<and>
     (\<forall>w. \<exists>sys b w'. x_sys_get E w = ((Some sys, None, None), w') \<and>
        DatVersionGte (sy_SwVersion sys) ''3.3.0.0'' = Inr b \<and> sv_store V w' = sv_store V w) \<and>
     (\<forall>w. fst (x_new_uuid E w) \<noteq> [] \<and> sv_store V (snd (x_new_uuid E w)) = sv_store V w)"

definition store_writes :: "'w env \<Rightarrow> 'w store_view \<Rightarrow> bool" where
  "store_writes E V \<longleftrightarrow>
     (\<forall>ai st w gib held. sv_own V ai \<longrightarrow> sv_store V w (ai_Name ai) = Some (gib, held) \<longrightarrow>
        (\<exists>x w'. x_ai_set E ai st True w = ((x, None, None), w') \<and> sv_store V w' = sv_store V w)) \<and>
     (\<forall>ai w gib held. sv_own V ai \<longrightarrow> sv_store V w (ai_Name ai) = Some (gib, held) \<longrightarrow>
        (\<exists>x w'. x_ai_delete E ai True w = ((x, None, None), w') \<and>
           sv_store V w' = (sv_store V w)(ai_Name ai := None))) \<and>
     (\<forall>a si v w. ac_StorageInstances a = [si] \<longrightarrow> sc_Volumes si = [v] \<longrightarrow> sv_store V w (ac_Name a) = None \<longrightarrow>
        (\<exists>ai w'. x_ai_create E a w = ((Some ai, None, None), w') \<and> shown (sv_own V) ai (ac_Name a) (vc_Size v) \<and>
           sv_store V w' = (sv_store V w)(ac_Name a \<mapsto> (vc_Size v, [])))) \<and>
     (\<forall>ai w. (\<exists>r w'. x_md_get E ai w = (r, w') \<and> r \<noteq> (None, None, None) \<and> sv_store V w' = sv_store V w)) \<and>
     (\<forall>ai md w. (\<exists>r w'. x_md_set E ai md w = (r, w') \<and> r \<noteq> (None, None, None) \<and> sv_store V w' = sv_store V w))"

text \<open>The laws, one at a time.\<close>

lemma store_absent:
  assumes "store_reads E V" and "sv_store V w n = None"
  obtains a w' where "x_ai_get E n w = ((None, Some a, None), w')" and "sv_store V w' = sv_store V w"
  using assms(1) [unfolded store_reads_def, THEN conjunct1, rule_format, OF assms(2)] by blast

lemma store_present:
  assumes "store_reads E V" and "sv_store V w n = Some (gib, held)"
  obtains ai w' where "x_ai_get E n w = ((Some ai, None, None), w')" and "shown (sv_own V) ai n gib"
    and "sv_store V w' = sv_store V w"
  using assms(1) [unfolded store_reads_def, THEN conjunct2, THEN conjunct1, rule_format, OF assms(2)] by blast

lemma store_reload:
  assumes "store_reads E V" and "sv_own V ai" and "sv_store V w (ai_Name ai) = Some (gib, held)"
  obtains ai' w' where "x_ai_reload E ai w = ((Some ai', None, None), w')"
    and "shown (sv_own V) ai' (ai_Name ai) gib" and "sv_store V w' = sv_store V w"
  using assms(1) [unfolded store_reads_def, THEN conjunct2, THEN conjunct2, THEN conjunct1, rule_format, OF assms(2,3)] by blast

lemma store_snaps:
  assumes "store_reads E V" and "sv_own V ai" and "parts ai = Some (si, dv, acl, t)"
    and "sv_store V w (ai_Name ai) = Some (gib, held)"
  obtains ss w' where "x_snap_list E dv w = ((ss, None, None), w')" and "map snapKey ss = held"
    and "sv_store V w' = sv_store V w"
  using assms(1) [unfolded store_reads_def, THEN conjunct2, THEN conjunct2, THEN conjunct2, THEN conjunct1,
    rule_format, OF assms(2-4)] by blast

lemma store_sys:
  assumes "store_reads E V"
  obtains sys b w' where "x_sys_get E w = ((Some sys, None, None), w')"
    and "DatVersionGte (sy_SwVersion sys) ''3.3.0.0'' = Inr b" and "sv_store V w' = sv_store V w"
  using assms [unfolded store_reads_def, THEN conjunct2, THEN conjunct2, THEN conjunct2, THEN conjunct2,
    THEN conjunct1, rule_format, of w] by blast

lemma store_uuid:
  assumes "store_reads E V"
  shows "fst (x_new_uuid E w) \<noteq> []" and "sv_store V (snd (x_new_uuid E w)) = sv_store V w"
  using assms unfolding store_reads_def by blast+

lemma store_offline:
  assumes "store_writes E V" and "sv_own V ai" and "sv_store V w (ai_Name ai) = Some (gib, held)"
  obtains x w' where "x_ai_set E ai st True w = ((x, None, None), w')" and "sv_store V w' = sv_store V w"
  using assms(1) [unfolded store_writes_def, THEN conjunct1, rule_format, OF assms(2,3)] by blast

lemma store_delete:
  assumes "store_writes E V" and "sv_own V ai" and "sv_store V w (ai_Name ai) = Some (gib, held)"
  obtains x w' where "x_ai_delete E ai True w = ((x, None, None), w')"
    and "sv_store V w' = (sv_store V w)(ai_Name ai := None)"
  using assms(1) [unfolded store_writes_def, THEN conjunct2, THEN conjunct1, rule_format, OF assms(2,3)] by blast

lemma store_create:
  assumes "store_writes E V" and "ac_StorageInstances a = [si]" and "sc_Volumes si = [v]"
    and "sv_store V w (ac_Name a) = None"
  obtains ai w' where "x_ai_create E a w = ((Some ai, None, None), w')"
    and "shown (sv_own V) ai (ac_Name a) (vc_Size v)"
    and "sv_store V w' = (sv_store V w)(ac_Name a \<mapsto> (vc_Size v, []))"
  using assms(1) [unfolded store_writes_def, THEN conjunct2, THEN conjunct2, THEN conjunct1, rule_format, OF assms(2-4)] by blast

section \<open>Total correctness over the store\<close>

definition yields ::
    "'w store_view \<Rightarrow> ('w, 'a) io \<Rightarrow> store \<Rightarrow> ('a \<Rightarrow> bool) \<Rightarrow> store \<Rightarrow> bool" where
  "yields V m v P v' \<longleftrightarrow>
     (\<forall>s. sv_store V (ext s) = v \<longrightarrow> (\<exists>x s'. m s = (Ret x, s') \<and> P x \<and> sv_store V (ext s') = v'))"

text \<open>The same with a condition on the store that is left.\<close>

definition reaches ::
    "'w store_view \<Rightarrow> ('w, 'a) io \<Rightarrow> store \<Rightarrow> ('a \<Rightarrow> store \<Rightarrow> bool) \<Rightarrow> bool" where
  "reaches V m v Q \<longleftrightarrow>
     (\<forall>s. sv_store V (ext s) = v \<longrightarrow> (\<exists>x s'. m s = (Ret x, s') \<and> Q x (sv_store V (ext s'))))"

lemma yields_reaches: "yields V m v P v' \<longleftrightarrow> reaches V m v (\<lambda>x t. P x \<and> t = v')"
  by (simp add: yields_def reaches_def)

lemma reachesD:
  assumes "reaches V m v Q" and "sv_store V (ext s) = v"
  obtains x s' where "m s = (Ret x, s')" and "Q x (sv_store V (ext s'))"
  using assms unfolding reaches_def by blast

lemma reaches_ret: "Q x v \<Longrightarrow> reaches V (ret x) v Q"
  by (simp add: reaches_def go_eval)

lemma reaches_bind:
  assumes "reaches V m v P" and "\<And>x t. P x t \<Longrightarrow> reaches V (k x) t Q"
  shows "reaches V (bindG m k) v Q"
  unfolding reaches_def
proof (intro allI impI)
  fix s :: "'a st"
  assume "sv_store V (ext s) = v"
  with assms(1) obtain x s1 where m: "m s = (Ret x, s1)" "P x (sv_store V (ext s1))"
    by (rule reachesD)
  from assms(2) [OF m(2)] refl obtain y s2 where "k x s1 = (Ret y, s2)" "Q y (sv_store V (ext s2))"
    by (rule reachesD)
  with m(1) show "\<exists>y s'. bindG m k s = (Ret y, s') \<and> Q y (sv_store V (ext s'))"
    by (simp add: go_eval)
qed

lemma reaches_try:
  assumes "reaches V m v P" and "\<And>x t. P (Inr x) t \<Longrightarrow> reaches V (k x) t Q" and "\<And>e t. P (Inl e) t \<Longrightarrow> Q (Inl e) t"
  shows "reaches V (tryG m k) v Q"
  unfolding tryG_def using assms by (auto intro!: reaches_bind [OF assms(1)] reaches_ret split: sum.splits)

lemma reaches_weaken: "reaches V m v P \<Longrightarrow> (\<And>x t. P x t \<Longrightarrow> Q x t) \<Longrightarrow> reaches V m v Q"
  unfolding reaches_def by blast

lemma reaches_call:
  assumes "\<And>w. sv_store V w = v \<Longrightarrow> \<exists>r w'. f w = (r, w') \<and> Q r (sv_store V w')"
  shows "reaches V (extG ev f) v Q"
  unfolding reaches_def
proof (intro allI impI)
  fix s :: "'a st"
  assume "sv_store V (ext s) = v"
  with assms obtain r w' where "f (ext s) = (r, w')" "Q r (sv_store V w')" by blast
  then show "\<exists>x s'. extG ev f s = (Ret x, s') \<and> Q x (sv_store V (ext s'))"
    by (simp add: go_eval)
qed

lemma reaches_sdk:
  assumes "\<And>w. sv_store V w = v \<Longrightarrow> \<exists>r w'. f w = (r, w') \<and> Q (sdkResult r) (sv_store V w')"
  shows "reaches V (sdkCall ev f) v Q"
  unfolding sdkCall_def
  by (rule reaches_bind [where P = "\<lambda>r t. Q (sdkResult r) t"], rule reaches_call [OF assms])
    (auto intro: reaches_ret)

lemma yieldsD:
  assumes "yields V m v P v'" and "sv_store V (ext s) = v"
  obtains x s' where "m s = (Ret x, s')" and "P x" and "sv_store V (ext s') = v'"
  using assms unfolding yields_def by blast

lemma yields_ret: "P x \<Longrightarrow> yields V (ret x) v P v"
  by (simp add: yields_def go_eval)

lemma yields_bind:
  assumes "yields V m v P v1" and "\<And>x. P x \<Longrightarrow> yields V (k x) v1 Q v2"
  shows "yields V (bindG m k) v Q v2"
  unfolding yields_def
proof (intro allI impI)
  fix s :: "'a st"
  assume "sv_store V (ext s) = v"
  with assms(1) obtain x s1 where m: "m s = (Ret x, s1)" "P x" "sv_store V (ext s1) = v1"
    by (rule yieldsD)
  from assms(2) [OF m(2)] m(3) obtain y s2 where "k x s1 = (Ret y, s2)" "Q y" "sv_store V (ext s2) = v2"
    by (rule yieldsD)
  with m(1) show "\<exists>y s'. bindG m k s = (Ret y, s') \<and> Q y \<and> sv_store V (ext s') = v2"
    by (simp add: go_eval)
qed

lemma yields_try:
  assumes "yields V m v (\<lambda>r. \<exists>x. r = Inr x \<and> P x) v1" and "\<And>x. P x \<Longrightarrow> yields V (k x) v1 Q v2"
  shows "yields V (tryG m k) v Q v2"
  unfolding tryG_def using assms by (auto intro!: yields_bind [OF assms(1)])

lemma yields_weaken: "yields V m v P v' \<Longrightarrow> (\<And>x. P x \<Longrightarrow> Q x) \<Longrightarrow> yields V m v Q v'"
  unfolding yields_def by blast

lemma yields_call:
  assumes "\<And>w. sv_store V w = v \<Longrightarrow> \<exists>r w'. f w = (r, w') \<and> P r \<and> sv_store V w' = v'"
  shows "yields V (extG ev f) v P v'"
  unfolding yields_def
proof (intro allI impI)
  fix s :: "'a st"
  assume "sv_store V (ext s) = v"
  with assms [of "ext s"] obtain r w' where "f (ext s) = (r, w')" "P r" "sv_store V w' = v'" by blast
  then show "\<exists>x s'. extG ev f s = (Ret x, s') \<and> P x \<and> sv_store V (ext s') = v'"
    by (simp add: go_eval)
qed

lemma yields_sdk:
  assumes "\<And>w. sv_store V w = v \<Longrightarrow> \<exists>r w'. f w = (r, w') \<and> P (sdkResult r) \<and> sv_store V w' = v'"
  shows "yields V (sdkCall ev f) v P v'"
  unfolding sdkCall_def
  by (rule yields_bind [where P = "\<lambda>r. P (sdkResult r)"], rule yields_call [OF assms])
    (auto intro: yields_ret)

section \<open>The client over the store\<close>

lemma shownE:
  assumes "shown own ai n gib"
  obtains si dv acl t where "parts ai = Some (si, dv, acl, t)" and "dv_Size dv = gib"
    and "own ai" and "ai_Name ai = n"
  using assms by (auto simp: shown_def split: option.splits)

lemma GetVolume_present:
  assumes "store_reads E V" and "vols n = Some (gib, held)" and "n \<noteq> []"
  shows "yields V (GetVolume E n False False) vols
    (\<lambda>r. \<exists>vol. r = Inr vol \<and> v_Name vol = n \<and> v_Size vol = gib \<and> shown (sv_own V) (v_Ai vol) n gib) vols"
  unfolding yields_def
proof (intro allI impI)
  fix s :: "'a st"
  assume s: "sv_store V (ext s) = vols"
  with assms(2) have "sv_store V (ext s) n = Some (gib, held)" by simp
  with assms(1) obtain ai w' where get: "x_ai_get E n (ext s) = ((Some ai, None, None), w')"
    and ai: "shown (sv_own V) ai n gib" and w': "sv_store V w' = vols"
    by (rule store_present) (simp add: s)
  from ai obtain si dv acl t where "parts ai = Some (si, dv, acl, t)" "dv_Size dv = gib" "ai_Name ai = n"
    by (rule shownE)
  with GetVolume_run [OF get this(1) assms(3)] w'
  show "\<exists>x s'. GetVolume E n False False s = (Ret x, s') \<and>
      (\<exists>vol. x = Inr vol \<and> v_Name vol = n \<and> v_Size vol = gib \<and> shown (sv_own V) (v_Ai vol) n gib) \<and>
      sv_store V (ext s') = vols"
    using ai by simp
qed

lemma GetVolume_absent:
  assumes "store_reads E V" and "vols n = None" and "n \<noteq> []"
  shows "yields V (GetVolume E n False False) vols (\<lambda>r. \<exists>e. r = Inl e) vols"
  unfolding yields_def
proof (intro allI impI)
  fix s :: "'a st"
  assume s: "sv_store V (ext s) = vols"
  with assms(2) have "sv_store V (ext s) n = None" by simp
  with assms(1) obtain a w' where "x_ai_get E n (ext s) = ((None, Some a, None), w')"
    and "sv_store V w' = vols"
    by (rule store_absent) (simp add: s)
  with assms(3) show "\<exists>x s'. GetVolume E n False False s = (Ret x, s') \<and> (\<exists>e. x = Inl e) \<and> sv_store V (ext s') = vols"
    by (simp add: GetVolume_def go_eval sdkResult_def)
qed

lemma createRequest_plain:
  assumes "store_reads E V" and "vo_Template opts = []" "vo_CloneVolSrc opts = []" "vo_CloneSnapSrc opts = []"
  shows "yields V (createRequest E name opts chap) vols (\<lambda>r. \<exists>b. r = Inr (plainRequest name opts chap b)) vols"
  unfolding yields_def
proof (intro allI impI)
  fix s :: "'a st"
  assume "sv_store V (ext s) = vols"
  moreover obtain sys b w' where "x_sys_get E (ext s) = ((Some sys, None, None), w')"
      and "DatVersionGte (sy_SwVersion sys) ''3.3.0.0'' = Inr b" and "sv_store V w' = sv_store V (ext s)"
    using assms(1) by (rule store_sys)
  ultimately show "\<exists>x s'. createRequest E name opts chap s = (Ret x, s') \<and>
      (\<exists>b. x = Inr (plainRequest name opts chap b)) \<and> sv_store V (ext s') = vols"
    using assms(2-4) by (auto simp: createRequest_def VendorVersion_def go_eval sdkResult_def)
qed

lemma create_call:
  assumes "store_writes E V" and "vols name = None"
  shows "yields V (sdkCall (AiCreate (plainRequest name opts chap b)) (x_ai_create E (plainRequest name opts chap b))) vols
    (\<lambda>r. \<exists>ai. r = Inr (Some ai) \<and> shown (sv_own V) ai name (vo_Size opts)) (vols(name \<mapsto> (vo_Size opts, [])))"
proof (rule yields_sdk)
  fix w
  assume w: "sv_store V w = vols"
  let ?a = "plainRequest name opts chap b"
  obtain si v where a: "ac_StorageInstances ?a = [si]" "sc_Volumes si = [v]" "vc_Size v = vo_Size opts"
      "ac_Name ?a = name"
    by (simp add: plainRequest_def plainVolume_def emptyCreate_def)
  have "sv_store V w (ac_Name ?a) = None" using assms(2) w a(4) by simp
  with assms(1) a(1,2) obtain ai w' where "x_ai_create E ?a w = ((Some ai, None, None), w')"
    and "shown (sv_own V) ai name (vo_Size opts)" and "sv_store V w' = vols(name \<mapsto> (vo_Size opts, []))"
    by (rule store_create) (simp only: a w)
  then show "\<exists>r w'. x_ai_create E ?a w = (r, w') \<and>
      (\<exists>ai. sdkResult r = Inr (Some ai) \<and> shown (sv_own V) ai name (vo_Size opts)) \<and>
      sv_store V w' = vols(name \<mapsto> (vo_Size opts, []))"
    by (simp add: sdkResult_def)
qed

lemma convert_shown:
  assumes "shown own ai n gib"
  shows "yields V (aiToClientVol E (Some ai) False False c) vols (\<lambda>r. \<exists>vol. r = Inr vol \<and> v_Name vol = n \<and> v_Ai vol = ai) vols"
proof -
  from assms obtain si dv acl t where "parts ai = Some (si, dv, acl, t)" "ai_Name ai = n"
    by (rule shownE)
  then show ?thesis by (simp add: yields_def parts_run)
qed

lemma CreateVolume_made:
  assumes request: "yields V (createRequest E name opts chap) vols (\<lambda>r. \<exists>a. r = Inr a \<and> A a) vols"
    and call: "\<And>a. A a \<Longrightarrow> yields V (sdkCall (AiCreate a) (x_ai_create E a)) vols
      (\<lambda>r. \<exists>ai. r = Inr (Some ai) \<and> shown (sv_own V) ai name gib) (vols(name \<mapsto> (gib, [])))"
  shows "yields V (CreateVolume E name opts False chap) vols (\<lambda>r. \<exists>vol. r = Inr vol \<and> v_Name vol = name)
    (vols(name \<mapsto> (gib, [])))"
  unfolding CreateVolume_def
proof (rule yields_try [OF request])
  fix a
  assume "A a"
  then have "yields V (sdkCall (AiCreate a) (x_ai_create E a)) vols
      (\<lambda>r. \<exists>p. r = Inr p \<and> (\<exists>ai. p = Some ai \<and> shown (sv_own V) ai name gib)) (vols(name \<mapsto> (gib, [])))"
    by (auto intro: yields_weaken [OF call])
  then show "yields V (tryG (sdkCall (AiCreate a) (x_ai_create E a)) (\<lambda>newAi.
      bindG (aiToClientVol E newAi False False True) (\<lambda>res.
      bindG (derefG (case res of Inl _ \<Rightarrow> None | Inr v \<Rightarrow> Some v)) (\<lambda>v.
      let v = v\<lparr>v_Formatted := (vo_CloneSrc opts \<noteq> [] \<and> vo_CloneVolSrc opts \<noteq> [] \<and> vo_CloneSnapSrc opts \<noteq> [])\<rparr>
      in if False \<and> vo_Template opts = [] then SetPerformancePolicy E v opts else ret (Inr v))))) vols
    (\<lambda>r. \<exists>vol. r = Inr vol \<and> v_Name vol = name) (vols(name \<mapsto> (gib, [])))"
    by (rule yields_try) (auto intro!: yields_bind [OF convert_shown] yields_ret)
qed

lemma CreateVolume_yields:
  assumes "store_reads E V" and "store_writes E V" and "vols name = None"
    and "vo_Template opts = []" "vo_CloneVolSrc opts = []" "vo_CloneSnapSrc opts = []"
  shows "yields V (CreateVolume E name opts False chap) vols (\<lambda>r. \<exists>vol. r = Inr vol \<and> v_Name vol = name)
    (vols(name \<mapsto> (vo_Size opts, [])))"
proof (rule CreateVolume_made)
  show "yields V (createRequest E name opts chap) vols
      (\<lambda>r. \<exists>a. r = Inr a \<and> (\<exists>b. a = plainRequest name opts chap b)) vols"
    using createRequest_plain [OF assms(1,4-6)] by (rule yields_weaken) auto
qed (use create_call [where vols = vols and name = name, OF assms(2,3)] in auto)

text \<open>Whatever the first part returns, when the rest then changes nothing.\<close>

lemma yields_either:
  assumes "yields V m v P v" and "\<And>x. P (Inr x) \<Longrightarrow> yields V (k x) v (\<lambda>_. True) v"
  shows "yields V (tryG m k) v (\<lambda>_. True) v"
  unfolding tryG_def using assms by (auto intro!: yields_bind [OF assms(1)] yields_ret split: sum.splits)

lemma SetMetadata_yields:
  assumes "store_writes E V"
  shows "yields V (SetMetadata E debug vol md) vols (\<lambda>_. True) vols"
proof -
  have call: "yields V (tryG (sdkCall ev f) (\<lambda>p. bindG (derefG p) (\<lambda>md. ret (Inr md)))) vols (\<lambda>_. True) vols"
    if "\<And>w. \<exists>r w'. f w = (r, w') \<and> r \<noteq> (None, None, None) \<and> sv_store V w' = sv_store V w"
    for ev and f :: "'a \<Rightarrow> smap option sdkres \<times> 'a"
  proof -
    have "yields V (sdkCall ev f) vols (\<lambda>r. r \<noteq> Inr None) vols"
    proof (rule yields_sdk)
      fix w
      assume "sv_store V w = vols"
      with that [of w] obtain r w' where "f w = (r, w')" "r \<noteq> (None, None, None)" "sv_store V w' = vols"
        by auto
      then show "\<exists>r w'. f w = (r, w') \<and> sdkResult r \<noteq> Inr None \<and> sv_store V w' = vols"
        by (auto simp: sdkResult_def split: prod.splits option.splits)
    qed
    then show ?thesis
      by (rule yields_either) (auto intro!: yields_ret simp: not_None_eq)
  qed
  have "yields V (if debug then GetMetadata E (v_Ai vol) else ret (Inr md)) vols (\<lambda>_. True) vols"
    unfolding GetMetadata_def
    using assms by (auto intro!: call yields_ret simp: store_writes_def)
  then show ?thesis
    unfolding SetMetadata_def
    by (rule yields_either) (rule call, use assms in \<open>simp add: store_writes_def\<close>)
qed

lemma DeleteVolume_absent:
  assumes "store_reads E V" and "vols n = None"
  shows "yields V (DeleteVolume E n True) vols
    (\<lambda>r. r = Inl (PlainErr ''Cannot construct a Client Volume from a nil AppInstance'')) vols"
  unfolding yields_def
proof (intro allI impI)
  fix s :: "'a st"
  assume s: "sv_store V (ext s) = vols"
  with assms(2) have "sv_store V (ext s) n = None" by simp
  with assms(1) obtain a w' where "x_ai_get E n (ext s) = ((None, Some a, None), w')"
    and "sv_store V w' = vols"
    by (rule store_absent) (simp add: s)
  then show "\<exists>x s'. DeleteVolume E n True s = (Ret x, s') \<and>
      x = Inl (PlainErr ''Cannot construct a Client Volume from a nil AppInstance'') \<and> sv_store V (ext s') = vols"
    by (simp add: DeleteVolume_def aiToClientVol_def go_eval)
qed

text \<open>The look at a volume that is there: its reload, and whether it has snapshots.\<close>

lemma HasSnapshots_yields:
  assumes "store_reads E V" and "shown (sv_own V) ai n gib" and "vols n = Some (gib, held)" and "v_Ai r = ai"
  shows "yields V (HasSnapshots E r) vols
    (\<lambda>(h, v). h = Inr (held \<noteq> []) \<and> shown (sv_own V) (v_Ai v) n gib) vols"
  unfolding yields_def
proof (intro allI impI)
  fix s :: "'a st"
  assume s: "sv_store V (ext s) = vols"
  from assms(2) have ai: "sv_own V ai" "ai_Name ai = n" by (simp_all add: shown_def)
  then have "sv_store V (ext s) (ai_Name ai) = Some (gib, held)" using assms(3) s by simp
  with assms(1) ai(1) obtain ai' w' where reload: "x_ai_reload E (v_Ai r) (ext s) = ((Some ai', None, None), w')"
    and ai': "shown (sv_own V) ai' n gib" and w': "sv_store V w' = vols"
    by (rule store_reload) (simp add: s assms(4) ai(2))
  from ai' obtain si dv acl t where p: "parts ai' = Some (si, dv, acl, t)" "sv_own V ai'" "ai_Name ai' = n"
    by (rule shownE)
  from assms(3) w' p(3) have "sv_store V w' (ai_Name ai') = Some (gib, held)" by simp
  with assms(1) p(2,1) obtain ss w'' where list: "x_snap_list E dv w' = ((ss, None, None), w'')"
    and keys: "map snapKey ss = held" and "sv_store V w'' = vols"
    by (rule store_snaps) (simp add: w')
  moreover from keys have "(ss \<noteq> []) = (held \<noteq> [])" by auto
  ultimately show "\<exists>x s'. HasSnapshots E r s = (Ret x, s') \<and>
      (case x of (h, v) \<Rightarrow> h = Inr (held \<noteq> []) \<and> shown (sv_own V) (v_Ai v) n gib) \<and> sv_store V (ext s') = vols"
    using HasSnapshots_run [OF reload p(1) list] ai' by simp
qed

lemma Delete_yields:
  assumes "store_writes E V" and "shown (sv_own V) (v_Ai v) n gib" and "vols n = Some (gib, held)"
  shows "yields V (Delete E v True) vols (\<lambda>r. r = Inr ()) (vols(n := None))"
proof -
  from assms(2) have ai: "sv_own V (v_Ai v)" "ai_Name (v_Ai v) = n" by (simp_all add: shown_def)
  have offline: "yields V (sdkCall ev (x_ai_set E (v_Ai v) st True)) vols (\<lambda>r. \<exists>x. r = Inr x \<and> True) vols" for ev st
  proof (rule yields_sdk)
    fix w
    assume w: "sv_store V w = vols"
    with assms(3) ai(2) have "sv_store V w (ai_Name (v_Ai v)) = Some (gib, held)" by simp
    with assms(1) ai(1) obtain x w' where "x_ai_set E (v_Ai v) st True w = ((x, None, None), w')"
      and "sv_store V w' = vols"
      by (rule store_offline) (simp add: w)
    then show "\<exists>r w'. x_ai_set E (v_Ai v) st True w = (r, w') \<and> (\<exists>x. sdkResult r = Inr x \<and> True) \<and> sv_store V w' = vols"
      by (simp add: sdkResult_def)
  qed
  have delete: "yields V (sdkCall ev (x_ai_delete E (v_Ai v) True)) vols (\<lambda>r. \<exists>x. r = Inr x \<and> True) (vols(n := None))" for ev
  proof (rule yields_sdk)
    fix w
    assume w: "sv_store V w = vols"
    with assms(3) ai(2) have "sv_store V w (ai_Name (v_Ai v)) = Some (gib, held)" by simp
    with assms(1) ai(1) obtain x w' where "x_ai_delete E (v_Ai v) True w = ((x, None, None), w')"
      and "sv_store V w' = vols(n := None)"
      by (rule store_delete) (simp add: w ai(2))
    then show "\<exists>r w'. x_ai_delete E (v_Ai v) True w = (r, w') \<and> (\<exists>x. sdkResult r = Inr x \<and> True) \<and>
        sv_store V w' = vols(n := None)"
      by (simp add: sdkResult_def)
  qed
  show ?thesis
    unfolding Delete_def
    by (rule yields_try [OF offline], rule yields_try [OF delete], rule yields_ret) (rule refl)
qed

text \<open>What the client does with the answer of the look; \<open>T\<close> holds of the store by then.\<close>

lemma DeleteVolume_look:
  assumes present: "\<And>w. sv_store V w = vols \<Longrightarrow> \<exists>ai w'. x_ai_get E n w = ((Some ai, None, None), w') \<and>
      shown (sv_own V) ai n gib \<and> sv_store V w' = vols"
    and look: "\<And>v. shown (sv_own V) (v_Ai v) n gib \<Longrightarrow> reaches V (HasSnapshots E v) vols
      (\<lambda>(h, v) t. h = Inr b \<and> shown (sv_own V) (v_Ai v) n gib \<and> T t)"
    and writes: "store_writes E V" and there: "\<And>t. T t \<Longrightarrow> \<exists>held. t n = Some (gib, held)"
  shows "reaches V (DeleteVolume E n True) vols (\<lambda>r t.
    if b then (\<exists>m. r = Inl (PlainErr (''Volume '' @ m @ '' cannot be deleted because it has snapshots''))) \<and> T t
    else r = Inr () \<and> (\<exists>t'. T t' \<and> t = t'(n := None)))" (is "reaches V _ vols ?Q")
proof -
  have get: "reaches V (extG (AiGet n) (x_ai_get E n)) vols
      (\<lambda>r t. \<exists>a. r = (Some a, None, None) \<and> shown (sv_own V) a n gib \<and> t = vols)"
    by (rule reaches_call) (use present in fastforce)
  have delete: "reaches V (case h of Inl e \<Rightarrow> ret (Inl e)
        | Inr snaps \<Rightarrow> if snaps then ret (Inl (PlainErr (''Volume '' @ v_Name v' @
            '' cannot be deleted because it has snapshots''))) else Delete E v' True) t ?Q"
    if "h = Inr b" "shown (sv_own V) (v_Ai v') n gib" "T t" for h v' t
  proof (cases b)
    case True
    with that show ?thesis by (auto intro!: reaches_ret simp del: append.simps)
  next
    case False
    from there [OF that(3)] obtain held where "t n = Some (gib, held)" ..
    from Delete_yields [where vols = t and n = n, OF writes that(2) this]
    have "reaches V (Delete E v' True) t ?Q"
      unfolding yields_reaches by (rule reaches_weaken) (use False that(3) in auto)
    with False that(1) show ?thesis by simp
  qed
  have rest: "reaches V (bindG (HasSnapshots E v) (\<lambda>(h, v'). case h of Inl e \<Rightarrow> ret (Inl e)
        | Inr snaps \<Rightarrow> if snaps then ret (Inl (PlainErr (''Volume '' @ v_Name v' @
            '' cannot be deleted because it has snapshots''))) else Delete E v' True)) vols ?Q"
    if "shown (sv_own V) (v_Ai v) n gib" for v
  proof (rule reaches_bind [OF look [OF that]], clarify, goal_cases)
    case (1 h v' t)
    then show ?case unfolding prod.case by (intro delete) simp_all
  qed
  show ?thesis
    unfolding DeleteVolume_def
  proof (rule reaches_bind [OF get], elim exE conjE, simp only: prod.case option.case, rule reaches_try)
    fix a
    assume a: "shown (sv_own V) a n gib"
    show "reaches V (aiToClientVol E (Some a) False False True) vols (\<lambda>r t. (\<exists>v. r = Inr v \<and> v_Ai v = a) \<and> t = vols)"
      using convert_shown [OF a] unfolding yields_reaches by (rule reaches_weaken) blast
  next
    fix a and v :: volume and t
    assume "shown (sv_own V) a n gib" and "(\<exists>v'. Inr v = Inr v' \<and> v_Ai v' = a) \<and> t = vols"
    then show "reaches V (bindG (HasSnapshots E v) (\<lambda>(h, v'). case h of Inl e \<Rightarrow> ret (Inl e)
        | Inr snaps \<Rightarrow> if snaps then ret (Inl (PlainErr (''Volume '' @ v_Name v' @
            '' cannot be deleted because it has snapshots''))) else Delete E v' True)) t ?Q"
      using rest by auto
  qed auto
qed

lemma store_presence:
  assumes "store_reads E V" and "vols n = Some (gib, held)" and "sv_store V w = vols"
  shows "\<exists>ai w'. x_ai_get E n w = ((Some ai, None, None), w') \<and> shown (sv_own V) ai n gib \<and> sv_store V w' = vols"
proof -
  from assms(2,3) have "sv_store V w n = Some (gib, held)" by simp
  with assms(1) obtain ai w' where "x_ai_get E n w = ((Some ai, None, None), w')"
    and "shown (sv_own V) ai n gib" and "sv_store V w' = sv_store V w"
    by (rule store_present)
  then show ?thesis using assms(3) by auto
qed

lemma DeleteVolume_present:
  assumes "store_reads E V" and "store_writes E V" and "vols n = Some (gib, held)"
  shows "yields V (DeleteVolume E n True) vols
    (\<lambda>r. if held \<noteq> [] then \<exists>m. r = Inl (PlainErr (''Volume '' @ m @ '' cannot be deleted because it has snapshots''))
         else r = Inr ()) (if held \<noteq> [] then vols else vols(n := None))"
proof -
  have look: "reaches V (HasSnapshots E v) vols (\<lambda>(h, v) t. h = Inr (held \<noteq> []) \<and> shown (sv_own V) (v_Ai v) n gib \<and> t = vols)"
    if "shown (sv_own V) (v_Ai v) n gib" for v
    using HasSnapshots_yields [where vols = vols and n = n, OF assms(1) that assms(3) refl]
    unfolding yields_reaches by (rule reaches_weaken) auto
  have "reaches V (DeleteVolume E n True) vols (\<lambda>r t. if held \<noteq> []
      then (\<exists>m. r = Inl (PlainErr (''Volume '' @ m @ '' cannot be deleted because it has snapshots''))) \<and> t = vols
      else r = Inr () \<and> (\<exists>t'. t' = vols \<and> t = t'(n := None)))"
    by (rule DeleteVolume_look [where T = "\<lambda>t. t = vols" and gib = gib,
        OF store_presence [where vols = vols and n = n, OF assms(1,3)] look assms(2)])
      (simp_all add: assms(3))
  then show ?thesis
    unfolding yields_reaches by (rule reaches_weaken) (auto split: if_splits simp del: append.simps)
qed

section \<open>The handlers over the store\<close>

lemma registerAll_supported:
  "list_all capSupported vcs \<Longrightarrow> \<exists>md'. registerAll D md vcs = ret (Inr md')"
proof (induction vcs arbitrary: md)
  case (Cons vc vcs)
  then have "\<exists>md'. RegisterVolumeCapability D md vc = ret (Inr md')"
    by (auto simp: capSupported_def RegisterVolumeCapability_def Let_def isSupportedFs_def SupportedFsTypes_def
        split: option.splits access_type.splits)
  then obtain md' where "RegisterVolumeCapability D md vc = ret (Inr md')" by blast
  with Cons show ?case by simp
qed auto

lemma parseVolParams_no_source:
  "parseVolParams ps = Inr p \<Longrightarrow> vo_CloneVolSrc p = [] \<and> vo_CloneSnapSrc p = []"
  by (auto simp: parseVolParams_def bindS_def emptyOpts_def split: sum.splits)

lemma createWith_made:
  assumes "store_writes (dr_env D) V"
    and "yields V (CreateVolume (dr_env D) n (p\<lparr>vo_Size := sizeFor cr\<rparr>) False chap) vols
      (\<lambda>r. \<exists>vol. r = Inr vol \<and> v_Name vol = n) vols'"
    and "case cr of None \<Rightarrow> True | Some cr \<Rightarrow> cr_RequiredBytes cr \<le> cr_LimitBytes cr"
  shows "yields V (createWith D n md chap cr p) vols (\<lambda>r. createReply r = Made (mul64 (sizeFor cr) GiB) n) vols'"
proof -
  have range: "\<not> (case cr of None \<Rightarrow> False | Some cr \<Rightarrow> cr_LimitBytes cr < cr_RequiredBytes cr)"
    using assms(3) by (auto split: option.splits)
  have fail: "yields V (failWith D Unknown (CreateVolume (dr_env D) n (p\<lparr>vo_Size := sizeFor cr\<rparr>) False chap)) vols
      (\<lambda>r. \<exists>vol. r = Inr vol \<and> v_Name vol = n) vols'"
    unfolding failWith_def by (rule yields_bind [OF assms(2)], rule yields_ret) auto
  show ?thesis
    unfolding createWith_def Let_def if_not_P [OF range]
    by (rule yields_try [OF fail], rule yields_bind [OF SetMetadata_yields [OF assms(1)]], rule yields_ret)
      (simp add: createReply_def csiVolume_def)
qed

lemma createWith_yields:
  assumes "store_reads (dr_env D) V" and "store_writes (dr_env D) V" and "vols n = None"
    and "vo_Template p = []" "vo_CloneVolSrc p = []" "vo_CloneSnapSrc p = []"
    and "case cr of None \<Rightarrow> True | Some cr \<Rightarrow> cr_RequiredBytes cr \<le> cr_LimitBytes cr"
  shows "yields V (createWith D n md chap cr p) vols
    (\<lambda>r. createReply r = Made (mul64 (sizeFor cr) GiB) n) (vols(n \<mapsto> (sizeFor cr, [])))"
  using CreateVolume_yields [where vols = vols and name = n and opts = "p\<lparr>vo_Size := sizeFor cr\<rparr>", OF assms(1-3)] assms(4-6)
  by (intro createWith_made assms(2,7)) simp

text \<open>A request in order, but for its source: what is left to do is to find the source.\<close>

lemma createNew_in_order:
  assumes "plainCreate (req\<lparr>cvq_VolumeContentSource := None\<rparr>)"
  obtains md p where "vo_Template p = []" and "vo_CloneVolSrc p = []"
    and "createNew D ctxt n chap cr req = tryG (cloneSource D (cvq_VolumeContentSource req) []) (\<lambda>src.
      createWith D n md chap cr (p\<lparr>vo_CloneSnapSrc := src\<rparr>))"
proof -
  from assms obtain vcs p where caps: "cvq_VolumeCapabilities req = Some vcs" "list_all capSupported vcs"
    and params: "parseVolParams (cvq_Parameters req) = Inr p" "vo_Template p = []"
    and rest: "cvq_AccessibilityRequirements req = None"
    by (auto simp: plainCreate_def split: option.splits sum.splits)
  obtain md' where reg: "registerAll D (registerMdFromCtxt ctxt [''display_name'' \<mapsto> take 100 (cvq_Name req)]) vcs =
      ret (Inr md')"
    using registerAll_supported [OF caps(2)] by blast
  let ?p = "if ev_ReplicaOverride (dr_vars D) then p\<lparr>vo_Replica := 1\<rparr> else p"
  have "createNew D ctxt n chap cr req = tryG (cloneSource D (cvq_VolumeContentSource req) []) (\<lambda>src.
      createWith D n (md' ++ ToMap p) chap cr (?p\<lparr>vo_CloneSnapSrc := src\<rparr>))"
    using parseVolParams_no_source [OF params(1)]
    by (simp add: createNew_def caps params rest handleTopologyRequirement_def reg failWith_def Let_def)
  moreover have "vo_Template ?p = []" "vo_CloneVolSrc ?p = []"
    using params(2) parseVolParams_no_source [OF params(1)] by simp_all
  ultimately show thesis using that by blast
qed

lemma createNew_yields:
  assumes "store_reads (dr_env D) V" and "store_writes (dr_env D) V" and "vols n = None"
    and "plainCreate req"
  shows "yields V (createNew D ctxt n chap (map_option fillLimit (cvq_CapacityRange req)) req) vols
    (\<lambda>r. createReply r = Made (mul64 (sizeFor (map_option fillLimit (cvq_CapacityRange req))) GiB) n)
    (vols(n \<mapsto> (sizeFor (map_option fillLimit (cvq_CapacityRange req)), [])))"
proof -
  from assms(4) have src: "cvq_VolumeContentSource req = None"
    and range: "case map_option fillLimit (cvq_CapacityRange req) of None \<Rightarrow> True
       | Some cr \<Rightarrow> cr_RequiredBytes cr \<le> cr_LimitBytes cr"
    by (simp_all add: plainCreate_def)
  then have "plainCreate (req\<lparr>cvq_VolumeContentSource := None\<rparr>)" using assms(4) by (simp add: plainCreate_def)
  then obtain md p where p: "vo_Template p = []" "vo_CloneVolSrc p = []"
    and new: "createNew D ctxt n chap (map_option fillLimit (cvq_CapacityRange req)) req =
      tryG (cloneSource D (cvq_VolumeContentSource req) []) (\<lambda>src.
        createWith D n md chap (map_option fillLimit (cvq_CapacityRange req)) (p\<lparr>vo_CloneSnapSrc := src\<rparr>))"
    by (rule createNew_in_order)
  have "createNew D ctxt n chap (map_option fillLimit (cvq_CapacityRange req)) req =
      createWith D n md chap (map_option fillLimit (cvq_CapacityRange req)) (p\<lparr>vo_CloneSnapSrc := []\<rparr>)"
    by (simp add: new src cloneSource_def snapshotOf_def)
  then show ?thesis
    using createWith_yields [where vols = vols and n = n and p = "p\<lparr>vo_CloneSnapSrc := []\<rparr>", OF assms(1-3) _ _ _ range] p by simp
qed

lemma existing_reply:
  assumes "v_Size vol = gib" and "v_Name vol = n"
  shows "createReply (existingVolume cr vol) = (if fits cr gib then Made (mul64 gib GiB) n else Conflict)"
  using assms by (auto simp: existingVolume_def createReply_def fits_def csiVolume_def Let_def split: option.splits)

text \<open>The bracket and the interceptor around a body, when no call of its key is in progress.\<close>

lemma intercepted_free:
  assumes uuid: "\<And>w. fst (x_new_uuid (dr_env D) w) \<noteq> [] \<and> sv_store V (snd (x_new_uuid (dr_env D) w)) = sv_store V w"
    and "\<And>ctxt. reaches V (body ctxt) vols Q"
    and free: "callKey D piece fn req \<notin> rpcStatus s" and "sv_store V (ext s) = vols"
  shows "\<exists>x s'. logServerAndSetId (dr_env D) c (\<lambda>ctx. serve D ctx piece fn req body) s = (Ret x, s') \<and>
    Q x (sv_store V (ext s'))"
proof -
  obtain i w where i: "x_new_uuid (dr_env D) (ext s) = (i, w)" "i \<noteq> []" "sv_store V w = vols"
    using uuid [of "ext s"] assms(4) by (cases "x_new_uuid (dr_env D) (ext s)") simp
  let ?s = "s\<lparr>log := log s @ [NewUuid], ext := w\<rparr>" and ?k = "callKey D piece fn req"
  have free: "\<not> isRunning ?k ?s" using free by (simp add: isRunning_def)
  have store: "sv_store V (ext (setRunning ?k ?s)) = vols"
    by (simp add: setRunning_def i(3))
  obtain x s' where body: "body (dr_sdkContext D (topctxt\<lparr>ctx_TraceId := Some i, ctx_ReqName := Some (joinWith ''.'' [piece, fn])\<rparr>))
      (setRunning ?k ?s) = (Ret x, s')" and "Q x (sv_store V (ext s'))"
    by (rule reachesD [OF assms(2) store])
  have "logServerAndSetId (dr_env D) c (\<lambda>ctx. serve D ctx piece fn req body) s = (Ret x, clearRunning ?k s')"
    using free body
    by (simp add: logServerAndSetId_run [OF i(1,2)] serve_run [OF _ i(2)] topctxt_def Let_def del: joinWith.simps)
  moreover have "ext (clearRunning ?k s') = ext s'" by (simp add: clearRunning_def)
  ultimately show ?thesis using \<open>Q x (sv_store V (ext s'))\<close> by auto
qed

lemma intercepted_reaches:
  assumes "store_reads (dr_env D) V" and "\<And>ctxt. reaches V (body ctxt) vols Q"
    and "rpcStatus s = {}" and "sv_store V (ext s) = vols"
  shows "\<exists>x s'. logServerAndSetId (dr_env D) c (\<lambda>ctx. serve D ctx piece fn req body) s = (Ret x, s') \<and>
    Q x (sv_store V (ext s'))"
  by (rule intercepted_free [where vols = vols, OF _ assms(2) _ assms(4)]) (simp_all add: store_uuid [OF assms(1)] assms(3))

lemmas intercepted_yields = intercepted_reaches [where Q = "\<lambda>x t. P x \<and> t = vols'" for P vols', folded yields_reaches]

lemma contains_append: "contains (a @ b @ c) b"
proof (induction a)
  case Nil
  have "prefix b (b @ c)" by simp
  then show ?case by (cases "b @ c") simp_all
qed simp

text \<open>A creation: the name is looked up first; what follows when it is free is \<open>createNew\<close>'s.\<close>

lemma create_through:
  assumes "store_reads (dr_env D) V" and name: "ascii (cvq_Name req)" "cvq_Name req \<noteq> []"
    and "rpcStatus s = {}" and "sv_store V (ext s) = vols"
    and old: "\<And>gib held. vols (storeName (cvq_Name req)) = Some (gib, held) \<Longrightarrow>
      P (if fits (map_option fillLimit (cvq_CapacityRange req)) gib then Made (mul64 gib GiB) (storeName (cvq_Name req)) else Conflict) vols"
    and new: "\<And>ctxt chap secrets. vols (storeName (cvq_Name req)) = None \<Longrightarrow>
      reaches V (createNew D ctxt (storeName (cvq_Name req)) chap (map_option fillLimit (cvq_CapacityRange req))
        (req\<lparr>cvq_Secrets := secrets\<rparr>)) vols (\<lambda>r t. P (createReply r) t)"
  shows "\<exists>r s'. codeStep D (CreateCmd req) s = (Ret r, s') \<and> P r (sv_store V (ext s'))"
proof -
  let ?n = "storeName (cvq_Name req)" and ?cr = "map_option fillLimit (cvq_CapacityRange req)"
  define E where "E = dr_env D"
  define chap where "chap = snd (StripSecretsAndGetChapParams (WithSecrets (cvq_Secrets req)))"
  define req' where "req' = req\<lparr>cvq_Secrets := fst (StripSecretsAndGetChapParams (WithSecrets (cvq_Secrets req)))\<rparr>"
  have same: "cvq_Name req' = cvq_Name req" "cvq_CapacityRange req' = cvq_CapacityRange req"
    by (simp_all add: req'_def)
  have n: "?n \<noteq> []" by (simp add: storeName_def)
  have look: "reaches V (bindG (GetVolume E ?n False False) (\<lambda>r. case r of
        Inr vol \<Rightarrow> ret (existingVolume ?cr vol)
      | Inl _ \<Rightarrow> createNew D ctxt ?n chap ?cr req')) vols (\<lambda>r t. P (createReply r) t)" for ctxt
  proof (cases "vols ?n")
    case None
    show ?thesis
      by (rule reaches_bind [OF GetVolume_absent [where vols = vols and n = ?n, OF _ None n, unfolded yields_reaches]])
        (auto simp: E_def assms(1) req'_def intro: new [OF None])
  next
    case (Some x)
    obtain gib held where v: "vols ?n = Some (gib, held)" using Some by (cases x) simp
    show ?thesis
      by (rule reaches_bind [OF GetVolume_present [where vols = vols and n = ?n, OF _ v n, unfolded yields_reaches]])
        (use old [OF v] in \<open>auto simp: E_def assms(1) existing_reply intro!: reaches_ret\<close>)
  qed
  have "\<exists>x s'. logServerAndSetId (dr_env D) topctxt (\<lambda>ctx. CreateVolumeRpc D ctx req) s = (Ret x, s') \<and>
      P (createReply x) (sv_store V (ext s'))"
    unfolding CreateVolumeRpc_def split_beta Let_def req'_def [symmetric] chap_def [symmetric]
    by (rule intercepted_reaches [OF assms(1) _ assms(4,5)])
      (use look in \<open>simp add: same name GenName_run [OF name] E_def storeName_def reaches_def go_eval\<close>)
  then show ?thesis by (auto simp: go_eval)
qed

lemma create_refines:
  assumes "store_reads (dr_env D) V" and "store_writes (dr_env D) V" and "plainCreate req"
    and "rpcStatus s = {}" and "sv_store V (ext s) = vols"
  shows "\<exists>s'. codeStep D (CreateCmd req) s = (Ret (fst (specCreate req vols)), s') \<and>
    sv_store V (ext s') = snd (specCreate req vols)"
proof -
  let ?n = "storeName (cvq_Name req)" and ?cr = "map_option fillLimit (cvq_CapacityRange req)"
  have plain: "ascii (cvq_Name req)" "cvq_Name req \<noteq> []" "plainCreate (req\<lparr>cvq_Secrets := secrets\<rparr>)" for secrets
    using assms(3) by (simp_all add: plainCreate_def)
  have "\<exists>r s'. codeStep D (CreateCmd req) s = (Ret r, s') \<and>
      r = fst (specCreate req vols) \<and> sv_store V (ext s') = snd (specCreate req vols)"
  proof (rule create_through [OF assms(1) plain(1,2) assms(4,5)])
    fix ctxt chap secrets
    assume None: "vols ?n = None"
    from createNew_yields [where vols = vols and n = ?n and req = "req\<lparr>cvq_Secrets := secrets\<rparr>", OF assms(1,2) None plain(3)] None
    show "reaches V (createNew D ctxt ?n chap ?cr (req\<lparr>cvq_Secrets := secrets\<rparr>)) vols
        (\<lambda>r t. createReply r = fst (specCreate req vols) \<and> t = snd (specCreate req vols))"
      by (simp add: yields_reaches specCreate_def Let_def)
  qed (simp add: specCreate_def Let_def)
  then show ?thesis by blast
qed

lemma DeleteVolume_reply:
  assumes "store_reads (dr_env D) V" and "store_writes (dr_env D) V" and "n \<noteq> []"
  shows "yields V (DeleteVolume (dr_env D) n True) vols
    (\<lambda>r. (case r of
        Inl e \<Rightarrow> if contains (ErrorText (dr_env D) e) ''it has snapshots'' then HeldBySnapshots else Deleted
      | Inr _ \<Rightarrow> Deleted) = fst (specDelete n vols)) (snd (specDelete n vols))"
proof (cases "vols n")
  case None
  then have spec: "specDelete n vols = (Deleted, vols)" using assms(3) by (simp add: specDelete_def)
  have "\<not> contains ''Cannot construct a Client Volume from a nil AppInstance'' ''it has snapshots''"
    by code_simp
  then show ?thesis
    unfolding spec prod.sel
    by (intro yields_weaken [OF DeleteVolume_absent [where vols = vols and n = n, OF assms(1) None]])
      (simp add: ErrorText_def del: contains.simps)
next
  case (Some x)
  obtain gib held where v: "vols n = Some (gib, held)" using Some by (cases x) simp
  then have spec: "specDelete n vols = (if held \<noteq> [] then (HeldBySnapshots, vols) else (Deleted, vols(n := None)))"
    using assms(3) by (simp add: specDelete_def)
  have said: "contains (''Volume '' @ m @ '' cannot be deleted because it has snapshots'') ''it has snapshots''" for m
    using contains_append [of "''Volume '' @ m @ '' cannot be deleted because ''" "''it has snapshots''" "[]"]
    by (simp del: contains.simps)
  note y = DeleteVolume_present [where vols = vols and n = n, OF assms(1,2) v]
  show ?thesis
  proof (cases "held \<noteq> []")
    case True
    with spec have spec': "specDelete n vols = (HeldBySnapshots, vols)" by simp
    from y True have "yields V (DeleteVolume (dr_env D) n True) vols
        (\<lambda>r. \<exists>m. r = Inl (PlainErr (''Volume '' @ m @ '' cannot be deleted because it has snapshots''))) vols"
      by (simp del: append.simps)
    then show ?thesis
      unfolding spec' prod.sel
      by (rule yields_weaken) (use said in \<open>auto simp: ErrorText_def simp del: contains.simps append.simps\<close>)
  next
    case False
    with spec have spec': "specDelete n vols = (Deleted, vols(n := None))" by simp
    from y False have "yields V (DeleteVolume (dr_env D) n True) vols (\<lambda>r. r = Inr ()) (vols(n := None))"
      by simp
    then show ?thesis
      unfolding spec' prod.sel by (rule yields_weaken) simp
  qed
qed

lemma delete_refines:
  assumes "store_reads (dr_env D) V" and "store_writes (dr_env D) V"
    and "rpcStatus s = {}" and "sv_store V (ext s) = vols"
  shows "\<exists>s'. codeStep D (DeleteCmd req) s = (Ret (fst (specDelete (dvq_VolumeId req) vols)), s') \<and>
    sv_store V (ext s') = snd (specDelete (dvq_VolumeId req) vols)"
proof -
  let ?spec = "specDelete (dvq_VolumeId req) vols"
  define E where "E = dr_env D"
  define req' where "req' = req\<lparr>dvq_Secrets := fst (StripSecretsAndGetChapParams (WithSecrets (dvq_Secrets req)))\<rparr>"
  have same: "dvq_VolumeId req' = dvq_VolumeId req" by (simp add: req'_def)
  have body: "yields V (if dvq_VolumeId req = [] then ret (Inl (StatusErr InvalidArgument ''VolumeId cannot be empty''))
      else bindG (DeleteVolume E (dvq_VolumeId req) True) (\<lambda>r. ret (case r of
        Inl e \<Rightarrow> if contains (ErrorText E e) ''it has snapshots''
          then Inl (StatusErr FailedPrecondition ''Volumes with snapshots cannot be deleted.  Delete snapshots first'')
          else Inr ()
      | Inr _ \<Rightarrow> Inr ()))) vols (\<lambda>r. deleteReply r = fst ?spec) (snd ?spec)"
  proof (cases "dvq_VolumeId req = []")
    case True
    then show ?thesis by (simp add: specDelete_def deleteReply_def yields_ret)
  next
    case False
    show ?thesis
      unfolding if_not_P [OF False]
      by (rule yields_bind [OF DeleteVolume_reply [where vols = vols and n = "dvq_VolumeId req", OF assms(1,2) False,
              folded E_def]], rule yields_ret)
        (auto simp: deleteReply_def split: sum.splits if_splits simp del: contains.simps)
  qed
  have "\<exists>x s'. logServerAndSetId (dr_env D) topctxt (\<lambda>ctx. DeleteVolumeRpc D ctx req) s = (Ret x, s') \<and>
      deleteReply x = fst ?spec \<and> sv_store V (ext s') = snd ?spec"
    unfolding DeleteVolumeRpc_def split_beta Let_def req'_def [symmetric] same E_def [symmetric]
    by (rule intercepted_yields [OF assms(1) body assms(3,4), unfolded E_def [symmetric]])
  then show ?thesis by (auto simp: go_eval)
qed

lemma interceptor_frame [frame_intros]:
  "(\<And>c. frame (keeps driver_fields) (h c)) \<Longrightarrow> frame (keeps driver_fields) (logServerAndSetId E ctx h)"
  unfolding logServerAndSetId_def by (intro frame_intros)

lemma codeStep_frame: "frame (keeps driver_fields) (codeStep D c)"
  by (cases c) (auto intro!: frame_intros CreateVolumeRpc_frame)

section \<open>Refinement\<close>

lemma codeStep_refines:
  assumes "store_reads (dr_env D) V" and "store_writes (dr_env D) V" and "plain c"
    and "rpcStatus s = {}" and "sv_store V (ext s) = vols"
  shows "\<exists>s'. codeStep D c s = (Ret (fst (specStep c vols)), s') \<and> rpcStatus s' = {} \<and>
    sv_store V (ext s') = snd (specStep c vols)"
proof -
  have "\<exists>s'. codeStep D c s = (Ret (fst (specStep c vols)), s') \<and> sv_store V (ext s') = snd (specStep c vols)"
    using create_refines [OF assms(1,2) _ assms(4,5)] delete_refines [OF assms(1,2,4,5)] assms(3)
    by (cases c) (simp_all del: codeStep.simps)
  then obtain s' where run: "codeStep D c s = (Ret (fst (specStep c vols)), s')"
    and "sv_store V (ext s') = snd (specStep c vols)" by blast
  moreover have "rpcStatus s' = {}"
    using frameD [OF keeps_parts(1) [OF codeStep_frame] run] assms(4) by (simp add: keeps_def)
  ultimately show ?thesis by blast
qed

text \<open>On a backend that keeps a store of volumes, any sequence of requests to create plain volumes
  and to delete volumes, each through the interceptor and its whole handler, returns without a
  panic the replies that the specification gives, and leaves the backend with the store that the
  specification computes.\<close>

theorem controller_refines_store:
  assumes "store_reads (dr_env D) V" and "store_writes (dr_env D) V" and "list_all plain cs"
    and "rpcStatus s = {}"
  shows "\<exists>s'. mapG (codeStep D) cs s = (Ret (fst (specRun cs (sv_store V (ext s)))), s') \<and>
    sv_store V (ext s') = snd (specRun cs (sv_store V (ext s)))"
  using assms(3,4)
proof (induction cs arbitrary: s)
  case Nil
  then show ?case by (simp add: go_eval)
next
  case (Cons c cs)
  from Cons.prems have "plain c" "list_all plain cs" by simp_all
  from codeStep_refines [OF assms(1,2) this(1) Cons.prems(2) refl]
  obtain s1 where s1: "codeStep D c s = (Ret (fst (specStep c (sv_store V (ext s)))), s1)" "rpcStatus s1 = {}"
    "sv_store V (ext s1) = snd (specStep c (sv_store V (ext s)))" by blast
  from Cons.IH [OF \<open>list_all plain cs\<close> s1(2)] s1 show ?case
    by (auto simp: go_eval split_beta simp del: codeStep.simps specStep.simps)
qed

end
