(* ===== verification/Iscsi_Relay.thy ===== *)
theory Iscsi_Relay
  imports Client_Access
begin

text \<open>
  \<open>cmd/iscsi-recv\<close> and \<open>cmd/iscsi-send\<close>: a server on the host that runs iSCSI commands and tells
  the initiator's name, and its client in the driver's container, which sends one command and, the
  first time, stores the host's initiator name. The two run in different file systems: the server
  on an \<open>env\<close> and state of its own. The connection between them is gRPC; the client's side takes
  the two remote calls as arguments. \<open>Fatal\<close> ends the process and is a panic of the model.
\<close>

section \<open>The server\<close>

definition rpcUnknown :: "'w env \<Rightarrow> goerr \<Rightarrow> goerr" where
  "rpcUnknown E e = StatusErr Unknown (x_sprintf0 E (ErrorText E e))"

definition SendArgs :: "'w env \<Rightarrow> string \<Rightarrow> ('w, goerr + string) io" where
  "SendArgs E args =
     bindG (RunCmd E (splitOn CHR '' '' args)) (\<lambda>(result, err).
     ret (case err of Some e \<Rightarrow> Inl (rpcUnknown E e) | None \<Rightarrow> Inr result))"

definition GetInitiatorName :: "'w env \<Rightarrow> ('w, goerr + string) io" where
  "GetInitiatorName E =
     bindG (GetClientIqn E) (\<lambda>r. ret (case r of Inl e \<Rightarrow> Inl (rpcUnknown E e) | Inr iqn \<Rightarrow> Inr iqn))"

section \<open>The client\<close>

definition etcIscsi :: string where "etcIscsi = ''/etc/iscsi''"

definition fatal :: "('s, 'a) go" where "fatal = panic ''exit status 1''"

definition setupInitName :: "'w env \<Rightarrow> ('w, goerr + string) io \<Rightarrow> ('w, unit) io" where
  "setupInitName E remoteName =
     bindG (extG (StatFile etcIscsi) (x_not_exist E etcIscsi)) (\<lambda>missing.
     if missing then
       bindG (extG (MkdirAll etcIscsi) (x_mkdir_all E etcIscsi)) (\<lambda>err. case err of
         Some _ \<Rightarrow> fatal
       | None \<Rightarrow>
           bindG remoteName (\<lambda>resp. case resp of
             Inl _ \<Rightarrow> fatal
           | Inr name \<Rightarrow>
               let dat = ''InitiatorName='' @ name in
               bindG (extG (WriteFile initiatorFile dat) (x_write_file E initiatorFile dat)) (\<lambda>err. case err of
                 Some _ \<Rightarrow> fatal
               | None \<Rightarrow> ret ())))
     else ret ())"

text \<open>\<open>main\<close>: the text printed, if there is a reply. "exit status 21" is iscsiadm's "no objects
  found".\<close>

definition sendMain ::
    "'w env \<Rightarrow> ('w, goerr + string) io \<Rightarrow> (string \<Rightarrow> ('w, goerr + string) io) \<Rightarrow> string \<Rightarrow> ('w, string option) io" where
  "sendMain E remoteName remoteSend args =
     bindG (setupInitName E remoteName) (\<lambda>_.
     bindG (remoteSend args) (\<lambda>r. case r of
       Inl e \<Rightarrow> if contains (ErrorText E e) ''exit status 21'' then ret None else fatal
     | Inr result \<Rightarrow> ret (Some result)))"

section \<open>Effects\<close>

lemma relay_frame [frame_intros]:
  "frame (keeps driver_fields) (SendArgs E args)"
  "frame (keeps driver_fields) (GetInitiatorName E)"
  unfolding SendArgs_def GetInitiatorName_def GetClientIqn_def
  by (intro frame_intros)+

section \<open>The name that is stored is the name that is read\<close>

text \<open>A name that survives: no equals sign, not empty, no white space around it.\<close>

definition plainIqn :: "string \<Rightarrow> bool" where
  "plainIqn name \<longleftrightarrow> name \<noteq> [] \<and> CHR ''='' \<notin> set name \<and> \<not> isSpace (hd name) \<and> \<not> isSpace (last name)"

lemma dropWhile_start: "xs \<noteq> [] \<Longrightarrow> \<not> P (hd xs) \<Longrightarrow> dropWhile P xs = xs"
  by (cases xs) simp_all

lemma trim_line:
  assumes "plainIqn name" and "pre \<noteq> []" and "\<not> isSpace (hd pre)"
  shows "TrimSpace (pre @ name) = pre @ name"
proof -
  have "hd (rev (pre @ name)) = last name"
    using assms(1) by (simp only: hd_rev last_append plainIqn_def if_False)
  then have "dropWhile isSpace (rev (pre @ name)) = rev (pre @ name)"
    using assms(1,2) by (intro dropWhile_start) (simp_all add: plainIqn_def)
  moreover have "dropWhile isSpace (pre @ name) = pre @ name"
    using assms(2,3) by (intro dropWhile_start) simp_all
  ultimately show ?thesis
    by (simp only: TrimSpace_def trimBytes_def rev_rev_ident)
qed

lemma split_line:
  assumes "plainIqn name"
  shows "splitOn CHR ''='' (''InitiatorName='' @ name) = [''InitiatorName'', name]"
  using assms splitOn_append [of "CHR ''=''" "''InitiatorName''" name]
  by (simp add: plainIqn_def splitOn_no_sep)

text \<open>C40: in a container without the iSCSI directory, after the client has stored the name that the
  server told, the driver's own lookup of its initiator name gives that name. The file system
  returns what was written.\<close>

theorem initiator_name_relayed:
  assumes "x_not_exist E etcIscsi (ext s) = (True, w1)"
    and "x_mkdir_all E etcIscsi w1 = (None, w2)"
    and "remoteName (s\<lparr>log := log s @ [StatFile etcIscsi, MkdirAll etcIscsi], ext := w2\<rparr>) = (Ret (Inr name), s3)"
    and "x_write_file E initiatorFile (''InitiatorName='' @ name) (ext s3) = (None, w4)"
    and "x_read_file E initiatorFile w4 = ((''InitiatorName='' @ name, None), w5)"
    and "plainIqn name"
  shows "fst (bindG (setupInitName E remoteName) (\<lambda>_. GetClientIqn E) s) = Ret (Inr name)"
proof -
  have "setupInitName E remoteName s =
      (Ret (), s3\<lparr>log := log s3 @ [WriteFile initiatorFile (''InitiatorName='' @ name)], ext := w4\<rparr>)"
    using assms(1-4) by (simp add: setupInitName_def go_eval Let_def)
  moreover have "splitOn CHR ''='' (TrimSpace (''InitiatorName='' @ name)) = [''InitiatorName'', name]"
    using split_line [OF assms(6)] trim_line [OF assms(6), of "''InitiatorName=''"]
    by (simp only: list.sel) (simp add: isSpace_def)
  ultimately show ?thesis
    using assms(5) GetClientIqn_run [of E "s3\<lparr>log := log s3 @ [WriteFile initiatorFile (''InitiatorName='' @ name)], ext := w4\<rparr>"
        "''InitiatorName='' @ name" w5 "''InitiatorName''" name "[]"]
    by (simp add: go_eval)
qed

end
