(* ===== verification/Entry_Points.thy ===== *)
theory Entry_Points
  imports Driver_Server Iscsi_Relay
begin

text \<open>
  The \<open>main\<close> functions of the two servers, \<open>cmd/dat-csi-plugin/main.go\<close> and
  \<open>cmd/iscsi-recv/main.go\<close>. The result is the exit code; \<open>log.Fatal\<close> ends the process with code 1
  and is \<open>fatal\<close>. The command line is an argument.
\<close>

section \<open>The plugin\<close>

text \<open>\<open>udc.GetConfig\<close> of the configuration package is an argument, and so is what the driver is
  built from.\<close>

definition pluginMain ::
    "bool \<Rightarrow> ('w, goerr + unit) io \<Rightarrow> ('w, goerr + 'w driver) io \<Rightarrow> 'w host \<Rightarrow> ('w, int) io" where
  "pluginMain version getConfig newDateraDriver H =
     (if version then ret 0
      else
        bindG getConfig (\<lambda>conf. case conf of
          Inl _ \<Rightarrow> fatal
        | Inr _ \<Rightarrow>
            bindG newDateraDriver (\<lambda>d. case d of
              Inl _ \<Rightarrow> fatal
            | Inr D \<Rightarrow>
                bindG (Run D H) (\<lambda>err. case err of Some _ \<Rightarrow> fatal | None \<Rightarrow> ret 0))))"

section \<open>The relay's server\<close>

definition recvMain :: "'w host \<Rightarrow> string \<Rightarrow> ('w, unit) io" where
  "recvMain H addr = (case ho_url_parse H addr of
      Inl _ \<Rightarrow> fatal
    | Inr (_, host, path) \<Rightarrow>
        let addr = ho_path_join H host path
        in bindG (removeSocket H addr) (\<lambda>err. case err of
             Some _ \<Rightarrow> fatal
           | None \<Rightarrow>
               bindG (extG (ListenOn ''unix'' addr) (ho_listen H ''unix'' addr)) (\<lambda>err. case err of
                 Some _ \<Rightarrow> fatal
               | None \<Rightarrow>
                   bindG (noteG (RegisterService ''Iscsiadm'')) (\<lambda>_.
                   bindG (noteG (RegisterService ''reflection'')) (\<lambda>_.
                   bindG (extG ServeRpcs (ho_serve H)) (\<lambda>err. case err of
                     Some _ \<Rightarrow> fatal
                   | None \<Rightarrow> ret ()))))))"

section \<open>Exit codes\<close>

text \<open>The plugin exits with code 0 when it was asked for its version, or when its server ended
  without an error; and in the first case it has done nothing else.\<close>

theorem pluginMain_exits:
  "pluginMain True cfg drv H s = (Ret 0, s) \<and>
   (fst (pluginMain False (ret (Inr ())) (ret (Inr D)) H s) = Ret 0) =
     (fst (Run D H s) = Ret None)"
  by (auto simp: pluginMain_def go_eval fatal_def split: prod.splits outcome.splits option.splits)

text \<open>The relay's server serves only behind an open listener.\<close>

lemma recvMain_fails_early:
  assumes "\<And>sch a w. fst (ho_listen H sch a w) \<noteq> None"
  shows "frame (logs (\<lambda>e. \<not> starts e)) (recvMain H addr)"
  unfolding recvMain_def removeSocket_def Let_def fatal_def
  by (intro frame_intros listen_refused [OF assms]; simp add: fatal_def frame_intros)

end
