(* ===== verification/Demo_Runs.thy ===== *)
theory Demo_Runs
  imports No_Panic Client_Lifecycle Call_Table Driver_Node Driver_Identity Store_Refinement Entry_Points
begin

text \<open>
  The theorems with hypotheses, applied to runs on the backend and host of \<open>Demo_Backend\<close>: each
  \<open>..._witness\<close> shows that the hypotheses hold there, and what follows.
\<close>

section \<open>Drivers on the small backend\<close>

definition demoDriver :: "demo env \<Rightarrow> string \<Rightarrow> demo driver" where
  "demoDriver E t = newDriver E (\<lambda>c. c) (\<lambda>_. ''req'') (\<lambda>xs. xs)
     (\<lambda>v. if v = ''DAT_TYPE'' then t else []) ''host'' ''1.0''"

lemma demoDriver_simps [simp]:
  "dr_env (demoDriver E t) = E" "dr_version (demoDriver E t) = ''1.0''"
  "ev_Type (dr_vars (demoDriver E t)) = (case StrToType t of None \<Rightarrow> 0 | Some i \<Rightarrow> i)"
  by (simp_all add: demoDriver_def newDriver_def readEnvVars_def Let_def)

definition tracedCtx :: rpc_ctx where
  "tracedCtx = topctxt\<lparr>ctx_TraceId := Some ''t-1''\<rparr>"

lemma tracedCtx_id [simp]: "ctx_TraceId tracedCtx = Some ''t-1''"
  by (simp add: tracedCtx_def)

lemma demoSt_simps [simp]:
  "ext (demoSt w) = w" "log (demoSt w) = []" "rpcStatus (demoSt w) = {}" "d_manifest (demoSt w) = None"
  "healthy (demoSt w) = False"
  by (simp_all add: demoSt_def)

lemma demoSt_idle [simp]: "\<not> isRunning k (demoSt w)"
  by (simp add: isRunning_def)

section \<open>Background\<close>

definition downEnv :: "demo env" where
  "downEnv = demoEnv\<lparr>x_sys_get := (\<lambda>w. ((None, Some notFound, None), w))\<rparr>"

theorem heartbeat_failure_panics_witness:
  "fst (Heartbeater (demoDriver downEnv ''controller'') 1 (demoSt demoWorld)) =
     Panic ''invalid memory address or nil pointer dereference''"
  using heartbeat_failure_panics [of "demoDriver downEnv ''controller''" "demoSt demoWorld"
      "(None, Some notFound, None)" demoWorld "ErrTranslator notFound" 0]
  by (simp add: heartbeatNode_def driver_types StrToType_def downEnv_def sdkResult_def)

section \<open>Sizes\<close>


section \<open>Deleting\<close>

definition someDelete :: "string \<Rightarrow> delete_volume_req" where
  "someDelete vid = \<lparr>dvq_VolumeId = vid, dvq_Secrets = Map.empty\<rparr>"

lemma strip_nothing: "fst (StripSecretsAndGetChapParams (WithSecrets Map.empty)) = Map.empty"
  by (simp add: StripSecretsAndGetChapParams_def stripKey_def)

text \<open>A volume that is not there: the client's error is reported as success.\<close>

theorem DeleteVolumeRpc_reports_witness:
  "fst (DeleteVolumeRpc (demoDriver demoEnv ''controller'') tracedCtx (someDelete ''CSI-z'') (demoSt demoWorld)) =
   Ret (Inr ())"
proof -
  let ?D = "demoDriver demoEnv ''controller''" and ?req = "someDelete ''CSI-z''"
  let ?k = "callKey ?D ''controller'' ''DeleteVolume'' (ReqDeleteVolume (?req\<lparr>dvq_Secrets := Map.empty\<rparr>))"
  let ?e = "PlainErr ''Cannot construct a Client Volume from a nil AppInstance''"
  obtain s' where run: "DeleteVolume (dr_env ?D) (dvq_VolumeId ?req) True (setRunning ?k (demoSt demoWorld)) = (Ret (Inl ?e), s')"
    by (simp add: DeleteVolume_def go_eval demo_calls found_def demoWorld_def someDelete_def setRunning_def
        aiToClientVol_def)
  show ?thesis
    using DeleteVolumeRpc_reports [OF tracedCtx_id _ _ _ refl _ run]
    by (simp add: someDelete_def strip_nothing ErrorText_def)
qed

section \<open>No panics\<close>

definition someCreate :: create_volume_req where
  "someCreate = \<lparr>cvq_Name = ''pvc-9'', cvq_CapacityRange = None,
     cvq_VolumeCapabilities = Some [Some \<lparr>vcp_AccessMode = Some ''SINGLE_NODE_WRITER'', vcp_AccessType = BlockAccess\<rparr>],
     cvq_Parameters = Map.empty, cvq_Secrets = Map.empty, cvq_VolumeContentSource = None,
     cvq_AccessibilityRequirements = None\<rparr>"


section \<open>The host\<close>

definition hostVol :: volume where
  "hostVol = (clientVol True (demoAi ''CSI-a'' 16) (demoSi ''CSI-a'' 16) (demoDv ''CSI-a'' 16)
     \<lparr>acl_Initiators = []\<rparr> [])\<lparr>v_DevicePath := ''/dev/sdb''\<rparr>"

definition xfsEntry :: LsBlkEntry where
  "xfsEntry = \<lparr>lbe_Name = ''sdb'', lbe_FsType = ''xfs'', lbe_Label = [], lbe_Uuid = [], lbe_MountPoint = []\<rparr>"

definition formattedEnv :: "demo env" where
  "formattedEnv = demoEnv\<lparr>x_lsblk_json := (\<lambda>_. Inr (Some \<lparr>lb_BlockDevices = [Some xfsEntry]\<rparr>))\<rparr>"

theorem Format_spares_data_witness:
  "log (snd (Format formattedEnv hostVol ''ext4'' [] 60 (demoSt demoWorld))) =
     [Exec [''lsblk'', ''-f'', ''/dev/sdb'', ''--json'']]"
proof -
  have dev: "v_DevicePath hostVol = ''/dev/sdb''" "\<not> v_Formatted hostVol"
    by (simp_all add: hostVol_def clientVol_def)
  show ?thesis
    using Format_spares_data [of formattedEnv hostVol "demoSt demoWorld" "[]" demoWorld
        "\<lparr>lb_BlockDevices = [Some xfsEntry]\<rparr>" xfsEntry "[]" "''ext4''" "[]" 60]
    by (simp add: dev formattedEnv_def xfsEntry_def demoEnv_def TrimSpace_def trimBytes_def isSpace_def)
qed

definition busyEnv :: "demo env" where
  "busyEnv = demoEnv\<lparr>x_exec := (\<lambda>_ w. (([], Some unsupported), w))\<rparr>"

theorem unmount_removes_mounted_witness:
  "fst (unmount busyEnv ''/mnt/v'' (demoSt demoWorld)) = Ret (Inr ()) \<and>
   log (snd (unmount busyEnv ''/mnt/v'' (demoSt demoWorld))) = [Exec [''umount'', ''/mnt/v''], RemoveAll ''/mnt/v'']"
  using unmount_removes_mounted [of busyEnv "''/mnt/v''" "demoSt demoWorld" "[]" unsupported demoWorld
      "snd (x_remove_all demoEnv ''/mnt/v'' demoWorld)"]
  by (simp add: busyEnv_def demoEnv_def TrimSpace_def trimBytes_def isSpace_def)

theorem checkDeviceSize_blind_witness:
  "fst (checkDeviceSize busyEnv ''/dev/sdb'' 100 (demoSt demoWorld)) = Ret (Inr ())"
  by (rule checkDeviceSize_blind) (simp add: silent_def busyEnv_def)

section \<open>Access lists\<close>

definition hostInit :: client_initiator where
  "hostInit = \<lparr>ci_Init = pathOnly ''/initiators/h'', ci_Name = ''h'', ci_Path = ''/initiators/h'', ci_Iqn = ''iqn.h''\<rparr>"

definition twoHosts :: acl_policy where
  "twoHosts = \<lparr>acl_Initiators = [pathOnly ''/initiators/h'', pathOnly ''/initiators/other'']\<rparr>"

definition sharedEnv :: "demo env" where
  "sharedEnv = demoEnv\<lparr>x_acl_get := (\<lambda>_ w. found (Some twoHosts) w)\<rparr>"

lemma hostVol_parts:
  "ai_StorageInstances (v_Ai hostVol) = [demoSi ''CSI-a'' 16]"
  "si_AclPolicy (demoSi ''CSI-a'' 16) = Some \<lparr>acl_Initiators = []\<rparr>"
  "si_Path (demoSi ''CSI-a'' 16) = ''/si/CSI-a''"
  by (simp_all add: hostVol_def clientVol_def demoAi_def demoSi_def)

lemma shared_calls:
  "x_acl_get sharedEnv si w = ((Some twoHosts, None, None), w)"
  "x_acl_set sharedEnv acl is w = ((Some (acl\<lparr>acl_Initiators := is\<rparr>), None, None), w)"
  by (simp_all add: sharedEnv_def demo_calls found_def)

text \<open>The host that should have gone stays, and the other one is gone.\<close>

theorem UnregisterAcl_writes_witness:
  "log (snd (UnregisterAcl sharedEnv hostVol (Some hostInit) (demoSt demoWorld))) =
     [AclGet ''/si/CSI-a'', AclSet ''/si/CSI-a'' [pathOnly ''/initiators/h'']]"
  using UnregisterAcl_writes [where E = sharedEnv and r = hostVol and ci = hostInit and s = "demoSt demoWorld"
      and si = "demoSi ''CSI-a'' 16" and sis = "[]" and ?acl0.0 = "\<lparr>acl_Initiators = []\<rparr>" and acl = twoHosts
      and w = demoWorld and n = 1 and w' = demoWorld
      and x = "Some (twoHosts\<lparr>acl_Initiators := [pathOnly ''/initiators/h'']\<rparr>)"]
  by (simp add: hostVol_parts shared_calls hostInit_def) (simp add: twoHosts_def pathOnly_def)

theorem RegisterAcl_writes_witness:
  "log (snd (RegisterAcl sharedEnv hostVol (Some hostInit) (demoSt demoWorld))) =
     [AclGet ''/si/CSI-a'', AclSet ''/si/CSI-a''
        [pathOnly ''/initiators/h'', pathOnly ''/initiators/other'', pathOnly ''/initiators/h'']]"
  using RegisterAcl_writes [where E = sharedEnv and r = hostVol and ci = hostInit and s = "demoSt demoWorld"
      and si = "demoSi ''CSI-a'' 16" and sis = "[]" and ?acl0.0 = "\<lparr>acl_Initiators = []\<rparr>" and acl = twoHosts
      and w = demoWorld and w' = demoWorld
      and inits = "[pathOnly ''/initiators/h'', pathOnly ''/initiators/other'', pathOnly ''/initiators/h'']"
      and x = "Some (twoHosts\<lparr>acl_Initiators := [pathOnly ''/initiators/h'', pathOnly ''/initiators/other'', pathOnly ''/initiators/h'']\<rparr>)"]
  by (simp add: hostVol_parts shared_calls hostInit_def) (simp add: twoHosts_def pathOnly_def)

definition refusingEnv :: "demo env" where
  "refusingEnv = demoEnv\<lparr>x_init_get := (\<lambda>_ w. ((None, Some \<lparr>ae_Name = ''AuthFailedError'', ae_Message = [], ae_Code = 1\<rparr>, None), w))\<rparr>"

theorem CreateGetInitiator_swallows_witness:
  "fst (CreateGetInitiator refusingEnv (demoSt demoWorld)) = Ret (Inr None)"
  using CreateGetInitiator_swallows [of refusingEnv "demoSt demoWorld" "''InitiatorName=iqn.host''" demoWorld
      "''InitiatorName''" "''iqn.host''" "[]" None
      "\<lparr>ae_Name = ''AuthFailedError'', ae_Message = [], ae_Code = 1\<rparr>" demoWorld hostVol]
  by (simp add: refusingEnv_def demoEnv_def demoWorld_def initiatorFile_def TrimSpace_def trimBytes_def isSpace_def)

section \<open>The node\<close>

definition somePublish :: publish_req where
  "somePublish = \<lparr>pbq_VolumeId = ''CSI-z'', pbq_StagingTargetPath = ''/stage'', pbq_TargetPath = ''/pod'',
     pbq_VolumeCapability = Some \<lparr>vcp_AccessMode = None, vcp_AccessType = BlockAccess\<rparr>, pbq_VolumeContext = None\<rparr>"

theorem NodePublish_missing_panics_witness:
  "fst (NodePublishVolume (demoDriver demoEnv ''node'') tracedCtx somePublish (demoSt demoWorld)) =
     Panic ''invalid memory address or nil pointer dereference''"
  using NodePublish_missing_panics [of tracedCtx "''t-1''" "demoDriver demoEnv ''node''" somePublish "demoSt demoWorld"
      "\<lparr>vcp_AccessMode = None, vcp_AccessType = BlockAccess\<rparr>" None notFound demoWorld]
  by (simp add: somePublish_def demo_calls found_def demoWorld_def)

definition plainMdEnv :: "demo env" where
  "plainMdEnv = demoEnv\<lparr>x_md_get := (\<lambda>_ w. found (Some [''fs_type'' \<mapsto> ''xfs'']) w)\<rparr>"

theorem NodeUnstage_keeps_volume_witness:
  "\<forall>req. frame (logs (\<lambda>e. \<not> destroys e)) (NodeUnstageVolume (demoDriver plainMdEnv ''node'') tracedCtx req)"
  by (intro allI NodeUnstage_keeps_volume) (auto simp: plainMdEnv_def found_def mdGet_def)

section \<open>Identity\<close>

theorem Probe_reports_witness:
  "Probe (demoDriver demoEnv ''identity'') tracedCtx (ReqOther []) (demoSt demoWorld) = (Ret (Inr False), demoSt demoWorld)"
  using Probe_reports [of tracedCtx "''t-1''" "demoDriver demoEnv ''identity''" "ReqOther []" "demoSt demoWorld"] by simp

theorem GetPluginInfo_cached_witness:
  "\<exists>info s'. GetPluginInfo (demoDriver demoEnv ''identity'') tracedCtx (ReqOther []) (demoSt demoWorld) = (Ret (Inr info), s') \<and>
     GetPluginInfo (demoDriver demoEnv ''identity'') tracedCtx (ReqOther []) s' = (Ret (Inr info), s')"
proof -
  let ?D = "demoDriver demoEnv ''identity''"
  obtain info s' where run: "GetPluginInfo ?D tracedCtx (ReqOther []) (demoSt demoWorld) = (Ret (Inr info), s')"
    by (simp add: GetPluginInfo_def serve_run [OF tracedCtx_id] getManifestData_def GetManifest_def failWith_def
        go_eval Let_def demo_calls found_def sdkResult_def setRunning_def)
  with GetPluginInfo_cached [OF tracedCtx_id _ run] show ?thesis by auto
qed

section \<open>Listing snapshots\<close>

text \<open>The two volumes listed in reverse order.\<close>

definition reversedEnv :: "demo env" where
  "reversedEnv = demoEnv\<lparr>x_schedule := (\<lambda>n. rev [0..<n])\<rparr>"


section \<open>The relay\<close>

definition freshWorld :: demo where
  "freshWorld = \<lparr>dm_ais = [], dm_snaps = [], dm_md = [], dm_files = [], dm_mounts = []\<rparr>"

theorem initiator_name_relayed_witness:
  "fst (bindG (setupInitName demoEnv (ret (Inr ''iqn.1994-05.com:h''))) (\<lambda>_. GetClientIqn demoEnv) (demoSt freshWorld)) =
     Ret (Inr ''iqn.1994-05.com:h'')"
proof -
  let ?w2 = "freshWorld\<lparr>dm_files := [(etcIscsi, [])]\<rparr>"
  let ?w4 = "freshWorld\<lparr>dm_files := [(initiatorFile, ''InitiatorName=iqn.1994-05.com:h''), (etcIscsi, [])]\<rparr>"
  let ?s3 = "(demoSt freshWorld)\<lparr>log := log (demoSt freshWorld) @ [StatFile etcIscsi, MkdirAll etcIscsi], ext := ?w2\<rparr>"
  show ?thesis
    by (rule initiator_name_relayed [where name = "''iqn.1994-05.com:h''" and ?w1.0 = freshWorld and ?w2.0 = ?w2
          and ?s3.0 = ?s3 and ?w4.0 = ?w4 and ?w5.0 = ?w4])
      (simp_all add: demoEnv_def freshWorld_def etcIscsi_def initiatorFile_def go_eval plainIqn_def isSpace_def)
qed

end
