(* ===== verification/Demo_Store.thy ===== *)
theory Demo_Store
  imports Demo_Runs
begin

text \<open>
  A backend that keeps the laws of the store of volumes, and a sequence of requests on it.
\<close>

section \<open>The backend\<close>

text \<open>The small backend with one canonical view of every volume: its size, and its snapshots as the world
  lists them. A new snapshot's stamp is longer than every stamp of its volume.\<close>

definition sizeOf :: "app_instance \<Rightarrow> int" where
  "sizeOf ai = (case parts ai of None \<Rightarrow> 0 | Some (si, dv, acl, t) \<Rightarrow> dv_Size dv)"

text \<open>The path of a snapshot starts with the length of its volume's path.\<close>

definition liveSnap :: "string \<Rightarrow> dsnapshot \<Rightarrow> dsnapshot" where
  "liveSnap path sn = (demoSnap path (sn_Uuid sn) (sn_UtcTs sn))
     \<lparr>sn_Path := replicate (length path) CHR ''v'' @ CHR ''/'' # path @ ''/snap/'' @ sn_UtcTs sn\<rparr>"

definition volumeOfPath :: "string \<Rightarrow> string" where
  "volumeOfPath p = (let n = length (takeWhile (\<lambda>c. c = CHR ''v'') p) in take n (drop (Suc n) p))"

definition liveSnaps :: "demo \<Rightarrow> string \<Rightarrow> dsnapshot list" where
  "liveSnaps w path = map (liveSnap path) (snapsOf w path)"

definition liveDv :: "demo \<Rightarrow> string \<Rightarrow> int \<Rightarrow> dvolume" where
  "liveDv w n gib = demoDv n gib\<lparr>dv_Snapshots := liveSnaps w (''/vol/'' @ n)\<rparr>"

definition liveAi :: "demo \<Rightarrow> string \<Rightarrow> int \<Rightarrow> app_instance" where
  "liveAi w n gib = demoAi n gib\<lparr>ai_StorageInstances := [demoSi n gib\<lparr>si_Volumes := [liveDv w n gib]\<rparr>]\<rparr>"

definition freshStamp :: "dsnapshot list \<Rightarrow> string" where
  "freshStamp sns = replicate (Suc (sum_list (map (length \<circ> sn_UtcTs) sns))) CHR ''1''"

definition duplicate :: apierr where
  "duplicate = \<lparr>ae_Name = ''InvalidRequestError'', ae_Message = ''uuid in use'', ae_Code = 15\<rparr>"

definition createdSize :: "demo \<Rightarrow> ai_create \<Rightarrow> int" where
  "createdSize w a = (case ac_CloneSnapshotSrc a of
      Some p \<Rightarrow> if ac_StorageInstances a = []
        then (case map_of (dm_ais w) (drop 5 (volumeOfPath p)) of None \<Rightarrow> 1 | Some ai \<Rightarrow> sizeOf ai)
        else askedSize a
    | None \<Rightarrow> askedSize a)"

definition ledgerEnv :: "demo env" where
  "ledgerEnv = demoEnv
     \<lparr>x_ai_get := (\<lambda>n w. found (map_option (\<lambda>ai. liveAi w n (sizeOf ai)) (map_of (dm_ais w) n)) w),
      x_ai_reload := (\<lambda>ai w. found (map_option (\<lambda>a. liveAi w (ai_Name ai) (sizeOf a)) (map_of (dm_ais w) (ai_Name ai))) w),
      x_ai_create := (\<lambda>a w.
        let ai = demoAi (ac_Name a) (createdSize w a)
        in ((Some ai, None, None), w\<lparr>dm_ais := (ac_Name a, ai) # dm_ais w,
              dm_snaps := (''/vol/'' @ ac_Name a, []) # dm_snaps w\<rparr>)),
      x_ai_set := (\<lambda>ai _ _ w. ((Some ai, None, None), w)),
      x_ai_delete := (\<lambda>ai _ w. ((Some ai, None, None), w\<lparr>dm_ais := AList.delete (ai_Name ai) (dm_ais w)\<rparr>)),
      x_vol_set := (\<lambda>dv n w.
        let name = drop 5 (dv_Path dv)
        in (case map_of (dm_ais w) name of
              Some ai \<Rightarrow> if sizeOf ai \<le> n then ((Some dv, None, None), w\<lparr>dm_ais := (name, demoAi name n) # dm_ais w\<rparr>)
                else ((None, Some notFound, None), w)
            | None \<Rightarrow> ((None, Some notFound, None), w))),
      x_snap_create := (\<lambda>dv c w.
        let old = snapsOf w (dv_Path dv); sn = demoSnap (dv_Path dv) (snc_Uuid c) (freshStamp old)
        in if snc_Uuid c \<in> sn_Uuid ` set old then ((None, Some duplicate, None), w)
           else ((Some sn, None, None), w\<lparr>dm_snaps := (dv_Path dv, old @ [sn]) # dm_snaps w\<rparr>)),
      x_snap_delete := (\<lambda>sn w. ((Some sn, None, None), w\<lparr>dm_snaps :=
        (volumeOfPath (sn_Path sn), filter (\<lambda>x. snapKey x \<noteq> snapKey sn) (snapsOf w (volumeOfPath (sn_Path sn)))) # dm_snaps w\<rparr>)),
      x_snap_reload := (\<lambda>sn w. found (Some (sn\<lparr>sn_OpState := ''available''\<rparr>)) w),
      x_snap_list := (\<lambda>dv w. ((liveSnaps w (dv_Path dv), None, None), w))\<rparr>"

definition ledgerView :: "demo store_view" where
  "ledgerView =
     \<lparr>sv_store = (\<lambda>w n. map_option (\<lambda>ai. (sizeOf ai, map snapKey (snapsOf w (''/vol/'' @ n)))) (map_of (dm_ais w) n)),
      sv_own = (\<lambda>ai. case parts ai of None \<Rightarrow> False | Some (si, dv, acl, t) \<Rightarrow> dv_Path dv = ''/vol/'' @ ai_Name ai \<and>
        (\<forall>sn \<in> set (dv_Snapshots dv). volumeOfPath (sn_Path sn) = dv_Path dv))\<rparr>"

lemma live_parts [simp]:
  "parts (liveAi w n g) = Some (demoSi n g\<lparr>si_Volumes := [liveDv w n g]\<rparr>, liveDv w n g, \<lparr>acl_Initiators = []\<rparr>, [])"
  by (simp add: parts_def liveAi_def demoAi_def demoSi_def)

lemma live_names [simp]: "ai_Name (liveAi w n g) = n" "dv_Path (liveDv w n g) = ''/vol/'' @ n" "dv_Size (liveDv w n g) = g"
  "dv_Snapshots (liveDv w n g) = liveSnaps w (''/vol/'' @ n)"
  by (simp_all add: liveAi_def liveDv_def demoAi_def)

lemma volumeOfPath: "volumeOfPath (sn_Path (liveSnap p sn)) = p"
proof -
  have "takeWhile (\<lambda>c. c = x) (replicate n x @ y # ys) = replicate n x" if "x \<noteq> y" for x y :: char and n ys
    using that by (induction n) auto
  then show ?thesis by (simp add: liveSnap_def volumeOfPath_def)
qed

lemma snap_keys [simp]: "snapKey (demoSnap p u t) = (u, t)" "map snapKey (liveSnaps w p) = map snapKey (snapsOf w p)"
  by (simp_all add: snapKey_def demoSnap_def liveSnap_def liveSnaps_def)

lemma live_shown [simp]: "shown (sv_own ledgerView) (liveAi w n g) n g"
  by (auto simp: shown_def ledgerView_def liveSnaps_def volumeOfPath simp del: append.simps)

lemma ledger_shown [simp]: "shown (sv_own ledgerView) (demoAi n g) n g" and ledger_size [simp]: "sizeOf (demoAi n g) = g"
  by (simp_all add: shown_def ledgerView_def sizeOf_def) (simp add: demoDv_def)

lemma sv_store_ledger: "sv_store ledgerView w n =
    map_option (\<lambda>ai. (sizeOf ai, map snapKey (snapsOf w (''/vol/'' @ n)))) (map_of (dm_ais w) n)"
  by (simp add: ledgerView_def)

lemma ledger_own: "sv_own ledgerView ai \<Longrightarrow> parts ai = Some (si, dv, acl, t) \<Longrightarrow> dv_Path dv = ''/vol/'' @ ai_Name ai"
  by (simp add: ledgerView_def)

lemma ledger_calls:
  "x_sys_get ledgerEnv = found (Some demoSys)" "x_new_uuid ledgerEnv = (\<lambda>w. (''u-1'', w))"
  "x_snap_list ledgerEnv = (\<lambda>dv w. ((liveSnaps w (dv_Path dv), None, None), w))"
  "x_ai_get ledgerEnv = (\<lambda>n w. found (map_option (\<lambda>ai. liveAi w n (sizeOf ai)) (map_of (dm_ais w) n)) w)"
  "x_ai_reload ledgerEnv = (\<lambda>ai w. found (map_option (\<lambda>a. liveAi w (ai_Name ai) (sizeOf a)) (map_of (dm_ais w) (ai_Name ai))) w)"
  "x_ai_set ledgerEnv = (\<lambda>ai _ _ w. ((Some ai, None, None), w))"
  "x_ai_delete ledgerEnv = (\<lambda>ai _ w. ((Some ai, None, None), w\<lparr>dm_ais := AList.delete (ai_Name ai) (dm_ais w)\<rparr>))"
  "x_snap_reload ledgerEnv = (\<lambda>sn w. found (Some (sn\<lparr>sn_OpState := ''available''\<rparr>)) w)" "x_uuid_sha1 ledgerEnv = (\<lambda>d n. d @ n)"
  by (simp_all add: ledgerEnv_def demoEnv_def)

lemma demo_version: "DatVersionGte (sy_SwVersion demoSys) ''3.3.0.0'' = Inr True"
proof -
  have p: "ParseInt ''0'' 10 = (0, None)" "ParseInt ''1'' 10 = (1, None)" "ParseInt ''3'' 10 = (3, None)"
    by (simp_all add: ParseInt_def ParseUint_def digitOf_def lowerc_def)
  have "versionToInt ''3.3.1.0'' = Inr 303010000" "versionToInt ''3.3.0.0'' = Inr 303000000"
    by (simp_all add: versionToInt_def p mul64_def add64_def int64_def)
  then show ?thesis
    by (simp add: DatVersionGte_def demoSys_def)
qed

lemma ledger_reads: "store_reads ledgerEnv ledgerView"
  unfolding store_reads_def ledger_calls
  by (auto simp: found_def sv_store_ledger demo_version ledger_own)

lemma createdSize_plain: "ac_StorageInstances a = [si] \<Longrightarrow> sc_Volumes si = [v] \<Longrightarrow> createdSize w a = vc_Size v"
  by (simp add: createdSize_def askedSize_def split: option.splits)

lemma ledger_writes: "store_writes ledgerEnv ledgerView"
proof -
  have create: "x_ai_create ledgerEnv = (\<lambda>a w.
        let ai = demoAi (ac_Name a) (createdSize w a)
        in ((Some ai, None, None), w\<lparr>dm_ais := (ac_Name a, ai) # dm_ais w,
              dm_snaps := (''/vol/'' @ ac_Name a, []) # dm_snaps w\<rparr>))"
    "x_md_get ledgerEnv = x_md_get demoEnv" "x_md_set ledgerEnv = x_md_set demoEnv"
    by (simp_all add: ledgerEnv_def demoEnv_def)
  show ?thesis
    unfolding store_writes_def ledger_calls create
    by (auto simp: sv_store_ledger createdSize_plain fun_eq_iff snapsOf_def Let_def demoEnv_def found_def delete_conv)
qed

definition demoCreate :: "string \<Rightarrow> int \<Rightarrow> int \<Rightarrow> store_cmd" where
  "demoCreate name least most = CreateCmd
     \<lparr>cvq_Name = name, cvq_CapacityRange = Some \<lparr>cr_RequiredBytes = least, cr_LimitBytes = most\<rparr>,
      cvq_VolumeCapabilities = Some [Some \<lparr>vcp_AccessMode = Some ''SINGLE_NODE_WRITER'', vcp_AccessType = BlockAccess\<rparr>],
      cvq_Parameters = Map.empty, cvq_Secrets = Map.empty, cvq_VolumeContentSource = None,
      cvq_AccessibilityRequirements = None\<rparr>"

definition demoDelete :: "string \<Rightarrow> store_cmd" where
  "demoDelete n = DeleteCmd \<lparr>dvq_VolumeId = n, dvq_Secrets = Map.empty\<rparr>"

definition demoCmds :: "store_cmd list" where
  "demoCmds = [demoCreate ''pvc'' 5368709120 5368709120, demoCreate ''pvc'' 5368709120 0,
     demoCreate ''pvc'' 1 5368709120, demoDelete ''CSI-b'', demoDelete ''CSI-pvc'', demoDelete ''CSI-pvc'']"

lemma demoCreate_plain:
  assumes "least \<le> most \<or> most = 0" and "ascii name" and "name \<noteq> []"
  shows "plain (demoCreate name least most)"
proof -
  have "ParseInt ''0'' 10 = (0, None)" "ParseInt ''3'' 10 = (3, None)"
    by (simp_all add: ParseInt_def ParseUint_def digitOf_def lowerc_def)
  moreover have "ParseBool ''false'' = Some False" by (simp add: ParseBool_def)
  ultimately have "\<exists>p. parseVolParams Map.empty = Inr p \<and> vo_Template p = []"
    by (simp add: parseVolParams_def bindS_def intParam_def boolParam_def paramOr_def)
  then show ?thesis
    using assms by (auto simp: demoCreate_def plainCreate_def capSupported_def fillLimit_def)
qed

lemma demoCmds_plain: "list_all plain demoCmds"
proof -
  have "ascii ''pvc''" by (simp add: ascii_def)
  then show ?thesis by (simp add: demoCmds_def demoDelete_def demoCreate_plain)
qed

lemma specStep_first:
  assumes "S ''CSI-pvc'' = None"
  shows "specStep (demoCreate ''pvc'' 5368709120 5368709120) S = (Made 5368709120 ''CSI-pvc'', S(''CSI-pvc'' \<mapsto> (5, [])))"
proof -
  have "int64 5" "int64 5368709120" by (simp_all add: int64_def)
  then have "sizeFor (Some \<lparr>cr_RequiredBytes = 5368709120, cr_LimitBytes = 5368709120\<rparr>) = 5" "mul64 5 GiB = 5368709120"
    by (simp_all add: sizeFor_def quot64_def mul64_def GiB_def)
  with assms show ?thesis
    by (simp add: demoCreate_def specCreate_def fillLimit_def storeName_def Let_def)
qed

lemma demoCmds_spec:
  "fst (specRun demoCmds (sv_store ledgerView demoWorld)) =
    [Made 5368709120 ''CSI-pvc'', Made 5368709120 ''CSI-pvc'', Conflict, HeldBySnapshots, Deleted, Deleted]"
proof -
  define S where "S = sv_store ledgerView demoWorld"
  have S: "S ''CSI-pvc'' = None" "S ''CSI-b'' = Some (20, [(''u-7'', ''1550370547.15'')])"
    by (simp_all add: S_def sv_store_ledger demoWorld_def snapsOf_def)
  have size: "mul64 5 GiB = 5368709120" by (simp add: mul64_def GiB_def int64_def)
  have name: "storeName ''pvc'' = ''CSI-pvc''" by (simp add: storeName_def)
  note first = specStep_first [where S = S, OF S(1)]
  let ?S = "S(''CSI-pvc'' \<mapsto> (5, []))"
  have again: "specStep (demoCreate ''pvc'' 5368709120 0) ?S = (Made 5368709120 ''CSI-pvc'', ?S)"
    "specStep (demoCreate ''pvc'' 1 5368709120) ?S = (Conflict, ?S)"
    by (simp_all add: demoCreate_def specCreate_def fillLimit_def fits_def size name Let_def)
  have held: "specStep (demoDelete ''CSI-b'') ?S = (HeldBySnapshots, ?S)"
    using S(2) by (simp add: demoDelete_def specDelete_def)
  have gone: "specStep (demoDelete ''CSI-pvc'') ?S = (Deleted, ?S(''CSI-pvc'' := None))"
    "specStep (demoDelete ''CSI-pvc'') (?S(''CSI-pvc'' := None)) = (Deleted, ?S(''CSI-pvc'' := None))"
    by (simp_all add: demoDelete_def specDelete_def)
  show ?thesis
    unfolding S_def [symmetric] demoCmds_def specRun.simps Let_def first again held gone split_beta prod.sel ..
qed

theorem controller_refines_store_witness:
  "fst (mapG (codeStep (demoDriver ledgerEnv ''controller'')) demoCmds (demoSt demoWorld)) =
    Ret [Made 5368709120 ''CSI-pvc'', Made 5368709120 ''CSI-pvc'', Conflict, HeldBySnapshots, Deleted, Deleted]"
proof -
  have "ext (demoSt demoWorld) = demoWorld" "rpcStatus (demoSt demoWorld) = {}"
    by (simp_all add: demoSt_def)
  then show ?thesis
    using controller_refines_store [of "demoDriver ledgerEnv ''controller''" ledgerView demoCmds "demoSt demoWorld"]
      ledger_reads ledger_writes demoCmds_plain
    by (auto simp: demoCmds_spec)
qed

end
