(* ===== verification/Ledger_Refinement.thy ===== *)
theory Ledger_Refinement
  imports Store_Refinement
begin

text \<open>
  The controller as a ledger: the store of \<open>Store_Refinement\<close> with requests to create volumes from
  snapshots, to create and to delete snapshots and to grow volumes. The time stamp of a new snapshot is the
  backend's choice, so that the specification is a relation; the code's RPCs, behind the interceptor, are
  runs of it. It follows that a snapshot that was acknowledged is kept until its own deletion is asked for;
  and that the answers on clones and expansions can name a size that the volume does not have.
\<close>

section \<open>The specification\<close>

datatype ledger_cmd = StoreCmd store_cmd | CloneCmd create_volume_req | SnapCmd create_snapshot_req | UnsnapCmd string | GrowCmd expand_req

datatype ledger_reply = Answer store_reply | Snapped string | Unsnapped | Grown int | Refused

text \<open>The last snapshot that an id names, by its uuid or its time stamp.\<close>

definition namesSnap :: "string \<Rightarrow> string \<times> string \<Rightarrow> bool" where
  "namesSnap sid k \<longleftrightarrow> fst k = sid \<or> snd k = sid"

definition dropSnap :: "string \<Rightarrow> snaps \<Rightarrow> snaps" where
  "dropSnap sid ss = (case find (namesSnap sid) (rev ss) of None \<Rightarrow> ss | Some k \<Rightarrow> removeAll k ss)"

definition specUnsnap :: "string \<Rightarrow> store \<Rightarrow> store" where
  "specUnsnap snapId vols =
     (let (vid, sid) = ParseSnapId snapId
      in if vid = [] \<or> sid = [] then vols
         else case vols vid of None \<Rightarrow> vols | Some (gib, ss) \<Rightarrow> vols(vid \<mapsto> (gib, dropSnap sid ss)))"

definition askedGib :: "expand_req \<Rightarrow> int" where
  "askedGib req = (case exq_CapacityRange req of None \<Rightarrow> 0 | Some cr \<Rightarrow> quot64 (cr_RequiredBytes cr) GiB)"

definition askedBytes :: "expand_req \<Rightarrow> int" where
  "askedBytes req = (case exq_CapacityRange req of None \<Rightarrow> 0 | Some cr \<Rightarrow> cr_RequiredBytes cr)"

text \<open>The snapshot that a creation names as its source is found when exactly one snapshot of the volume has
  its time stamp; the new volume has the size of that volume, whatever the answer says.\<close>

definition cloneOf :: "create_volume_req \<Rightarrow> string" where
  "cloneOf req = (case snapshotOf (cvq_VolumeContentSource req) of None \<Rightarrow> [] | Some sid \<Rightarrow> sid)"

definition stampIs :: "string \<Rightarrow> string \<times> string \<Rightarrow> bool" where
  "stampIs ts k \<longleftrightarrow> ts = [] \<or> ts = snd k"

definition cloneSize :: "string \<Rightarrow> store \<Rightarrow> int option" where
  "cloneSize snapId vols = (case splitOn CHR '':'' snapId of
      [vid, ts] \<Rightarrow> if vid = [] then None else (case vols vid of
          None \<Rightarrow> None
        | Some (gib, ss) \<Rightarrow> if length (filter (stampIs ts) ss) = 1 then Some gib else None)
    | _ \<Rightarrow> None)"

definition specClone :: "create_volume_req \<Rightarrow> store \<Rightarrow> store_reply \<times> store" where
  "specClone req vols =
     (let n = storeName (cvq_Name req); cr = map_option fillLimit (cvq_CapacityRange req)
      in case vols n of
           Some (gib, _) \<Rightarrow> (if fits cr gib then Made (mul64 gib GiB) n else Conflict, vols)
         | None \<Rightarrow> (case cloneSize (cloneOf req) vols of
             None \<Rightarrow> (Failed, vols)
           | Some gib \<Rightarrow> (Made (mul64 (sizeFor cr) GiB) n, vols(n \<mapsto> (gib, [])))))"

text \<open>\<open>uid\<close> gives the uuid of a snapshot's name. A snapshot that is not available in time is refused, and
  stays.\<close>

inductive ledger_step :: "(string \<Rightarrow> string) \<Rightarrow> ledger_cmd \<Rightarrow> store \<Rightarrow> ledger_reply \<Rightarrow> store \<Rightarrow> bool" for uid where
  Store: "specStep c vols = (r, vols') \<Longrightarrow> ledger_step uid (StoreCmd c) vols (Answer r) vols'"
| Clone: "specClone req vols = (r, vols') \<Longrightarrow> ledger_step uid (CloneCmd req) vols (Answer r) vols'"
| SnapRefused: "csq_SourceVolumeId q = [] \<or> csq_Name q = [] \<or> vols (csq_SourceVolumeId q) = None \<Longrightarrow>
    ledger_step uid (SnapCmd q) vols Refused vols"
| SnapAgain: "csq_SourceVolumeId q \<noteq> [] \<Longrightarrow> vols (csq_SourceVolumeId q) = Some (gib, ss) \<Longrightarrow> (uid (csq_Name q), ts) \<in> set ss \<Longrightarrow>
    ledger_step uid (SnapCmd q) vols (Snapped (MkSnapId (csq_SourceVolumeId q) ts)) vols"
| SnapNew: "csq_SourceVolumeId q \<noteq> [] \<Longrightarrow> vols (csq_SourceVolumeId q) = Some (gib, ss) \<Longrightarrow>
    uid (csq_Name q) \<notin> fst ` set ss \<Longrightarrow> ts \<notin> snd ` set ss \<Longrightarrow>
    r = Snapped (MkSnapId (csq_SourceVolumeId q) ts) \<or> r = Refused \<Longrightarrow>
    ledger_step uid (SnapCmd q) vols r (vols(csq_SourceVolumeId q \<mapsto> (gib, ss @ [(uid (csq_Name q), ts)])))"
| UnsnapRefused: "ledger_step uid (UnsnapCmd []) vols Refused vols"
| Unsnap: "snapId \<noteq> [] \<Longrightarrow> ledger_step uid (UnsnapCmd snapId) vols Unsnapped (specUnsnap snapId vols)"
| GrowRefused: "exq_VolumeId e = [] \<or> vols (exq_VolumeId e) = None \<Longrightarrow> ledger_step uid (GrowCmd e) vols Refused vols"
| GrowLess: "vols (exq_VolumeId e) = Some (gib, ss) \<Longrightarrow> askedGib e < gib \<Longrightarrow> ledger_step uid (GrowCmd e) vols Refused vols"
| Grow: "exq_VolumeId e \<noteq> [] \<Longrightarrow> vols (exq_VolumeId e) = Some (gib, ss) \<Longrightarrow> gib \<le> askedGib e \<Longrightarrow>
    ledger_step uid (GrowCmd e) vols (Grown (askedBytes e)) (vols(exq_VolumeId e \<mapsto> (askedGib e, ss)))"

inductive ledger_run :: "(string \<Rightarrow> string) \<Rightarrow> ledger_cmd list \<Rightarrow> store \<Rightarrow> ledger_reply list \<Rightarrow> store \<Rightarrow> bool" for uid where
  Done: "ledger_run uid [] vols [] vols"
| Next: "ledger_step uid c vols r vols1 \<Longrightarrow> ledger_run uid cs vols1 rs vols' \<Longrightarrow> ledger_run uid (c # cs) vols (r # rs) vols'"

inductive_cases ledger_runE: "ledger_run uid (c # cs) vols (r # rs) vols'"
inductive_cases ledger_snapE: "ledger_step uid (SnapCmd q) vols r vols'"
inductive_simps ledger_run_simps: "ledger_run uid (c # cs) vols rs vols'" "ledger_run uid [] vols rs vols'"
inductive_simps ledger_step_simps: "ledger_step uid (StoreCmd c) vols r vols'" "ledger_step uid (CloneCmd req) vols r vols'"
  "ledger_step uid (SnapCmd q) vols r vols'" "ledger_step uid (GrowCmd e) vols r vols'"

section \<open>The code, as the ledger's client sees it\<close>

fun codeCall :: "'w driver \<Rightarrow> ledger_cmd \<Rightarrow> ('w, ledger_reply) io" where
  "codeCall D (StoreCmd c) = bindG (codeStep D c) (\<lambda>r. ret (Answer r))"
| "codeCall D (CloneCmd req) = bindG (codeStep D (CreateCmd req)) (\<lambda>r. ret (Answer r))"
| "codeCall D (SnapCmd q) =
     bindG (logServerAndSetId (dr_env D) topctxt (\<lambda>ctx. CreateSnapshotRpc D ctx q)) (\<lambda>r.
     ret (case r of Inl _ \<Rightarrow> Refused | Inr s \<Rightarrow> Snapped (snp_SnapshotId s)))"
| "codeCall D (UnsnapCmd sid) =
     bindG (logServerAndSetId (dr_env D) topctxt (\<lambda>ctx. DeleteSnapshotRpc D ctx sid)) (\<lambda>r.
     ret (case r of Inl _ \<Rightarrow> Refused | Inr _ \<Rightarrow> Unsnapped))"
| "codeCall D (GrowCmd e) =
     bindG (logServerAndSetId (dr_env D) topctxt (\<lambda>ctx. ControllerExpandVolume D ctx e)) (\<lambda>r.
     ret (case r of Inl _ \<Rightarrow> Refused | Inr (bytes, _) \<Rightarrow> Grown bytes))"

definition plainClone :: "create_volume_req \<Rightarrow> bool" where
  "plainClone req \<longleftrightarrow> plainCreate (req\<lparr>cvq_VolumeContentSource := None\<rparr>) \<and> snapshotOf (cvq_VolumeContentSource req) \<noteq> None"

fun plainCall :: "ledger_cmd \<Rightarrow> bool" where
  "plainCall (StoreCmd c) = plain c"
| "plainCall (CloneCmd req) = plainClone req"
| "plainCall (GrowCmd e) = (exq_CapacityRange e \<noteq> None)"
| "plainCall _ = True"

section \<open>The laws of the backend\<close>

definition lists :: "app_instance \<Rightarrow> snaps \<Rightarrow> bool" where
  "lists ai ss \<longleftrightarrow> (case parts ai of None \<Rightarrow> False | Some (si, dv, acl, t) \<Rightarrow> map snapKey (dv_Snapshots dv) = ss)"

text \<open>Time stamps are times; a reloaded instance lists its snapshots; a snapshot is created under a uuid that
  is not in use and gets a stamp that is not in use; reloading one answers; deleting takes the one away; a
  volume does not shrink.\<close>

definition stamps_law :: "'w driver \<Rightarrow> 'w store_view \<Rightarrow> bool" where
  "stamps_law D V \<longleftrightarrow> (\<forall>w n gib ss u ts. sv_store V w n = Some (gib, ss) \<longrightarrow> (u, ts) \<in> set ss \<longrightarrow>
     (\<exists>pts. creationTime D ts = Inr pts))"

definition reload_law :: "'w env \<Rightarrow> 'w store_view \<Rightarrow> bool" where
  "reload_law E V \<longleftrightarrow> (\<forall>ai w gib ss. sv_own V ai \<longrightarrow> sv_store V w (ai_Name ai) = Some (gib, ss) \<longrightarrow>
     (\<exists>ai' w'. x_ai_reload E ai w = ((Some ai', None, None), w') \<and> shown (sv_own V) ai' (ai_Name ai) gib \<and> lists ai' ss \<and>
        sv_store V w' = sv_store V w))"

definition snap_create_law :: "'w env \<Rightarrow> 'w store_view \<Rightarrow> bool" where
  "snap_create_law E V \<longleftrightarrow> (\<forall>ai si dv acl t w gib ss c. sv_own V ai \<longrightarrow> parts ai = Some (si, dv, acl, t) \<longrightarrow>
     sv_store V w (ai_Name ai) = Some (gib, ss) \<longrightarrow>
     (if snc_Uuid c \<in> fst ` set ss
      then \<exists>p a e w'. x_snap_create E dv c w = ((p, Some a, e), w') \<and> ae_Name a = ''InvalidRequestError'' \<and> ae_Code a = 15 \<and>
        sv_store V w' = sv_store V w
      else \<exists>sn w'. x_snap_create E dv c w = ((Some sn, None, None), w') \<and> sn_Uuid sn = snc_Uuid c \<and> sn_UtcTs sn \<notin> snd ` set ss \<and>
        sv_store V w' = (sv_store V w)(ai_Name ai \<mapsto> (gib, ss @ [snapKey sn]))))"

definition snap_reload_law :: "'w env \<Rightarrow> 'w store_view \<Rightarrow> bool" where
  "snap_reload_law E V \<longleftrightarrow> (\<forall>sn w. \<exists>sn' w'. x_snap_reload E sn w = ((Some sn', None, None), w') \<and> sv_store V w' = sv_store V w)"

definition snap_delete_law :: "'w env \<Rightarrow> 'w store_view \<Rightarrow> bool" where
  "snap_delete_law E V \<longleftrightarrow> (\<forall>ai si dv acl t w gib ss sn. sv_own V ai \<longrightarrow> parts ai = Some (si, dv, acl, t) \<longrightarrow>
     sv_store V w (ai_Name ai) = Some (gib, ss) \<longrightarrow> sn \<in> set (dv_Snapshots dv) \<longrightarrow>
     (\<exists>x w'. x_snap_delete E sn w = ((x, None, None), w') \<and>
        sv_store V w' = (sv_store V w)(ai_Name ai \<mapsto> (gib, removeAll (snapKey sn) ss))))"

definition grow_law :: "'w env \<Rightarrow> 'w store_view \<Rightarrow> bool" where
  "grow_law E V \<longleftrightarrow> (\<forall>ai si dv acl t w gib ss n. sv_own V ai \<longrightarrow> parts ai = Some (si, dv, acl, t) \<longrightarrow>
     sv_store V w (ai_Name ai) = Some (gib, ss) \<longrightarrow>
     (if gib \<le> n
      then \<exists>x w'. x_vol_set E dv n w = ((x, None, None), w') \<and> sv_store V w' = (sv_store V w)(ai_Name ai \<mapsto> (n, ss))
      else \<exists>x a w'. x_vol_set E dv n w = ((x, Some a, None), w') \<and> sv_store V w' = sv_store V w))"

text \<open>A volume can be created from a listed snapshot, by its path, and gets the size of the snapshot's
  volume.\<close>

definition clonable :: "'w env \<Rightarrow> 'w store_view \<Rightarrow> store \<Rightarrow> string \<Rightarrow> int \<Rightarrow> bool" where
  "clonable E V vols path gib \<longleftrightarrow> path \<noteq> [] \<and>
     (\<forall>a w. sv_store V w = vols \<longrightarrow> ac_CloneSnapshotSrc a = Some path \<longrightarrow> ac_CloneVolumeSrc a = None \<longrightarrow> ac_AppTemplate a = None \<longrightarrow>
        ac_StorageInstances a = [] \<longrightarrow> vols (ac_Name a) = None \<longrightarrow>
        (\<exists>ai w'. x_ai_create E a w = ((Some ai, None, None), w') \<and> shown (sv_own V) ai (ac_Name a) gib \<and>
           sv_store V w' = vols(ac_Name a \<mapsto> (gib, []))))"

definition clone_law :: "'w env \<Rightarrow> 'w store_view \<Rightarrow> bool" where
  "clone_law E V \<longleftrightarrow> (\<forall>ai si dv acl t w gib ss sns w' sn. sv_own V ai \<longrightarrow> parts ai = Some (si, dv, acl, t) \<longrightarrow>
     sv_store V w (ai_Name ai) = Some (gib, ss) \<longrightarrow> x_snap_list E dv w = ((sns, None, None), w') \<longrightarrow> sn \<in> set sns \<longrightarrow>
     clonable E V (sv_store V w) (sn_Path sn) gib)"

definition ledger_laws :: "'w driver \<Rightarrow> 'w store_view \<Rightarrow> bool" where
  "ledger_laws D V \<longleftrightarrow> store_reads (dr_env D) V \<and> store_writes (dr_env D) V \<and> stamps_law D V \<and> reload_law (dr_env D) V \<and>
     snap_create_law (dr_env D) V \<and> snap_reload_law (dr_env D) V \<and> snap_delete_law (dr_env D) V \<and> grow_law (dr_env D) V \<and>
     clone_law (dr_env D) V"

lemma ledger_lawsD:
  assumes "ledger_laws D V"
  shows "store_reads (dr_env D) V" "store_writes (dr_env D) V" "stamps_law D V" "reload_law (dr_env D) V"
    "snap_create_law (dr_env D) V" "snap_reload_law (dr_env D) V" "snap_delete_law (dr_env D) V" "grow_law (dr_env D) V"
    "clone_law (dr_env D) V"
  using assms by (simp_all add: ledger_laws_def)

section \<open>The client over the ledger\<close>

lemma GetVolume_reaches:
  assumes "store_reads E V"
  shows "reaches V (GetVolume E n False False) vols (\<lambda>r t. t = vols \<and> (case r of
      Inl _ \<Rightarrow> n = [] \<or> vols n = None
    | Inr vol \<Rightarrow> n \<noteq> [] \<and> (\<exists>gib ss. vols n = Some (gib, ss) \<and> v_Name vol = n \<and> shown (sv_own V) (v_Ai vol) n gib)))"
proof (cases "n = []")
  case True
  then show ?thesis by (simp add: GetVolume_def reaches_ret)
next
  case False
  show ?thesis
  proof (cases "vols n")
    case None
    from GetVolume_absent [where vols = vols and n = n, OF assms None False] show ?thesis
      unfolding yields_reaches by (rule reaches_weaken) (use None in auto)
  next
    case (Some p)
    then obtain gib ss where v: "vols n = Some (gib, ss)" by (cases p) simp
    from GetVolume_present [where vols = vols and n = n, OF assms v False] show ?thesis
      unfolding yields_reaches by (rule reaches_weaken) (use v False in auto)
  qed
qed

lemma convert_try:
  "parts ai = Some (si, dv, acl, t) \<Longrightarrow> reaches V (k (clientVol c ai si dv acl t)) v Q \<Longrightarrow>
   reaches V (tryG (aiToClientVol E (Some ai) False False c) k) v Q"
  by (simp add: reaches_def go_eval parts_run)

lemma firstVolume_bind:
  "parts ai = Some (si, dv, acl, t) \<Longrightarrow> reaches V (k (si, dv)) v Q \<Longrightarrow> reaches V (bindG (firstVolume ai) k) v Q"
  by (simp add: reaches_def go_eval parts_run)

text \<open>The poll ends, whatever the snapshot's state; a backend is prompt when a snapshot is available as soon as
  it is looked at.\<close>

definition prompt :: "'w env \<Rightarrow> bool" where
  "prompt E \<longleftrightarrow> (\<forall>sn w sn' w'. x_snap_reload E sn w = ((Some sn', None, None), w') \<longrightarrow> sn_OpState sn' = ''available'')"

lemma ReloadSnapshot_reaches:
  assumes "snap_reload_law E V"
  shows "reaches V (ReloadSnapshot E c) vols (\<lambda>r t. t = vols \<and> (\<exists>c'. r = Inr c' \<and> ss_Id c' = ss_Id c \<and>
    (prompt E \<longrightarrow> ss_Status c' = ''available'')))"
proof -
  have "reaches V (sdkCall (SnapReload (sn_Path (ss_Snap c))) (x_snap_reload E (ss_Snap c))) vols
      (\<lambda>r t. t = vols \<and> (\<exists>sn. r = Inr (Some sn) \<and> (prompt E \<longrightarrow> sn_OpState sn = ''available'')))"
  proof (rule reaches_sdk)
    fix w assume "sv_store V w = vols"
    moreover obtain sn' w' where "x_snap_reload E (ss_Snap c) w = ((Some sn', None, None), w')" "sv_store V w' = sv_store V w"
      using assms unfolding snap_reload_law_def by blast
    ultimately show "\<exists>r w'. x_snap_reload E (ss_Snap c) w = (r, w') \<and> sv_store V w' = vols \<and> 
        (\<exists>sn. sdkResult r = Inr (Some sn) \<and> (prompt E \<longrightarrow> sn_OpState sn = ''available''))"
      by (auto simp: sdkResult_def prompt_def)
  qed
  then show ?thesis
    unfolding ReloadSnapshot_def by (rule reaches_try) (auto intro!: reaches_ret)
qed

lemma sleepG_reaches: "reaches V (sleepG k) v (\<lambda>_ t. t = v)"
  by (simp add: reaches_def sleepG_def go_eval)

lemma pollAvailable_reaches:
  assumes "snap_reload_law E V"
  shows "reaches V (pollAvailable E n c) vols (\<lambda>r t. t = vols \<and> (\<forall>c'. r = Inr c' \<longrightarrow> ss_Id c' = ss_Id c) \<and>
    (prompt E \<longrightarrow> (\<exists>c'. r = Inr c')))"
proof (induction n arbitrary: c)
  case 0
  show ?case
    by (subst pollAvailable.simps)
      (auto intro!: reaches_try [OF ReloadSnapshot_reaches [OF assms]] reaches_ret reaches_bind [OF sleepG_reaches])
next
  case (Suc n)
  show ?case
    by (subst pollAvailable.simps)
      (auto intro!: reaches_try [OF ReloadSnapshot_reaches [OF assms]] reaches_ret reaches_bind [OF sleepG_reaches]
        reaches_weaken [OF Suc])
qed

text \<open>What creating a snapshot may do.\<close>

definition snapped :: "'w driver \<Rightarrow> string \<Rightarrow> string \<Rightarrow> int \<Rightarrow> snaps \<Rightarrow> store \<Rightarrow> goerr + snapshot \<Rightarrow> store \<Rightarrow> bool" where
  "snapped D u n gib ss vols r t \<longleftrightarrow>
     (\<exists>ts c. (u, ts) \<in> set ss \<and> t = vols \<and> r = Inr c \<and> ss_Id c = ts \<and> (\<exists>pts. creationTime D ts = Inr pts)) \<or>
     (u \<notin> fst ` set ss \<and> (\<exists>ts. ts \<notin> snd ` set ss \<and> t = vols(n \<mapsto> (gib, ss @ [(u, ts)])) \<and>
        (\<forall>c. r = Inr c \<longrightarrow> ss_Id c = ts) \<and> (\<exists>pts. creationTime D ts = Inr pts)) \<and>
        (prompt (dr_env D) \<longrightarrow> (\<exists>c. r = Inr c)))"

lemma GetSnapshotByUuid_reaches:
  assumes laws: "ledger_laws D V" and ai: "shown (sv_own V) (v_Ai r) n gib" and v: "vols n = Some (gib, ss)" and u: "u \<in> fst ` set ss"
  shows "reaches V (GetSnapshotByUuid (dr_env D) r u) vols (snapped D u n gib ss vols)"
proof -
  from ai obtain si dv acl t where p: "parts (v_Ai r) = Some (si, dv, acl, t)" "sv_own V (v_Ai r)" "ai_Name (v_Ai r) = n"
    by (rule shownE)
  have list: "reaches V (sdkCall ev (x_snap_list (dr_env D) dv)) vols (\<lambda>x t. t = vols \<and>
      (\<exists>sns. x = Inr sns \<and> map snapKey sns = ss \<and> (\<forall>k \<in> set ss. \<exists>pts. creationTime D (snd k) = Inr pts)))" for ev
  proof (rule reaches_sdk)
    fix w assume w: "sv_store V w = vols"
    with v p(3) have at: "sv_store V w (ai_Name (v_Ai r)) = Some (gib, ss)" by simp
    from ledger_lawsD(1) [OF laws] p(2,1) at obtain sns w' where "x_snap_list (dr_env D) dv w = ((sns, None, None), w')"
      "map snapKey sns = ss" "sv_store V w' = sv_store V w" by (rule store_snaps)
    moreover have "\<exists>pts. creationTime D (snd k) = Inr pts" if "k \<in> set ss" for k
      using ledger_lawsD(3) [OF laws] at that unfolding stamps_law_def by (metis prod.collapse)
    ultimately show "\<exists>r w'. x_snap_list (dr_env D) dv w = (r, w') \<and> sv_store V w' = vols \<and>
        (\<exists>sns. sdkResult r = Inr sns \<and> map snapKey sns = ss \<and> (\<forall>k \<in> set ss. \<exists>pts. creationTime D (snd k) = Inr pts))"
      using w by (simp add: sdkResult_def)
  qed
  have found: "reaches V (case find (\<lambda>s. sn_Uuid s = u) sns of Some s \<Rightarrow> wrapSnapshot (dr_env D) r s
      | None \<Rightarrow> ret (Inl e)) vols (snapped D u n gib ss vols)"
    if keys: "map snapKey sns = ss" and stamps: "\<forall>k \<in> set ss. \<exists>pts. creationTime D (snd k) = Inr pts" for sns e
  proof (cases "find (\<lambda>s. sn_Uuid s = u) sns")
    case None
    with u keys show ?thesis by (auto simp: find_None_iff snapKey_def)
  next
    case (Some sn)
    then have "sn \<in> set sns" "sn_Uuid sn = u" by (auto simp: find_Some_iff)
    with keys have "(u, sn_UtcTs sn) \<in> set ss" by (force simp: snapKey_def)
    moreover from this stamps have "\<exists>pts. creationTime D (sn_UtcTs sn) = Inr pts" by (metis snd_conv)
    ultimately have "snapped D u n gib ss vols (Inr c) vols" if "ss_Id c = sn_UtcTs sn" for c
      using that unfolding snapped_def by blast
    then have "reaches V (wrapSnapshot (dr_env D) r sn) vols (snapped D u n gib ss vols)"
      by (simp add: wrapSnapshot_def reaches_def go_eval parts_run [OF p(1)] toSnapshot_def)
    with Some show ?thesis by simp
  qed
  show ?thesis
    unfolding GetSnapshotByUuid_def
  proof (rule firstVolume_bind [OF p(1)], simp only: prod.case, rule reaches_try [OF list])
    fix sns t'
    assume "t' = vols \<and> (\<exists>sns'. Inr sns = Inr sns' \<and> map snapKey sns' = ss \<and>
      (\<forall>k \<in> set ss. \<exists>pts. creationTime D (snd k) = Inr pts))"
    then show "reaches V (case find (\<lambda>s. sn_Uuid s = u) sns of Some s \<Rightarrow> wrapSnapshot (dr_env D) r s
        | None \<Rightarrow> ret (Inl (PlainErr (''No snapshot found with UUID '' @ u)))) t' (snapped D u n gib ss vols)"
      using found [of sns] by blast
  qed simp
qed

text \<open>The backend's answer to the request: the uuid is in use, or a new snapshot is there.\<close>

definition created :: "'w driver \<Rightarrow> string \<Rightarrow> string \<Rightarrow> int \<Rightarrow> snaps \<Rightarrow> store \<Rightarrow> dsnapshot option sdkres \<Rightarrow> store \<Rightarrow> bool" where
  "created D u n gib ss vols r t \<longleftrightarrow> (case r of (sn, apierr, err) \<Rightarrow>
     if u \<in> fst ` set ss then t = vols \<and> (\<exists>a. apierr = Some a \<and> ae_Name a = ''InvalidRequestError'' \<and> ae_Code a = 15)
     else apierr = None \<and> err = None \<and> (\<exists>s. sn = Some s \<and> sn_UtcTs s \<notin> snd ` set ss \<and>
       t = vols(n \<mapsto> (gib, ss @ [(u, sn_UtcTs s)])) \<and> (\<exists>pts. creationTime D (sn_UtcTs s) = Inr pts)))"

lemma snap_create_reaches:
  assumes laws: "ledger_laws D V" and p: "parts ai = Some (si, dv, acl, tm)" "sv_own V ai" "ai_Name ai = n"
    and v: "vols n = Some (gib, ss)" and uuid: "snc_Uuid c = u"
  shows "reaches V (extG ev (x_snap_create (dr_env D) dv c)) vols (created D u n gib ss vols)"
proof (rule reaches_call)
  let ?E = "dr_env D"
  fix w assume w: "sv_store V w = vols"
  with v p(3) have at: "sv_store V w (ai_Name ai) = Some (gib, ss)" by simp
  note law = ledger_lawsD(5) [OF laws, unfolded snap_create_law_def, rule_format, OF p(2,1) at, of c, unfolded uuid]
  show "\<exists>x w'. x_snap_create ?E dv c w = (x, w') \<and> created D u n gib ss vols x (sv_store V w')"
  proof (cases "u \<in> fst ` set ss")
    case True
    with law w show ?thesis by (auto simp: created_def)
  next
    case False
    with law obtain sn w' where new: "x_snap_create ?E dv c w = ((Some sn, None, None), w')" "sn_Uuid sn = u"
      "sn_UtcTs sn \<notin> snd ` set ss" "sv_store V w' = (sv_store V w)(ai_Name ai \<mapsto> (gib, ss @ [snapKey sn]))" by auto
    then have "sv_store V w' n = Some (gib, ss @ [snapKey sn])" by (simp add: p(3))
    moreover have "(u, sn_UtcTs sn) \<in> set (ss @ [snapKey sn])" by (simp add: snapKey_def new(2))
    ultimately have "\<exists>pts. creationTime D (sn_UtcTs sn) = Inr pts"
      using ledger_lawsD(3) [OF laws] unfolding stamps_law_def by blast
    with new False w show ?thesis by (simp add: p(3) snapKey_def created_def)
  qed
qed

lemma CreateSnapshot_reaches:
  assumes laws: "ledger_laws D V" and ai: "shown (sv_own V) (v_Ai r) n gib" and v: "vols n = Some (gib, ss)"
  shows "reaches V (CreateSnapshot (dr_env D) r name opts) vols (snapped D (snapIdFromName (dr_env D) name) n gib ss vols)"
proof -
  let ?E = "dr_env D" and ?u = "snapIdFromName (dr_env D) name" and ?c = "snapRequest (dr_env D) name opts"
  from ai obtain si dv acl t where p: "parts (v_Ai r) = Some (si, dv, acl, t)" "sv_own V (v_Ai r)" "ai_Name (v_Ai r) = n"
    by (rule shownE)
  have uuid: "snc_Uuid ?c = ?u" by (simp add: snapRequest_def)
  have create: "reaches V (extG ev (x_snap_create ?E dv ?c)) vols (created D ?u n gib ss vols)" for ev
    by (rule snap_create_reaches [where vols = vols and n = n, OF laws p v uuid])
  have polled: "reaches V (pollAvailable ?E m (toSnapshot s c)) (vols(n \<mapsto> (gib, ss @ [(?u, sn_UtcTs s)])))
      (snapped D ?u n gib ss vols)"
    if "?u \<notin> fst ` set ss" "sn_UtcTs s \<notin> snd ` set ss" "\<exists>pts. creationTime D (sn_UtcTs s) = Inr pts" for s c m
    by (rule reaches_weaken [OF pollAvailable_reaches [OF ledger_lawsD(6) [OF laws]]])
      (use that in \<open>auto simp: snapped_def toSnapshot_def\<close>)
  show ?thesis
    unfolding CreateSnapshot_def
  proof (rule firstVolume_bind [OF p(1)], simp only: prod.case, rule reaches_bind [OF create], clarify)
    fix sn :: "dsnapshot option" and apierr :: "apierr option" and err :: "goerr option" and t'
    assume A: "created D ?u n gib ss vols (sn, apierr, err) t'"
    show "reaches V (case apierr of
         Some a \<Rightarrow> if ae_Name a = ''InvalidRequestError'' \<and> ae_Code a = 15 then GetSnapshotByUuid ?E r ?u
           else ret (Inl (ErrTranslator a))
       | None \<Rightarrow> (case err of Some e \<Rightarrow> ret (Inl e)
         | None \<Rightarrow> tryG (aiToClientVol ?E (Some (v_Ai r)) False False False) (\<lambda>v.
             bindG (derefG sn) (\<lambda>s. pollAvailable ?E 30 (toSnapshot s v))))) t' (snapped D ?u n gib ss vols)"
    proof (cases "?u \<in> fst ` set ss")
      case True
      with A [unfolded created_def prod.case] GetSnapshotByUuid_reaches [where vols = vols and n = n, OF laws ai v True] show ?thesis by auto
    next
      case False
      with A [unfolded created_def prod.case] polled [OF False] show ?thesis
        by (auto intro!: convert_try [OF p(1)])
    qed
  qed
qed

lemma ledger_reload:
  assumes "ledger_laws D V" and "sv_own V ai" and "sv_store V w (ai_Name ai) = Some (gib, ss)"
  obtains ai' w' si dv acl t where "x_ai_reload (dr_env D) ai w = ((Some ai', None, None), w')"
    and "shown (sv_own V) ai' (ai_Name ai) gib" and "lists ai' ss" and "parts ai' = Some (si, dv, acl, t)"
    and "sv_store V w' = sv_store V w"
proof -
  from ledger_lawsD(4) [OF assms(1), unfolded reload_law_def, rule_format, OF assms(2,3)]
  obtain ai' w' where r: "x_ai_reload (dr_env D) ai w = ((Some ai', None, None), w')"
    and ai': "shown (sv_own V) ai' (ai_Name ai) gib" and l: "lists ai' ss" and w': "sv_store V w' = sv_store V w" by blast
  from ai' obtain si dv acl t where "parts ai' = Some (si, dv, acl, t)" by (rule shownE)
  from that [OF r ai' l this w'] show thesis .
qed

lemma Reload_reaches:
  assumes laws: "ledger_laws D V" and ai: "shown (sv_own V) (v_Ai r) n gib" and v: "vols n = Some (gib, ss)"
  shows "reaches V (Reload (dr_env D) r False False) vols (\<lambda>x t. t = vols \<and>
    (\<exists>v. x = Inr v \<and> shown (sv_own V) (v_Ai v) n gib \<and> lists (v_Ai v) ss))"
  unfolding reaches_def
proof (intro allI impI)
  fix s :: "'a st"
  assume s: "sv_store V (ext s) = vols"
  from ai have own: "sv_own V (v_Ai r)" and name: "ai_Name (v_Ai r) = n" by (simp_all add: shown_def)
  have "sv_store V (ext s) (ai_Name (v_Ai r)) = Some (gib, ss)" by (simp add: s name v)
  with laws own obtain ai' w' si dv acl t where reload: "x_ai_reload (dr_env D) (v_Ai r) (ext s) = ((Some ai', None, None), w')"
    and "shown (sv_own V) ai' (ai_Name (v_Ai r)) gib" and "lists ai' ss" and "parts ai' = Some (si, dv, acl, t)"
    and "sv_store V w' = sv_store V (ext s)"
    by (rule ledger_reload)
  then show "\<exists>x s'. Reload (dr_env D) r False False s = (Ret x, s') \<and> sv_store V (ext s') = vols \<and>
      (\<exists>v. x = Inr v \<and> shown (sv_own V) (v_Ai v) n gib \<and> lists (v_Ai v) ss)"
    by (simp add: Reload_run [OF reload] name s)
qed

lemma find_snap:
  "find (namesSnap sid) (rev (map snapKey sns)) = map_option snapKey (find (\<lambda>s. sn_Uuid s = sid \<or> sn_UtcTs s = sid) (rev sns))"
proof -
  have "find (namesSnap sid) (map snapKey xs) = map_option snapKey (find (\<lambda>s. sn_Uuid s = sid \<or> sn_UtcTs s = sid) xs)" for xs
    by (induction xs) (auto simp: namesSnap_def snapKey_def)
  from this [of "rev sns"] show ?thesis by (simp add: rev_map)
qed

lemma find_mem: "find P xs = Some x \<Longrightarrow> x \<in> set xs"
  by (induction xs) (auto split: if_splits)

lemma VolDeleteSnapshot_reaches:
  assumes laws: "ledger_laws D V" and ai: "shown (sv_own V) (v_Ai r) n gib" and v: "vols n = Some (gib, ss)"
  shows "reaches V (VolDeleteSnapshot (dr_env D) r sid) vols (\<lambda>x t. t = vols(n \<mapsto> (gib, dropSnap sid ss)))"
proof -
  let ?E = "dr_env D"
  have same: "vols(n \<mapsto> (gib, ss)) = vols" using v by (simp add: fun_upd_idem)
  have delete: "reaches V (sdkCall ev (x_snap_delete ?E sn)) vols (\<lambda>x t. t = vols(n \<mapsto> (gib, removeAll (snapKey sn) ss)))"
    if "shown (sv_own V) ai n gib" "parts ai = Some (si, dv, acl, t)" "sn \<in> set (dv_Snapshots dv)" for ev sn ai si dv acl t
  proof (rule reaches_sdk)
    fix w assume w: "sv_store V w = vols"
    from that(1) have own: "sv_own V ai" and name: "ai_Name ai = n" by (simp_all add: shown_def)
    then have "sv_store V w (ai_Name ai) = Some (gib, ss)" by (simp add: w v)
    from ledger_lawsD(7) [OF laws, unfolded snap_delete_law_def, rule_format, OF own that(2) this that(3)]
    show "\<exists>x w'. x_snap_delete ?E sn w = (x, w') \<and> sv_store V w' = vols(n \<mapsto> (gib, removeAll (snapKey sn) ss))"
      by (auto simp: w name)
  qed
  show ?thesis
    unfolding VolDeleteSnapshot_def
  proof (rule reaches_bind [OF Reload_reaches [where vols = vols and n = n, OF laws ai v]])
    fix x t assume A: "t = vols \<and> (\<exists>v. x = Inr v \<and> shown (sv_own V) (v_Ai v) n gib \<and> lists (v_Ai v) ss)"
    then obtain r' where x: "x = Inr r'" "t = vols" and ai': "shown (sv_own V) (v_Ai r') n gib" "lists (v_Ai r') ss" by blast
    from ai'(1) obtain si dv acl tm where p: "parts (v_Ai r') = Some (si, dv, acl, tm)" by (rule shownE)
    with ai'(2) have keys: "map snapKey (dv_Snapshots dv) = ss" by (simp add: lists_def)
    have "reaches V (case find (\<lambda>s. sn_Uuid s = sid \<or> sn_UtcTs s = sid) (rev (dv_Snapshots dv)) of
          None \<Rightarrow> ret (Inr ())
        | Some s \<Rightarrow> tryG (sdkCall (SnapDelete (sn_Path s)) (x_snap_delete ?E s)) (\<lambda>_. ret (Inr ()))) vols
      (\<lambda>x t. t = vols(n \<mapsto> (gib, dropSnap sid ss)))"
    proof (cases "find (\<lambda>s. sn_Uuid s = sid \<or> sn_UtcTs s = sid) (rev (dv_Snapshots dv))")
      case None
      then have "dropSnap sid ss = ss" by (simp add: dropSnap_def find_snap keys [symmetric])
      then show ?thesis by (simp add: None reaches_ret same)
    next
      case (Some sn)
      then have drop: "dropSnap sid ss = removeAll (snapKey sn) ss" by (simp add: dropSnap_def find_snap keys [symmetric])
      from find_mem [OF Some] have "sn \<in> set (dv_Snapshots dv)" by simp
      from delete [OF ai'(1) p this] show ?thesis
        unfolding Some option.case drop by (rule reaches_try) (auto intro: reaches_ret)
    qed
    then show "reaches V (case x of Inl _ \<Rightarrow> ret (Inr ())
      | Inr r' \<Rightarrow> bindG (firstVolume (v_Ai r')) (\<lambda>(_, v).
          case find (\<lambda>s. sn_Uuid s = sid \<or> sn_UtcTs s = sid) (rev (dv_Snapshots v)) of
            None \<Rightarrow> ret (Inr ())
          | Some s \<Rightarrow> tryG (sdkCall (SnapDelete (sn_Path s)) (x_snap_delete ?E s)) (\<lambda>_. ret (Inr ())))) t
      (\<lambda>x t. t = vols(n \<mapsto> (gib, dropSnap sid ss)))"
      unfolding x sum.case by (intro firstVolume_bind [OF p]) simp
  qed
qed

lemma VolListSnapshots_reaches:
  assumes laws: "ledger_laws D V" and ai: "shown (sv_own V) (v_Ai r) n gib" and v: "vols n = Some (gib, ss)"
  shows "reaches V (VolListSnapshots (dr_env D) r ts) vols (\<lambda>x t. t = vols \<and> (\<exists>snaps r'. x = (Inr snaps, r') \<and>
    length snaps = length (filter (stampIs ts) ss) \<and> (\<forall>c \<in> set snaps. clonable (dr_env D) V vols (ss_Path c) gib)))"
  unfolding reaches_def
proof (intro allI impI)
  fix s :: "'a st"
  assume s: "sv_store V (ext s) = vols"
  from ai have own: "sv_own V (v_Ai r)" and name: "ai_Name (v_Ai r) = n" by (simp_all add: shown_def)
  have "sv_store V (ext s) (ai_Name (v_Ai r)) = Some (gib, ss)" by (simp add: s name v)
  with laws own obtain ai' w si dv acl t where reload: "x_ai_reload (dr_env D) (v_Ai r) (ext s) = ((Some ai', None, None), w)"
    and ai': "shown (sv_own V) ai' (ai_Name (v_Ai r)) gib" and p: "parts ai' = Some (si, dv, acl, t)"
    and w: "sv_store V w = sv_store V (ext s)"
    by (rule ledger_reload)
  from ai' have own': "sv_own V ai'" and at: "sv_store V w (ai_Name ai') = Some (gib, ss)"
    by (simp_all add: shown_def w s name v)
  from ledger_lawsD(1) [OF laws] own' p at obtain sns w' where list: "x_snap_list (dr_env D) dv w = ((sns, None, None), w')"
    and keys: "map snapKey sns = ss" and w': "sv_store V w' = sv_store V w"
    by (rule store_snaps)
  have count: "length (filter (stampIs ts) ss) = length (filter (\<lambda>sn. ts = [] \<or> ts = sn_UtcTs sn) sns)"
    by (simp add: keys [symmetric] filter_map o_def stampIs_def snapKey_def)
  have "clonable (dr_env D) V vols (sn_Path sn) gib" if "sn \<in> set sns" for sn
    using ledger_lawsD(9) [OF laws, unfolded clone_law_def, rule_format, OF own' p at list that] by (simp add: w s)
  then show "\<exists>x s'. VolListSnapshots (dr_env D) r ts s = (Ret x, s') \<and> sv_store V (ext s') = vols \<and> (\<exists>snaps r'. x = (Inr snaps, r') \<and>
      length snaps = length (filter (stampIs ts) ss) \<and> (\<forall>c \<in> set snaps. clonable (dr_env D) V vols (ss_Path c) gib))"
    by (auto simp: VolListSnapshots_run [OF reload p list] w' w s count toSnapshot_def)
qed

lemma SnapshotPath_reaches:
  assumes laws: "ledger_laws D V" and id: "splitOn CHR '':'' sid = [vid, ts]"
  shows "reaches V (SnapshotPathFromCsiId (dr_env D) sid) vols (\<lambda>r t. t = vols \<and> (case cloneSize sid vols of
      None \<Rightarrow> \<exists>e. r = Inl e
    | Some gib \<Rightarrow> \<exists>path. r = Inr path \<and> clonable (dr_env D) V vols path gib))"
    (is "reaches V _ vols ?Q")
proof -
  have "reaches V (tryG (GetVolume (dr_env D) vid False False) (\<lambda>vol.
      bindG (VolListSnapshots (dr_env D) vol ts) (\<lambda>(l, _).
      let snaps = (case l of Inl _ \<Rightarrow> [] | Inr ss \<Rightarrow> ss)
      in case snaps of
           [s] \<Rightarrow> ret (Inr (ss_Path s))
         | _ \<Rightarrow> ret (Inl (PlainErr (msg (length snaps))))))) vols ?Q" for msg
  proof (rule reaches_try [OF GetVolume_reaches [where vols = vols and n = vid, OF ledger_lawsD(1) [OF laws]]], goal_cases)
    case (1 vol t)
    then obtain gib ss where v: "vid \<noteq> []" "vols vid = Some (gib, ss)" "shown (sv_own V) (v_Ai vol) vid gib" "t = vols" by auto
    have size: "cloneSize sid vols = (if length (filter (stampIs ts) ss) = 1 then Some gib else None)"
      by (simp add: cloneSize_def id v)
    show ?case
      unfolding v(4)
      by (rule reaches_bind [OF VolListSnapshots_reaches [where vols = vols and n = vid, OF laws v(3,2)]])
        (auto simp: size intro!: reaches_ret split: list.splits)
  next
    case (2 e t)
    then show ?case by (auto simp: cloneSize_def id)
  qed
  from this [of "\<lambda>k. ''Unexpected number of snapshots found for csi snapshot ID: '' @ sid @ '', expected 1 found '' @ FormatInt (int k)"]
  show ?thesis
    by (simp add: SnapshotPathFromCsiId_def id indexG_def del: append.simps)
qed

lemma Resize_reaches:
  assumes laws: "ledger_laws D V" and ai: "shown (sv_own V) (v_Ai r) n gib" and v: "vols n = Some (gib, ss)"
  shows "reaches V (Resize (dr_env D) r new) vols (\<lambda>x t.
    if gib \<le> new then t = vols(n \<mapsto> (new, ss)) \<and> (\<exists>v. x = Inr v) else t = vols \<and> (\<exists>e. x = Inl e))"
proof -
  from ai obtain si dv acl t where p: "parts (v_Ai r) = Some (si, dv, acl, t)" "sv_own V (v_Ai r)" "ai_Name (v_Ai r) = n"
    by (rule shownE)
  have set: "reaches V (sdkCall ev (x_vol_set (dr_env D) dv new)) vols (\<lambda>x t.
      if gib \<le> new then t = vols(n \<mapsto> (new, ss)) \<and> (\<exists>v. x = Inr v) else t = vols \<and> (\<exists>e. x = Inl e))" for ev
  proof (rule reaches_sdk)
    fix w assume w: "sv_store V w = vols"
    with v p(3) have "sv_store V w (ai_Name (v_Ai r)) = Some (gib, ss)" by simp
    from ledger_lawsD(8) [OF laws, unfolded grow_law_def, rule_format, OF p(2,1) this, of new]
    show "\<exists>x w'. x_vol_set (dr_env D) dv new w = (x, w') \<and>
        (if gib \<le> new then sv_store V w' = vols(n \<mapsto> (new, ss)) \<and> (\<exists>v. sdkResult x = Inr v) else sv_store V w' = vols \<and> (\<exists>e. sdkResult x = Inl e))"
      by (auto simp: w p(3) sdkResult_def split: if_splits)
  qed
  show ?thesis
    unfolding Resize_def
  proof (rule firstVolume_bind [OF p(1)], simp only: prod.case, rule reaches_try [OF set])
    fix x t
    assume A: "if gib \<le> new then t = vols(n \<mapsto> (new, ss)) \<and> (\<exists>v. Inr x = Inr v) else t = vols \<and> (\<exists>e. Inr x = Inl e)"
    then have grown: "gib \<le> new" "t = vols(n \<mapsto> (new, ss))" by (auto split: if_splits)
    show "reaches V (Reload (dr_env D) r False False) t (\<lambda>x t.
        if gib \<le> new then t = vols(n \<mapsto> (new, ss)) \<and> (\<exists>v. x = Inr v) else t = vols \<and> (\<exists>e. x = Inl e))"
      unfolding reaches_def
    proof (intro allI impI)
      fix s :: "'a st" assume s: "sv_store V (ext s) = t"
      have "sv_store V (ext s) (ai_Name (v_Ai r)) = Some (new, ss)" by (simp add: s grown p(3))
      with laws p(2) obtain ai' w' si dv acl tm where reload: "x_ai_reload (dr_env D) (v_Ai r) (ext s) = ((Some ai', None, None), w')"
        and "parts ai' = Some (si, dv, acl, tm)" and "sv_store V w' = sv_store V (ext s)"
        by (rule ledger_reload)
      then show "\<exists>x s'. Reload (dr_env D) r False False s = (Ret x, s') \<and>
          (if gib \<le> new then sv_store V (ext s') = vols(n \<mapsto> (new, ss)) \<and> (\<exists>v. x = Inr v)
           else sv_store V (ext s') = vols \<and> (\<exists>e. x = Inl e))"
        using grown by (simp add: Reload_run [OF reload] s)
    qed
  qed (auto split: if_splits)
qed

section \<open>The handlers over the ledger\<close>

text \<open>A call that its handler's body explains.\<close>

lemma call_refines:
  assumes laws: "ledger_laws D V" and free: "callKey D piece fn req \<notin> rpcStatus s"
    and "\<And>ctxt. reaches V (body ctxt) (sv_store V (ext s)) Q"
    and step: "\<And>x t. Q x t \<Longrightarrow> R (answer x) t"
  shows "\<exists>r s'. bindG (logServerAndSetId (dr_env D) topctxt (\<lambda>ctx. serve D ctx piece fn req body)) (\<lambda>x. ret (answer x)) s =
      (Ret r, s') \<and> R r (sv_store V (ext s'))"
proof -
  obtain x s' where "logServerAndSetId (dr_env D) topctxt (\<lambda>ctx. serve D ctx piece fn req body) s = (Ret x, s')"
    and "Q x (sv_store V (ext s'))"
    using intercepted_free [where D = D and V = V and body = body and Q = Q and vols = "sv_store V (ext s)" and c = topctxt and
      piece = piece and fn = fn and req = req, OF conjI [OF store_uuid [OF ledger_lawsD(1) [OF laws]]] assms(3) free refl] by blast
  with step show ?thesis by (simp add: go_eval)
qed

lemma failWith_reaches:
  assumes "reaches V m v P" and "\<And>x t. P (Inr x) t \<Longrightarrow> Q (Inr x) t" and "\<And>e e' t. P (Inl e) t \<Longrightarrow> Q (Inl e') t"
  shows "reaches V (failWith D c m) v Q"
  unfolding failWith_def by (rule reaches_bind [OF assms(1)]) (auto intro!: reaches_ret assms(2,3) split: sum.splits)

text \<open>After the look-up of a volume.\<close>

lemma found_reaches:
  assumes laws: "ledger_laws D V"
    and "n = [] \<or> vols n = None \<Longrightarrow> (\<And>e. Q (Inl e) vols)"
    and "\<And>vol gib ss. n \<noteq> [] \<Longrightarrow> vols n = Some (gib, ss) \<Longrightarrow> v_Name vol = n \<Longrightarrow> shown (sv_own V) (v_Ai vol) n gib \<Longrightarrow>
      reaches V (k vol) vols Q"
  shows "reaches V (tryG (failWith D c (GetVolume (dr_env D) n False False)) k) vols Q"
proof (rule reaches_try)
  show "reaches V (failWith D c (GetVolume (dr_env D) n False False)) vols (\<lambda>r t. t = vols \<and> (case r of
      Inl _ \<Rightarrow> n = [] \<or> vols n = None
    | Inr vol \<Rightarrow> n \<noteq> [] \<and> (\<exists>gib ss. vols n = Some (gib, ss) \<and> v_Name vol = n \<and> shown (sv_own V) (v_Ai vol) n gib)))"
    by (rule failWith_reaches [OF GetVolume_reaches [where vols = vols and n = n, OF ledger_lawsD(1) [OF laws]]]) auto
qed (use assms(2,3) in auto)

definition snapAnswer :: "goerr + csi_snapshot \<Rightarrow> ledger_reply" where
  "snapAnswer r = (case r of Inl _ \<Rightarrow> Refused | Inr s \<Rightarrow> Snapped (snp_SnapshotId s))"

lemma snap_call:
  assumes laws: "ledger_laws D V" and free: "callKey D ''controller'' ''CreateSnapshot'' (ReqCreateSnapshot q) \<notin> rpcStatus s"
  shows "\<exists>r s'. codeCall D (SnapCmd q) s = (Ret r, s') \<and>
    ledger_step (snapIdFromName (dr_env D)) (SnapCmd q) (sv_store V (ext s)) r (sv_store V (ext s')) \<and>
    (prompt (dr_env D) \<and> csq_SourceVolumeId q \<noteq> [] \<and> csq_Name q \<noteq> [] \<and> sv_store V (ext s) (csq_SourceVolumeId q) \<noteq> None \<longrightarrow>
      r \<noteq> Refused)"
proof -
  let ?E = "dr_env D" and ?vid = "csq_SourceVolumeId q" and ?vols = "sv_store V (ext s)" and ?uid = "snapIdFromName (dr_env D)"
  let ?ok = "prompt ?E \<and> ?vid \<noteq> [] \<and> csq_Name q \<noteq> [] \<and> ?vols ?vid \<noteq> None"
  let ?R = "\<lambda>r t. ledger_step ?uid (SnapCmd q) ?vols r t \<and> (?ok \<longrightarrow> r \<noteq> Refused)"
  define Q where "Q = (\<lambda>x. ?R (snapAnswer x))"
  have refused: "Q (Inl e) ?vols" if "?vid = [] \<or> csq_Name q = [] \<or> ?vols ?vid = None" for e
    using that by (auto simp: Q_def snapAnswer_def SnapRefused)
  have made: "reaches V (tryG (failWith D Unknown (CreateSnapshot ?E vol (csq_Name q) opts)) (\<lambda>snap.
      tryG (ret (creationTime D (ss_Id snap))) (\<lambda>pts.
      ret (Inr \<lparr>snp_SnapshotId = MkSnapId (v_Name vol) (ss_Id snap), snp_SourceVolumeId = v_Name vol,
        snp_SizeBytes = mul64 (v_Size vol) GiB, snp_CreationTime = pts, snp_ReadyToUse = True\<rparr>)))) ?vols Q"
    if vol: "?vid \<noteq> []" "?vols ?vid = Some (gib, ss)" "v_Name vol = ?vid" "shown (sv_own V) (v_Ai vol) ?vid gib" for vol gib ss opts
  proof -
    have new: "ledger_step ?uid (SnapCmd q) ?vols r (?vols(?vid \<mapsto> (gib, ss @ [(?uid (csq_Name q), ts)])))"
      if "?uid (csq_Name q) \<notin> fst ` set ss" "ts \<notin> snd ` set ss" "r = Snapped (MkSnapId ?vid ts) \<or> r = Refused" for r ts
      using SnapNew [where vols = ?vols and q = q and uid = ?uid, OF vol(1,2) that] .
    have again: "ledger_step ?uid (SnapCmd q) ?vols (Snapped (MkSnapId ?vid ts)) ?vols" if "(?uid (csq_Name q), ts) \<in> set ss" for ts
      using SnapAgain [where vols = ?vols and q = q and uid = ?uid, OF vol(1,2) that] .
    have "reaches V (failWith D Unknown (CreateSnapshot ?E vol (csq_Name q) opts)) ?vols
        (snapped D (?uid (csq_Name q)) ?vid gib ss ?vols)"
      by (rule failWith_reaches [OF CreateSnapshot_reaches [where vols = ?vols and n = ?vid, OF laws vol(4,2)]])
        (auto simp: snapped_def)
    then show ?thesis
    proof (rule reaches_try)
      fix c t
      assume "snapped D (?uid (csq_Name q)) ?vid gib ss ?vols (Inr c) t"
      then have "\<exists>pts. creationTime D (ss_Id c) = Inr pts"
        and "ledger_step ?uid (SnapCmd q) ?vols (Snapped (MkSnapId ?vid (ss_Id c))) t"
        unfolding snapped_def using new again by auto
      then show "reaches V (tryG (ret (creationTime D (ss_Id c))) (\<lambda>pts.
        ret (Inr \<lparr>snp_SnapshotId = MkSnapId (v_Name vol) (ss_Id c), snp_SourceVolumeId = v_Name vol,
        snp_SizeBytes = mul64 (v_Size vol) GiB, snp_CreationTime = pts, snp_ReadyToUse = True\<rparr>))) t Q"
        by (auto simp: Q_def vol(3) snapAnswer_def tryG_def go_eval reaches_def)
    next
      fix e t
      assume "snapped D (?uid (csq_Name q)) ?vid gib ss ?vols (Inl e) t"
      then show "Q (Inl e) t" unfolding snapped_def using new by (auto simp: Q_def snapAnswer_def)
    qed
  qed
  have "\<exists>r s'. bindG (logServerAndSetId ?E topctxt (\<lambda>ctx. CreateSnapshotRpc D ctx q)) (\<lambda>x. ret (snapAnswer x)) s = (Ret r, s') \<and>
      ?R r (sv_store V (ext s'))"
    unfolding CreateSnapshotRpc_def
    by (rule call_refines [OF laws free, where Q = Q and R = ?R])
      (auto intro!: reaches_ret refused found_reaches [OF laws, where Q = Q] made, auto simp: Q_def)
  then show ?thesis by (simp add: snapAnswer_def)
qed

lemma snap_refines:
  assumes "ledger_laws D V" and "rpcStatus s = {}"
  shows "\<exists>r s'. codeCall D (SnapCmd q) s = (Ret r, s') \<and>
    ledger_step (snapIdFromName (dr_env D)) (SnapCmd q) (sv_store V (ext s)) r (sv_store V (ext s'))"
  using snap_call [OF assms(1), of q s] assms(2) by auto

text \<open>Creating a volume from a snapshot that was found.\<close>

lemma createWith_clone:
  assumes "store_writes (dr_env D) V" and free: "vols n = None" and path: "clonable (dr_env D) V vols path gib"
    and p: "vo_Template p = []" "vo_CloneVolSrc p = []" "vo_CloneSnapSrc p = path"
    and range: "case cr of None \<Rightarrow> True | Some cr \<Rightarrow> cr_RequiredBytes cr \<le> cr_LimitBytes cr"
  shows "yields V (createWith D n md chap cr p) vols (\<lambda>r. createReply r = Made (mul64 (sizeFor cr) GiB) n) (vols(n \<mapsto> (gib, [])))"
proof (rule createWith_made [OF assms(1) CreateVolume_made range])
  let ?E = "dr_env D" and ?a = "(emptyCreate n)\<lparr>ac_CloneSnapshotSrc := Some path\<rparr>"
  from path have "path \<noteq> []" by (simp add: clonable_def)
  then show "yields V (createRequest ?E n (p\<lparr>vo_Size := sizeFor cr\<rparr>) chap) vols (\<lambda>r. \<exists>a. r = Inr a \<and> a = ?a) vols"
    by (simp add: createRequest_def p yields_ret)
  fix a
  assume a: "a = ?a"
  have fields: "ac_CloneSnapshotSrc ?a = Some path" "ac_CloneVolumeSrc ?a = None" "ac_AppTemplate ?a = None" "ac_StorageInstances ?a = []"
    "ac_Name ?a = n"
    by (simp_all add: emptyCreate_def)
  show "yields V (sdkCall (AiCreate a) (x_ai_create ?E a)) vols
      (\<lambda>r. \<exists>ai. r = Inr (Some ai) \<and> shown (sv_own V) ai n gib) (vols(n \<mapsto> (gib, [])))"
    unfolding a
  proof (rule yields_sdk)
    fix w
    assume "sv_store V w = vols"
    with path [unfolded clonable_def, THEN conjunct2, rule_format, of w ?a] fields free
    show "\<exists>r w'. x_ai_create ?E ?a w = (r, w') \<and> (\<exists>ai. sdkResult r = Inr (Some ai) \<and> shown (sv_own V) ai n gib) \<and>
        sv_store V w' = vols(n \<mapsto> (gib, []))"
      by (auto simp: sdkResult_def)
  qed
qed

lemma cloneSource_reaches:
  assumes laws: "ledger_laws D V" and src: "snapshotOf cs = Some sid"
  shows "reaches V (cloneSource D cs []) vols (\<lambda>r t. t = vols \<and> (case cloneSize sid vols of
      None \<Rightarrow> \<exists>e. r = Inl (statusOf D InvalidArgument e)
    | Some gib \<Rightarrow> \<exists>path. r = Inr path \<and> clonable (dr_env D) V vols path gib))"
proof (cases "\<exists>vid ts. splitOn CHR '':'' sid = [vid, ts]")
  case True
  then obtain vid ts where id: "splitOn CHR '':'' sid = [vid, ts]" by blast
  show ?thesis
    unfolding cloneSource_def src option.case failWith_def
    by (simp add: validateSnapId_def id,
        rule reaches_bind [OF SnapshotPath_reaches [where vols = vols, OF laws id]])
      (auto intro!: reaches_ret split: option.splits)
next
  case False
  then have "length (splitOn CHR '':'' sid) \<noteq> 2" by (auto simp: length_Suc_conv numeral_2_eq_2)
  moreover from False have "cloneSize sid vols = None" by (auto simp: cloneSize_def split: list.splits)
  ultimately show ?thesis
    by (simp add: cloneSource_def src validateSnapId_def failWith_def del: append.simps) (rule reaches_ret, blast)
qed

lemma clone_refines:
  assumes laws: "ledger_laws D V" and plain: "plainClone req" and idle: "rpcStatus s = {}"
  shows "\<exists>r s'. codeStep D (CreateCmd req) s = (Ret r, s') \<and>
    specClone req (sv_store V (ext s)) = (r, sv_store V (ext s'))"
proof -
  let ?n = "storeName (cvq_Name req)" and ?cr = "map_option fillLimit (cvq_CapacityRange req)" and ?vols = "sv_store V (ext s)"
  from plain obtain sid where src: "snapshotOf (cvq_VolumeContentSource req) = Some sid" "cloneOf req = sid"
    and name: "ascii (cvq_Name req)" "cvq_Name req \<noteq> []"
    and range: "case ?cr of None \<Rightarrow> True | Some cr \<Rightarrow> cr_RequiredBytes cr \<le> cr_LimitBytes cr"
    by (auto simp: plainClone_def plainCreate_def cloneOf_def)
  show ?thesis
  proof (rule create_through [OF ledger_lawsD(1) [OF laws] name idle refl])
    fix ctxt chap secrets
    assume None: "?vols ?n = None"
    let ?req = "req\<lparr>cvq_Secrets := secrets\<rparr>" and ?Q = "\<lambda>r t. specClone req ?vols = (createReply r, t)"
    from plain have "plainCreate (?req\<lparr>cvq_VolumeContentSource := None\<rparr>)" by (simp add: plainClone_def plainCreate_def)
    then obtain md p where p: "vo_Template p = []" "vo_CloneVolSrc p = []"
      and new: "createNew D ctxt ?n chap ?cr ?req = tryG (cloneSource D (cvq_VolumeContentSource ?req) []) (\<lambda>src.
        createWith D ?n md chap ?cr (p\<lparr>vo_CloneSnapSrc := src\<rparr>))"
      by (rule createNew_in_order)
    show "reaches V (createNew D ctxt ?n chap ?cr ?req) ?vols ?Q"
      unfolding new
    proof (rule reaches_try)
      show "reaches V (cloneSource D (cvq_VolumeContentSource ?req) []) ?vols (\<lambda>r t. t = ?vols \<and> (case cloneSize sid ?vols of
          None \<Rightarrow> \<exists>e. r = Inl (statusOf D InvalidArgument e)
        | Some gib \<Rightarrow> \<exists>path. r = Inr path \<and> clonable (dr_env D) V ?vols path gib))"
        by (rule cloneSource_reaches [OF laws]) (simp add: src)
    next
      fix path t
      assume "t = ?vols \<and> (case cloneSize sid ?vols of
          None \<Rightarrow> \<exists>e. Inr path = Inl (statusOf D InvalidArgument e)
        | Some gib \<Rightarrow> \<exists>path'. Inr path = Inr path' \<and> clonable (dr_env D) V ?vols path' gib)"
      then obtain gib where gib: "t = ?vols" "cloneSize sid ?vols = Some gib" "clonable (dr_env D) V ?vols path gib"
        by (auto split: option.splits)
      from createWith_clone [where vols = ?vols and n = ?n and p = "p\<lparr>vo_CloneSnapSrc := path\<rparr>",
          OF ledger_lawsD(2) [OF laws] None gib(3) _ _ _ range] p
      show "reaches V (createWith D ?n md chap ?cr (p\<lparr>vo_CloneSnapSrc := path\<rparr>)) t ?Q"
        by (simp add: gib(1,2) yields_reaches specClone_def Let_def None src(2) eq_commute)
    next
      fix e t
      assume "t = ?vols \<and> (case cloneSize sid ?vols of
          None \<Rightarrow> \<exists>e'. Inl e = Inl (statusOf D InvalidArgument e')
        | Some gib \<Rightarrow> \<exists>path'. Inl e = Inr path' \<and> clonable (dr_env D) V ?vols path' gib)"
      then show "?Q (Inl e) t"
        by (auto simp: specClone_def Let_def None src(2) createReply_def statusOf_def split: option.splits)
    qed
  qed (simp add: specClone_def Let_def)
qed

lemma unsnap_refines:
  assumes laws: "ledger_laws D V" and idle: "rpcStatus s = {}"
  shows "\<exists>r s'. codeCall D (UnsnapCmd snapId) s = (Ret r, s') \<and>
    ledger_step uid (UnsnapCmd snapId) (sv_store V (ext s)) r (sv_store V (ext s'))"
proof -
  let ?vols = "sv_store V (ext s)" and ?vid = "fst (ParseSnapId snapId)" and ?sid = "snd (ParseSnapId snapId)"
  let ?Q = "\<lambda>x t. ledger_step uid (UnsnapCmd snapId) ?vols (case x of Inl _ \<Rightarrow> Refused | Inr _ \<Rightarrow> Unsnapped) t"
  have gone: "?Q (Inr ()) t" if "snapId \<noteq> []" "t = specUnsnap snapId ?vols" for t
    using that by (simp add: Unsnap)
  have drop: "reaches V (bindG (GetVolume (dr_env D) ?vid False False) (\<lambda>r. case r of
        Inl _ \<Rightarrow> ret (Inr ())
      | Inr vol \<Rightarrow> bindG (VolDeleteSnapshot (dr_env D) vol ?sid) (\<lambda>_. ret (Inr ())))) ?vols ?Q"
    if snap: "snapId \<noteq> []" "?vid \<noteq> []" "?sid \<noteq> []"
  proof (rule reaches_bind [OF GetVolume_reaches [where vols = ?vols and n = ?vid, OF ledger_lawsD(1) [OF laws]]])
    fix r :: "goerr + volume" and t
    assume A: "t = ?vols \<and> (case r of Inl _ \<Rightarrow> ?vid = [] \<or> ?vols ?vid = None
      | Inr vol \<Rightarrow> ?vid \<noteq> [] \<and> (\<exists>gib ss. ?vols ?vid = Some (gib, ss) \<and> v_Name vol = ?vid \<and> shown (sv_own V) (v_Ai vol) ?vid gib))"
    show "reaches V (case r of Inl _ \<Rightarrow> ret (Inr ())
      | Inr vol \<Rightarrow> bindG (VolDeleteSnapshot (dr_env D) vol ?sid) (\<lambda>_. ret (Inr ()))) t ?Q"
    proof (cases r)
      case (Inl e)
      then show ?thesis
        using A snap by (auto intro!: reaches_ret gone simp: specUnsnap_def split_beta)
    next
      case (Inr vol)
      with A obtain gib ss where v: "?vols ?vid = Some (gib, ss)" "shown (sv_own V) (v_Ai vol) ?vid gib" by auto
      have "reaches V (bindG (VolDeleteSnapshot (dr_env D) vol ?sid) (\<lambda>_. ret (Inr ()))) ?vols ?Q"
        by (rule reaches_bind [OF VolDeleteSnapshot_reaches [where vols = ?vols and n = ?vid, OF laws v(2,1)]])
          (auto intro!: reaches_ret gone simp: specUnsnap_def split_beta snap v(1))
      then show ?thesis using A Inr by simp
    qed
  qed
  show ?thesis
    unfolding codeCall.simps DeleteSnapshotRpc_def split_beta Let_def
    by (rule call_refines [OF laws _, where Q = ?Q and R = "ledger_step uid (UnsnapCmd snapId) ?vols"], simp add: idle)
      (auto intro!: reaches_ret drop gone simp: UnsnapRefused, auto simp: specUnsnap_def split_beta)
qed

lemma grow_refines:
  assumes laws: "ledger_laws D V" and idle: "rpcStatus s = {}" and cr: "exq_CapacityRange e = Some cr"
  shows "\<exists>r s'. codeCall D (GrowCmd e) s = (Ret r, s') \<and>
    ledger_step uid (GrowCmd e) (sv_store V (ext s)) r (sv_store V (ext s'))"
proof -
  let ?vols = "sv_store V (ext s)" and ?n = "exq_VolumeId e"
  let ?Q = "\<lambda>x t. ledger_step uid (GrowCmd e) ?vols (case x of Inl _ \<Rightarrow> Refused | Inr (bytes, _) \<Rightarrow> Grown bytes) t"
  have asked: "cr_RequiredBytes (fillLimit cr) = askedBytes e" "quot64 (askedBytes e) GiB = askedGib e"
    by (simp_all add: askedGib_def askedBytes_def cr fillLimit_def)
  have grow: "reaches V (tryG (failWith D Unknown (Resize (dr_env D) vol (askedGib e))) (\<lambda>_. ret (Inr (askedBytes e, True)))) ?vols ?Q"
    if "?n \<noteq> []" "?vols ?n = Some (gib, ss)" "shown (sv_own V) (v_Ai vol) ?n gib" for vol gib ss
  proof -
    have "reaches V (failWith D Unknown (Resize (dr_env D) vol (askedGib e))) ?vols (\<lambda>x t. if gib \<le> askedGib e
        then t = ?vols(?n \<mapsto> (askedGib e, ss)) \<and> (\<exists>v. x = Inr v) else t = ?vols \<and> (\<exists>e. x = Inl e))"
      by (rule failWith_reaches [OF Resize_reaches [where vols = ?vols and n = ?n, OF laws that(3,2)]])
        (auto split: if_splits)
    then show ?thesis
      by (rule reaches_try) (auto split: if_splits intro!: reaches_ret Grow [where vols = ?vols, OF that(1,2)]
          GrowLess [where vols = ?vols, OF that(2)])
  qed
  show ?thesis
    unfolding codeCall.simps ControllerExpandVolume_def Let_def
    by (rule call_refines [OF laws _, where Q = ?Q and R = "ledger_step uid (GrowCmd e) ?vols"], simp add: idle, simp add: cr asked derefG_def)
      (auto intro!: found_reaches [OF laws] grow GrowRefused)
qed

section \<open>Refinement\<close>

lemma codeCall_frame: "frame (keeps driver_fields) (codeCall D c)"
  by (cases c) (auto intro!: frame_intros codeStep_frame simp del: codeStep.simps)

lemma codeCall_refines:
  assumes laws: "ledger_laws D V" and plain: "plainCall c" and idle: "rpcStatus s = {}"
  shows "\<exists>r s'. codeCall D c s = (Ret r, s') \<and> rpcStatus s' = {} \<and>
    ledger_step (snapIdFromName (dr_env D)) c (sv_store V (ext s)) r (sv_store V (ext s'))"
proof -
  have "\<exists>r s'. codeCall D c s = (Ret r, s') \<and> ledger_step (snapIdFromName (dr_env D)) c (sv_store V (ext s)) r (sv_store V (ext s'))"
  proof (cases c)
    case (StoreCmd c')
    with plain have "plain c'" by simp
    from codeStep_refines [OF ledger_lawsD(1,2) [OF laws] this idle refl] obtain s' where
      "codeStep D c' s = (Ret (fst (specStep c' (sv_store V (ext s)))), s')"
      "sv_store V (ext s') = snd (specStep c' (sv_store V (ext s)))" by blast
    then show ?thesis
      by (auto simp: StoreCmd go_eval intro!: Store simp del: codeStep.simps specStep.simps)
  next
    case (CloneCmd req)
    with plain have "plainClone req" by simp
    from clone_refines [OF laws this idle] obtain r s' where "codeStep D (CreateCmd req) s = (Ret r, s')"
      "specClone req (sv_store V (ext s)) = (r, sv_store V (ext s'))" by blast
    then show ?thesis
      by (auto simp: CloneCmd go_eval intro!: Clone simp del: codeStep.simps)
  next
    case (GrowCmd e)
    then show ?thesis using grow_refines [OF laws idle] plain by (auto simp del: codeCall.simps)
  qed (use snap_refines [OF laws idle] unsnap_refines [OF laws idle] in \<open>simp_all del: codeCall.simps\<close>)
  then obtain r s' where run: "codeCall D c s = (Ret r, s')"
    and "ledger_step (snapIdFromName (dr_env D)) c (sv_store V (ext s)) r (sv_store V (ext s'))" by blast
  moreover have "rpcStatus s' = {}"
    using frameD [OF keeps_parts(1) [OF codeCall_frame] run] idle by (simp add: keeps_def)
  ultimately show ?thesis by blast
qed

lemma ledger_codeRun:
  assumes "ledger_laws D V" and "list_all plainCall cs" and "rpcStatus s = {}"
  shows "\<exists>rs s'. mapG (codeCall D) cs s = (Ret rs, s') \<and>
    ledger_run (snapIdFromName (dr_env D)) cs (sv_store V (ext s)) rs (sv_store V (ext s'))"
  using assms(2,3)
proof (induction cs arbitrary: s)
  case Nil
  then show ?case by (simp add: go_eval ledger_run.Done)
next
  case (Cons c cs)
  from Cons.prems have "plainCall c" "list_all plainCall cs" by simp_all
  from codeCall_refines [OF assms(1) this(1) Cons.prems(2)] obtain r s1 where s1: "codeCall D c s = (Ret r, s1)"
    "rpcStatus s1 = {}" "ledger_step (snapIdFromName (dr_env D)) c (sv_store V (ext s)) r (sv_store V (ext s1))" by blast
  from Cons.IH [OF \<open>list_all plainCall cs\<close> s1(2)] obtain rs s2 where "mapG (codeCall D) cs s1 = (Ret rs, s2)"
    "ledger_run (snapIdFromName (dr_env D)) cs (sv_store V (ext s1)) rs (sv_store V (ext s2))" by blast
  with s1 show ?case
    by (auto simp: go_eval intro: ledger_run.Next simp del: codeCall.simps)
qed


section \<open>What the answers say of the sizes\<close>

text \<open>C27: a volume created from a snapshot is answered with the size that was asked for, but has the size of the
  snapshot's volume; when that is not what was asked for, the same request, repeated, is refused as a
  conflict.\<close>

theorem clone_not_repeatable:
  assumes "ledger_laws D V" and "plainClone req" and "rpcStatus s = {}"
    and "sv_store V (ext s) (storeName (cvq_Name req)) = None"
    and "cloneSize (cloneOf req) (sv_store V (ext s)) = Some gib"
    and "\<not> fits (map_option fillLimit (cvq_CapacityRange req)) gib"
  shows "\<exists>s'. mapG (codeCall D) [CloneCmd req, CloneCmd req] s =
      (Ret [Answer (Made (mul64 (sizeFor (map_option fillLimit (cvq_CapacityRange req))) GiB) (storeName (cvq_Name req))),
        Answer Conflict], s') \<and>
    sv_store V (ext s') (storeName (cvq_Name req)) = Some (gib, [])"
proof -
  have "list_all plainCall [CloneCmd req, CloneCmd req]" using assms(2) by simp
  from ledger_codeRun [OF assms(1) this assms(3)] obtain rs s' where
    run: "mapG (codeCall D) [CloneCmd req, CloneCmd req] s = (Ret rs, s')"
    and ledger: "ledger_run (snapIdFromName (dr_env D)) [CloneCmd req, CloneCmd req] (sv_store V (ext s)) rs (sv_store V (ext s'))"
    by blast
  from ledger have "rs = [Answer (Made (mul64 (sizeFor (map_option fillLimit (cvq_CapacityRange req))) GiB) (storeName (cvq_Name req))),
      Answer Conflict]" and "sv_store V (ext s') = (sv_store V (ext s))(storeName (cvq_Name req) \<mapsto> (gib, []))"
    using assms(4-6) by (auto simp: ledger_run_simps ledger_step_simps specClone_def Let_def)
  with run show ?thesis by simp
qed

text \<open>An expansion is answered with the bytes that were asked for, whole GiB or not; the volume gets the whole
  GiB.\<close>

theorem expansion_overstated:
  assumes "ledger_laws D V" and "exq_CapacityRange e = Some cr" and "rpcStatus s = {}"
    and "exq_VolumeId e \<noteq> []" and "sv_store V (ext s) (exq_VolumeId e) = Some (gib, ss)"
    and "gib \<le> cr_RequiredBytes cr div GiB" and "0 \<le> cr_RequiredBytes cr" and "int64 (cr_RequiredBytes cr)"
    and "\<not> GiB dvd cr_RequiredBytes cr"
  shows "\<exists>gib' s'. codeCall D (GrowCmd e) s = (Ret (Grown (cr_RequiredBytes cr)), s') \<and>
    sv_store V (ext s') (exq_VolumeId e) = Some (gib', ss) \<and> gib' * GiB < cr_RequiredBytes cr"
proof -
  let ?b = "cr_RequiredBytes cr"
  have "sgn ?b * (?b div GiB) = ?b div GiB" using assms(7) by (cases "?b = 0") simp_all
  moreover have "0 \<le> ?b div GiB" "?b div GiB \<le> ?b"
    using assms(7) zdiv_mono2 [of ?b 1 GiB] by (simp_all add: pos_imp_zdiv_nonneg_iff GiB_def)
  then have "int64 (?b div GiB)" using assms(8) by (simp add: int64_def)
  moreover have "quot64 ?b GiB = wrap64 (sgn ?b * (?b div GiB))" using assms(7) by (simp add: quot64_def GiB_def)
  ultimately have "quot64 ?b GiB = ?b div GiB" by (simp only: wrap64_id)
  then have asked: "askedBytes e = ?b" "askedGib e = ?b div GiB" by (simp_all add: askedBytes_def askedGib_def assms(2))
  have "?b mod GiB \<noteq> 0" "0 \<le> ?b mod GiB" using assms(9) by (auto simp: dvd_eq_mod_eq_0 GiB_def)
  then have less: "?b div GiB * GiB < ?b" by (simp add: minus_mod_eq_div_mult [symmetric])
  from grow_refines [OF assms(1,3,2), where uid = "\<lambda>x. x"] obtain r s' where run: "codeCall D (GrowCmd e) s = (Ret r, s')"
    and step: "ledger_step (\<lambda>x. x) (GrowCmd e) (sv_store V (ext s)) r (sv_store V (ext s'))" by blast
  from step have "r = Grown ?b \<and> sv_store V (ext s') (exq_VolumeId e) = Some (?b div GiB, ss)"
    using assms(4-6) by (auto simp: ledger_step_simps asked)
  with run less show ?thesis by blast
qed

section \<open>What the ledger keeps\<close>

definition holds :: "string \<Rightarrow> string \<times> string \<Rightarrow> store \<Rightarrow> bool" where
  "holds n k vols \<longleftrightarrow> (case vols n of None \<Rightarrow> False | Some (_, ss) \<Rightarrow> k \<in> set ss)"

definition asksFor :: "string \<Rightarrow> string \<times> string \<Rightarrow> ledger_cmd \<Rightarrow> bool" where
  "asksFor n k c = (case c of
      UnsnapCmd snapId \<Rightarrow> fst (ParseSnapId snapId) = n \<and> namesSnap (snd (ParseSnapId snapId)) k
    | _ \<Rightarrow> False)"

lemma dropSnap_keeps: "k \<in> set ss \<Longrightarrow> \<not> namesSnap sid k \<Longrightarrow> k \<in> set (dropSnap sid ss)"
  unfolding dropSnap_def by (auto split: option.splits simp: find_Some_iff)

lemma specStep_holds: "specStep c vols = (r, vols') \<Longrightarrow> holds n k vols \<Longrightarrow> holds n k vols'"
  by (cases c)
    (auto simp: holds_def specCreate_def specDelete_def Let_def split: option.splits if_splits)

lemma specClone_holds: "specClone req vols = (r, vols') \<Longrightarrow> holds n k vols \<Longrightarrow> holds n k vols'"
  by (auto simp: holds_def specClone_def Let_def split: option.splits if_splits)

lemma ledger_step_holds:
  assumes "ledger_step uid c vols r vols'" and "holds n k vols" and "\<not> asksFor n k c"
  shows "holds n k vols'"
  using assms
proof cases
  case (Store c')
  then show ?thesis using assms(2) specStep_holds by blast
next
  case (Clone req)
  then show ?thesis using assms(2) specClone_holds by blast
qed (auto simp: holds_def specUnsnap_def asksFor_def split_beta dropSnap_keeps split: option.splits if_splits)

lemma ledger_run_holds:
  "ledger_run uid cs vols rs vols' \<Longrightarrow> holds n k vols \<Longrightarrow> list_all (\<lambda>c. \<not> asksFor n k c) cs \<Longrightarrow> holds n k vols'"
  by (induction rule: ledger_run.induct) (auto dest: ledger_step_holds)

lemma ledger_snapped:
  assumes "ledger_step uid (SnapCmd q) vols (Snapped (MkSnapId (csq_SourceVolumeId q) ts)) vols'"
  shows "holds (csq_SourceVolumeId q) (uid (csq_Name q), ts) vols'"
  using assms by (cases rule: ledger_snapE) (auto simp: holds_def MkSnapId_def)


end
