(* ===== verification/Ledger_Race.thy ===== *)
theory Ledger_Race
  imports Ledger_Refinement
begin

text \<open>
  Two handlers at once. The table of running calls keeps a call from running beside itself, not beside
  others: a deletion looks for snapshots and deletes in separate requests to the backend, and a snapshot
  that another handler takes in between is lost with its volume. Interference is a change of the world right
  after the snapshots were listed; what interferes here is a whole call of the other handler.
\<close>

section \<open>Interference\<close>

definition interruptedEnv :: "('w \<Rightarrow> 'w) \<Rightarrow> 'w env \<Rightarrow> 'w env" where
  "interruptedEnv others E = E\<lparr>x_snap_list := (\<lambda>dv w. let (r, w') = x_snap_list E dv w in (r, others w'))\<rparr>"

definition interrupted :: "('w \<Rightarrow> 'w) \<Rightarrow> 'w driver \<Rightarrow> 'w driver" where
  "interrupted others D = D\<lparr>dr_env := interruptedEnv others (dr_env D)\<rparr>"

lemma interrupted_same:
  "dr_env (interrupted others D) = interruptedEnv others (dr_env D)" "callKey (interrupted others D) = callKey D"
  "x_ai_get (interruptedEnv others E) = x_ai_get E" "x_ai_reload (interruptedEnv others E) = x_ai_reload E"
  "x_new_uuid (interruptedEnv others E) = x_new_uuid E" "store_writes (interruptedEnv others E) V = store_writes E V"
  "x_snap_list (interruptedEnv others E) dv w = (let (r, w') = x_snap_list E dv w in (r, others w'))"
  by (simp_all add: interrupted_def interruptedEnv_def callKey_def fun_eq_iff store_writes_def)

text \<open>The table while the deletion runs, and the other handler's call then.\<close>

definition deleteKey :: "'w driver \<Rightarrow> delete_volume_req \<Rightarrow> string" where
  "deleteKey D req = callKey D ''controller'' ''DeleteVolume''
     (ReqDeleteVolume (req\<lparr>dvq_Secrets := fst (StripSecretsAndGetChapParams (WithSecrets (dvq_Secrets req)))\<rparr>))"

definition takenMeanwhile :: "'w driver \<Rightarrow> create_snapshot_req \<Rightarrow> delete_volume_req \<Rightarrow> 'w st \<Rightarrow> 'w \<Rightarrow> ledger_reply outcome \<times> 'w st" where
  "takenMeanwhile D q req s w = codeCall D (SnapCmd q) (s\<lparr>ext := w, rpcStatus := {deleteKey D req}\<rparr>)"

lemma other_key: "callKey D ''controller'' ''CreateSnapshot'' r \<noteq> deleteKey D req"
  by (simp add: deleteKey_def callKey_def)

lemma taken_meanwhile:
  assumes "ledger_laws D V" and "prompt (dr_env D)" and "csq_SourceVolumeId q \<noteq> []" and "csq_Name q \<noteq> []"
    and "sv_store V w (csq_SourceVolumeId q) = Some (gib, [])"
  shows "\<exists>ts s'. takenMeanwhile D q req s w = (Ret (Snapped (MkSnapId (csq_SourceVolumeId q) ts)), s') \<and>
    sv_store V (ext s') = (sv_store V w)(csq_SourceVolumeId q \<mapsto> (gib, [(snapIdFromName (dr_env D) (csq_Name q), ts)]))"
proof -
  let ?s = "s\<lparr>ext := w, rpcStatus := {deleteKey D req}\<rparr>"
  have "callKey D ''controller'' ''CreateSnapshot'' (ReqCreateSnapshot q) \<notin> rpcStatus ?s"
    using other_key by simp
  from snap_call [OF assms(1) this] assms(2-5) obtain r s' where run: "codeCall D (SnapCmd q) ?s = (Ret r, s')"
    and step: "ledger_step (snapIdFromName (dr_env D)) (SnapCmd q) (sv_store V w) r (sv_store V (ext s'))" and "r \<noteq> Refused"
    by (auto simp del: codeCall.simps)
  with assms(3-5) show ?thesis
    by (auto simp: takenMeanwhile_def ledger_step_simps simp del: codeCall.simps)
qed

section \<open>The deletion\<close>

lemma HasSnapshots_interrupted:
  assumes "store_reads E V" and "shown (sv_own V) (v_Ai r) n gib" and "vols n = Some (gib, held)"
    and others: "\<And>w. sv_store V w = vols \<Longrightarrow> T (sv_store V (others w))"
  shows "reaches V (HasSnapshots (interruptedEnv others E) r) vols
    (\<lambda>(h, v) t. h = Inr (held \<noteq> []) \<and> shown (sv_own V) (v_Ai v) n gib \<and> T t)"
  unfolding reaches_def
proof (intro allI impI)
  fix s :: "'a st"
  assume s: "sv_store V (ext s) = vols"
  from assms(2) have ai: "sv_own V (v_Ai r)" "ai_Name (v_Ai r) = n" by (simp_all add: shown_def)
  then have "sv_store V (ext s) (ai_Name (v_Ai r)) = Some (gib, held)" using assms(3) s by simp
  with assms(1) ai(1) obtain ai' w where reload: "x_ai_reload E (v_Ai r) (ext s) = ((Some ai', None, None), w)"
    and ai': "shown (sv_own V) ai' n gib" and w: "sv_store V w = vols"
    by (rule store_reload) (simp add: s ai(2))
  then have reload': "x_ai_reload (interruptedEnv others E) (v_Ai r) (ext s) = ((Some ai', None, None), w)"
    by (simp add: interrupted_same)
  from ai' obtain si dv acl t where p: "parts ai' = Some (si, dv, acl, t)" "sv_own V ai'" "ai_Name ai' = n"
    by (rule shownE)
  from assms(3) w p(3) have "sv_store V w (ai_Name ai') = Some (gib, held)" by simp
  with assms(1) p(2,1) obtain sns w' where "x_snap_list E dv w = ((sns, None, None), w')"
    and keys: "map snapKey sns = held" and "sv_store V w' = vols"
    by (rule store_snaps) (simp add: w)
  then have list: "x_snap_list (interruptedEnv others E) dv w = ((sns, None, None), others w')" and "T (sv_store V (others w'))"
    by (simp_all add: interrupted_same others)
  moreover have "(sns \<noteq> []) = (held \<noteq> [])" using keys by auto
  ultimately show "\<exists>x s'. HasSnapshots (interruptedEnv others E) r s = (Ret x, s') \<and>
      (case x of (h, v) \<Rightarrow> \<lambda>t. h = Inr (held \<noteq> []) \<and> shown (sv_own V) (v_Ai v) n gib \<and> T t) (sv_store V (ext s'))"
    using HasSnapshots_run [OF reload' p(1) list] ai' by simp
qed

lemma delete_interrupted:
  assumes "store_reads (dr_env D) V" and "store_writes (dr_env D) V" and "rpcStatus s = {}" and "dvq_VolumeId req \<noteq> []"
    and "sv_store V (ext s) (dvq_VolumeId req) = Some (gib, [])"
    and others: "\<And>w. sv_store V w = sv_store V (ext s) \<Longrightarrow> \<exists>held. sv_store V (others w) (dvq_VolumeId req) = Some (gib, held)"
  shows "\<exists>s'. codeStep (interrupted others D) (DeleteCmd req) s = (Ret Deleted, s') \<and> sv_store V (ext s') (dvq_VolumeId req) = None"
proof -
  let ?n = "dvq_VolumeId req" and ?vols = "sv_store V (ext s)" and ?D = "interrupted others D"
  let ?T = "\<lambda>t. \<exists>held. t ?n = Some (gib, held)"
  define E where "E = interruptedEnv others (dr_env D)"
  have "reaches V (DeleteVolume E ?n True) ?vols (\<lambda>r t. if ([] :: snaps) \<noteq> []
      then (\<exists>m. r = Inl (PlainErr (''Volume '' @ m @ '' cannot be deleted because it has snapshots''))) \<and> ?T t
      else r = Inr () \<and> (\<exists>t'. ?T t' \<and> t = t'(?n := None)))"
    unfolding E_def
  proof (rule DeleteVolume_look [where gib = gib and T = ?T])
    show "\<exists>ai w'. x_ai_get (interruptedEnv others (dr_env D)) ?n w = ((Some ai, None, None), w') \<and>
        shown (sv_own V) ai ?n gib \<and> sv_store V w' = ?vols" if "sv_store V w = ?vols" for w
      unfolding interrupted_same by (rule store_presence [where vols = ?vols and n = ?n, OF assms(1,5) that])
    show "reaches V (HasSnapshots (interruptedEnv others (dr_env D)) v) ?vols
        (\<lambda>(h, v) t. h = Inr (([] :: snaps) \<noteq> []) \<and> shown (sv_own V) (v_Ai v) ?n gib \<and> ?T t)"
      if "shown (sv_own V) (v_Ai v) ?n gib" for v
      by (rule HasSnapshots_interrupted [where vols = ?vols and n = ?n and T = ?T, OF assms(1) that assms(5) others])
  qed (simp_all add: interrupted_same assms(2))
  then have gone: "reaches V (DeleteVolume E ?n True) ?vols (\<lambda>r t. r = Inr () \<and> t ?n = None)"
    by (rule reaches_weaken) auto
  define req' where "req' = req\<lparr>dvq_Secrets := fst (StripSecretsAndGetChapParams (WithSecrets (dvq_Secrets req)))\<rparr>"
  have same: "dvq_VolumeId req' = ?n" by (simp add: req'_def)
  have body: "reaches V (if ?n = [] then ret (Inl (StatusErr InvalidArgument ''VolumeId cannot be empty''))
      else bindG (DeleteVolume E ?n True) (\<lambda>r. ret (case r of
        Inl e \<Rightarrow> if contains (ErrorText E e) ''it has snapshots''
          then Inl (StatusErr FailedPrecondition ''Volumes with snapshots cannot be deleted.  Delete snapshots first'')
          else Inr ()
      | Inr _ \<Rightarrow> Inr ()))) ?vols (\<lambda>r t. r = Inr () \<and> t ?n = None)"
    unfolding if_not_P [OF assms(4)] by (rule reaches_bind [OF gone]) (auto intro!: reaches_ret)
  have "\<exists>x s'. logServerAndSetId (dr_env ?D) topctxt (\<lambda>ctx. DeleteVolumeRpc ?D ctx req) s = (Ret x, s') \<and>
      x = Inr () \<and> sv_store V (ext s') ?n = None"
    unfolding DeleteVolumeRpc_def split_beta Let_def req'_def [symmetric] same interrupted_same(1) E_def [symmetric]
    by (rule intercepted_free [where D = ?D and vols = ?vols, unfolded interrupted_same(1) E_def [symmetric], OF _ body])
      (simp_all add: E_def interrupted_same store_uuid [OF assms(1)] assms(3))
  then show ?thesis by (auto simp: go_eval deleteReply_def)
qed

text \<open>C31: on a volume without snapshots, let another handler's whole call to take a snapshot run right after
  the deletion has listed the snapshots: the table of running calls does not stop it, the snapshot is
  acknowledged, and the deletion is answered as done and takes the volume away, with the snapshot.\<close>

theorem snapshot_lost_in_race:
  assumes "ledger_laws D V" and "prompt (dr_env D)" and "rpcStatus s = {}"
    and "csq_SourceVolumeId q \<noteq> []" and "csq_Name q \<noteq> []" and "dvq_VolumeId req = csq_SourceVolumeId q"
    and "sv_store V (ext s) (csq_SourceVolumeId q) = Some (gib, [])"
  shows "(\<forall>w. sv_store V w = sv_store V (ext s) \<longrightarrow>
      (\<exists>ts s'. takenMeanwhile D q req s w = (Ret (Snapped (MkSnapId (csq_SourceVolumeId q) ts)), s') \<and>
        holds (csq_SourceVolumeId q) (snapIdFromName (dr_env D) (csq_Name q), ts) (sv_store V (ext s')))) \<and>
    (\<exists>s'. codeStep (interrupted (\<lambda>w. ext (snd (takenMeanwhile D q req s w))) D) (DeleteCmd req) s = (Ret Deleted, s') \<and>
      sv_store V (ext s') (csq_SourceVolumeId q) = None)"
proof (rule conjI)
  note taken = taken_meanwhile [OF assms(1,2,4,5), where req = req and s = s and gib = gib]
  show "\<forall>w. sv_store V w = sv_store V (ext s) \<longrightarrow>
      (\<exists>ts s'. takenMeanwhile D q req s w = (Ret (Snapped (MkSnapId (csq_SourceVolumeId q) ts)), s') \<and>
        holds (csq_SourceVolumeId q) (snapIdFromName (dr_env D) (csq_Name q), ts) (sv_store V (ext s')))"
  proof (intro allI impI)
    fix w
    assume "sv_store V w = sv_store V (ext s)"
    with assms(7) have "sv_store V w (csq_SourceVolumeId q) = Some (gib, [])" by simp
    from taken [OF this] show "\<exists>ts s'. takenMeanwhile D q req s w = (Ret (Snapped (MkSnapId (csq_SourceVolumeId q) ts)), s') \<and>
        holds (csq_SourceVolumeId q) (snapIdFromName (dr_env D) (csq_Name q), ts) (sv_store V (ext s'))"
      by (fastforce simp: holds_def)
  qed
  have others: "\<exists>held. sv_store V (ext (snd (takenMeanwhile D q req s w))) (dvq_VolumeId req) = Some (gib, held)"
    if "sv_store V w = sv_store V (ext s)" for w
  proof -
    from that assms(7) have "sv_store V w (csq_SourceVolumeId q) = Some (gib, [])" by simp
    from taken [OF this] show ?thesis by (fastforce simp: assms(6))
  qed
  from delete_interrupted [OF ledger_lawsD(1,2) [OF assms(1)] assms(3) _ _ others] assms(4,6,7)
  show "\<exists>s'. codeStep (interrupted (\<lambda>w. ext (snd (takenMeanwhile D q req s w))) D) (DeleteCmd req) s = (Ret Deleted, s') \<and>
      sv_store V (ext s') (csq_SourceVolumeId q) = None" by auto
qed

end
