(* ===== verification/Demo_Ledger.thy ===== *)
theory Demo_Ledger
  imports Demo_Store Ledger_Race
begin

text \<open>
  The backend of \<open>Demo_Store\<close> keeps the laws of the ledger; sequences of calls on it, and a race.
\<close>

section \<open>The laws\<close>

abbreviation ledgerDriver :: "demo driver" where
  "ledgerDriver \<equiv> demoDriver ledgerEnv ''controller''"

lemma ledger_stamps: "stamps_law ledgerDriver ledgerView"
proof -
  have "x_parse_float ledgerEnv = (\<lambda>_. Inr 1550370547)" "x_timestamp_proto ledgerEnv = (\<lambda>t. Inr t)"
    by (simp_all add: ledgerEnv_def demoEnv_def)
  then show ?thesis by (simp add: stamps_law_def creationTime_def Let_def)
qed

lemma ledger_reloads: "reload_law ledgerEnv ledgerView"
  unfolding reload_law_def ledger_calls
  by (auto simp: found_def sv_store_ledger lists_def)

lemma freshStamp: "freshStamp sns \<notin> sn_UtcTs ` set sns"
proof -
  have "length t \<le> sum_list (map (length \<circ> sn_UtcTs) sns)" if "t \<in> sn_UtcTs ` set sns" for t
    using that by (auto intro: member_le_sum_list)
  moreover have "length (freshStamp sns) = Suc (sum_list (map (length \<circ> sn_UtcTs) sns))" by (simp add: freshStamp_def)
  ultimately show ?thesis by (metis Suc_n_not_le_n)
qed

lemma key_images: "fst ` set (map snapKey sns) = sn_Uuid ` set sns" "snd ` set (map snapKey sns) = sn_UtcTs ` set sns"
  by (force simp: snapKey_def)+

lemma ledger_snap_create: "snap_create_law ledgerEnv ledgerView"
proof -
  have create: "x_snap_create ledgerEnv = (\<lambda>dv c w.
      let old = snapsOf w (dv_Path dv); sn = demoSnap (dv_Path dv) (snc_Uuid c) (freshStamp old)
      in if snc_Uuid c \<in> sn_Uuid ` set old then ((None, Some duplicate, None), w)
         else ((Some sn, None, None), w\<lparr>dm_snaps := (dv_Path dv, old @ [sn]) # dm_snaps w\<rparr>))"
    by (simp add: ledgerEnv_def)
  show ?thesis
    unfolding snap_create_law_def create
  proof (intro allI impI, goal_cases)
    case (1 ai si dv acl t w gib ss c)
    from ledger_own [OF 1(1,2)] have path: "dv_Path dv = ''/vol/'' @ ai_Name ai" .
    let ?old = "snapsOf w (''/vol/'' @ ai_Name ai)"
    from 1(3) obtain a where a: "map_of (dm_ais w) (ai_Name ai) = Some a" "gib = sizeOf a" "ss = map snapKey ?old"
      by (auto simp: sv_store_ledger)
    have ids: "fst ` set ss = sn_Uuid ` set ?old" "snd ` set ss = sn_UtcTs ` set ?old"
      by (simp_all only: a(3) key_images)
    have "sv_store ledgerView (w\<lparr>dm_snaps := (''/vol/'' @ ai_Name ai, ?old @ [sn]) # dm_snaps w\<rparr>) =
        (sv_store ledgerView w)(ai_Name ai \<mapsto> (gib, ss @ [snapKey sn]))" for sn
      by (rule ext) (simp add: sv_store_ledger a snapsOf_def)
    then show ?case
      by (simp add: path ids Let_def duplicate_def demoSnap_def freshStamp)
  qed
qed

lemma ledger_snap_reload: "snap_reload_law ledgerEnv ledgerView"
  unfolding snap_reload_law_def ledger_calls by (simp add: found_def)

lemma ledger_snap_delete: "snap_delete_law ledgerEnv ledgerView"
proof -
  have delete: "x_snap_delete ledgerEnv = (\<lambda>sn w. ((Some sn, None, None), w\<lparr>dm_snaps :=
      (volumeOfPath (sn_Path sn), filter (\<lambda>x. snapKey x \<noteq> snapKey sn) (snapsOf w (volumeOfPath (sn_Path sn)))) # dm_snaps w\<rparr>))"
    by (simp add: ledgerEnv_def)
  have keys: "removeAll k (map snapKey sns) = map snapKey (filter (\<lambda>x. snapKey x \<noteq> k) sns)" for k sns
    by (induction sns) auto
  show ?thesis
    unfolding snap_delete_law_def delete
  proof (intro allI impI, goal_cases)
    case (1 ai si dv acl t w gib ss sn)
    then have path: "volumeOfPath (sn_Path sn) = ''/vol/'' @ ai_Name ai"
      by (auto simp: ledgerView_def)
    from 1(3) obtain a where a: "map_of (dm_ais w) (ai_Name ai) = Some a" "gib = sizeOf a"
      "ss = map snapKey (snapsOf w (''/vol/'' @ ai_Name ai))"
      by (auto simp: sv_store_ledger)
    show ?case
      by (rule exI)+ (auto simp: path sv_store_ledger a keys fun_eq_iff snapsOf_def)
  qed
qed

lemma ledger_grow: "grow_law ledgerEnv ledgerView"
proof -
  have grow: "x_vol_set ledgerEnv = (\<lambda>dv n w.
      let name = drop 5 (dv_Path dv)
      in (case map_of (dm_ais w) name of
            Some ai \<Rightarrow> if sizeOf ai \<le> n then ((Some dv, None, None), w\<lparr>dm_ais := (name, demoAi name n) # dm_ais w\<rparr>)
              else ((None, Some notFound, None), w)
          | None \<Rightarrow> ((None, Some notFound, None), w)))"
    by (simp add: ledgerEnv_def)
  show ?thesis
    unfolding grow_law_def grow
  proof (intro allI impI, goal_cases)
    case (1 ai si dv acl t w gib ss n)
    from ledger_own [OF 1(1,2)] have name: "drop 5 (dv_Path dv) = ai_Name ai" by simp
    from 1(3) obtain a where a: "map_of (dm_ais w) (ai_Name ai) = Some a" "gib = sizeOf a"
      "ss = map snapKey (snapsOf w (''/vol/'' @ ai_Name ai))"
      by (auto simp: sv_store_ledger)
    have "sv_store ledgerView (w\<lparr>dm_ais := (ai_Name ai, demoAi (ai_Name ai) n) # dm_ais w\<rparr>) =
        (sv_store ledgerView w)(ai_Name ai \<mapsto> (n, ss))"
      by (rule ext) (simp add: sv_store_ledger a(3) snapsOf_def)
    then show ?case by (simp add: name a(1,2) Let_def)
  qed
qed

lemma ledger_clone: "clone_law ledgerEnv ledgerView"
proof -
  have create: "x_ai_create ledgerEnv = (\<lambda>a w.
      let ai = demoAi (ac_Name a) (createdSize w a)
      in ((Some ai, None, None), w\<lparr>dm_ais := (ac_Name a, ai) # dm_ais w,
            dm_snaps := (''/vol/'' @ ac_Name a, []) # dm_snaps w\<rparr>))"
    by (simp add: ledgerEnv_def)
  show ?thesis
    unfolding clone_law_def
  proof (intro allI impI, goal_cases)
    case (1 ai si dv acl t w gib ss sns w' sn)
    then obtain x where "sn = liveSnap (''/vol/'' @ ai_Name ai) x"
      by (auto simp: ledger_calls liveSnaps_def ledger_own)
    then have path: "volumeOfPath (sn_Path sn) = ''/vol/'' @ ai_Name ai" "sn_Path sn \<noteq> []"
      by (simp_all only: volumeOfPath) (simp add: liveSnap_def)
    show ?case
      unfolding clonable_def create
    proof (intro conjI allI impI path(2), goal_cases)
      case (1 a v)
      from 1(1) \<open>sv_store ledgerView w (ai_Name ai) = Some (gib, ss)\<close>
      have "sv_store ledgerView v (ai_Name ai) = Some (gib, ss)" by simp
      then have "createdSize v a = gib"
        by (auto simp: createdSize_def 1(2-6) path(1) sv_store_ledger)
      with 1(1) show ?case
        by (auto simp: Let_def sv_store_ledger snapsOf_def fun_eq_iff)
    qed
  qed
qed

lemma ledger_keeps: "ledger_laws ledgerDriver ledgerView"
  unfolding ledger_laws_def demoDriver_simps
  using ledger_reads ledger_writes ledger_stamps ledger_reloads ledger_snap_create ledger_snap_reload ledger_snap_delete
    ledger_grow ledger_clone by blast

section \<open>Runs\<close>

definition demoSnapReq :: "string \<Rightarrow> string \<Rightarrow> create_snapshot_req" where
  "demoSnapReq vid name = \<lparr>csq_SourceVolumeId = vid, csq_Name = name, csq_Parameters = Map.empty\<rparr>"

definition demoGrow :: "string \<Rightarrow> int \<Rightarrow> expand_req" where
  "demoGrow vid bytes = \<lparr>exq_VolumeId = vid, exq_VolumePath = [],
     exq_CapacityRange = Some \<lparr>cr_RequiredBytes = bytes, cr_LimitBytes = 0\<rparr>\<rparr>"

definition ledgerCmds :: "ledger_cmd list" where
  "ledgerCmds = [StoreCmd (demoCreate ''pvc'' 5368709120 5368709120), SnapCmd (demoSnapReq ''CSI-pvc'' ''nightly''),
     StoreCmd (demoDelete ''CSI-pvc''), GrowCmd (demoGrow ''CSI-pvc'' 10737418240), GrowCmd (demoGrow ''CSI-pvc'' 1)]"

lemma ledgerCmds_run:
  assumes "ledger_run uid ledgerCmds S rs S'" and "S ''CSI-pvc'' = None"
  shows "\<exists>r. rs = [Answer (Made 5368709120 ''CSI-pvc''), r, Answer HeldBySnapshots, Grown 10737418240, Refused]"
proof -
  have "int64 10" "int64 0" by (simp_all add: int64_def)
  then have asked: "askedGib (demoGrow v 10737418240) = 10" "askedGib (demoGrow v 1) = 0" for v
    by (simp_all add: askedGib_def demoGrow_def quot64_def GiB_def)
  have bytes: "askedBytes (demoGrow v b) = b" for v b by (simp add: askedBytes_def demoGrow_def)
  have held: "specStep (demoDelete ''CSI-pvc'') (vols(''CSI-pvc'' \<mapsto> (g, [k]))) = (HeldBySnapshots, vols(''CSI-pvc'' \<mapsto> (g, [k])))" for vols g k
    by (simp add: demoDelete_def specDelete_def)
  have fields: "csq_SourceVolumeId (demoSnapReq v n) = v" "exq_VolumeId (demoGrow v b) = v" for v n b
    by (simp_all add: demoSnapReq_def demoGrow_def)
  show ?thesis
    using assms(1)
    unfolding ledgerCmds_def ledger_run_simps ledger_step_simps specStep_first [where S = S, OF assms(2)] fields asked bytes
    by (auto simp: held demoSnapReq_def simp del: specStep.simps)
qed

lemma ledgerCmds_plain: "list_all plainCall ledgerCmds"
  using demoCmds_plain by (simp add: ledgerCmds_def demoCmds_def demoGrow_def)


text \<open>A volume with a snapshot of the name asked for; the deletion of the volume leaves it.\<close>

definition nightlyWorld :: demo where
  "nightlyWorld = demoWorld\<lparr>dm_snaps :=
     [(''/vol/CSI-b'', [demoSnap ''/vol/CSI-b'' (snapIdFromName ledgerEnv ''nightly'') ''17''])]\<rparr>"


text \<open>A volume of 32 GiB from a snapshot of a volume of 20 GiB.\<close>

definition demoClone :: create_volume_req where
  "demoClone =
     \<lparr>cvq_Name = ''copy'', cvq_CapacityRange = Some \<lparr>cr_RequiredBytes = 34359738368, cr_LimitBytes = 34359738368\<rparr>,
      cvq_VolumeCapabilities = Some [Some \<lparr>vcp_AccessMode = Some ''SINGLE_NODE_WRITER'', vcp_AccessType = BlockAccess\<rparr>],
      cvq_Parameters = Map.empty, cvq_Secrets = Map.empty,
      cvq_VolumeContentSource = Some (SnapshotSource (Some ''CSI-b:1550370547.15'')), cvq_AccessibilityRequirements = None\<rparr>"

theorem clone_not_repeatable_witness:
  "\<exists>s'. mapG (codeCall ledgerDriver) [CloneCmd demoClone, CloneCmd demoClone] (demoSt demoWorld) =
      (Ret [Answer (Made 34359738368 ''CSI-copy''), Answer Conflict], s') \<and>
    sv_store ledgerView (ext s') ''CSI-copy'' = Some (20, [])"
proof -
  let ?s = "demoSt demoWorld" and ?S = "sv_store ledgerView demoWorld" and ?cr = "map_option fillLimit (cvq_CapacityRange demoClone)"
  have name: "storeName (cvq_Name demoClone) = ''CSI-copy''" by (simp add: storeName_def demoClone_def)
  have "int64 32" "int64 34359738368" by (simp_all add: int64_def)
  then have size: "mul64 (sizeFor ?cr) GiB = 34359738368"
    by (simp add: demoClone_def fillLimit_def sizeFor_def quot64_def mul64_def GiB_def)
  have "plain (demoCreate ''copy'' 34359738368 34359738368)" by (rule demoCreate_plain) (simp_all add: ascii_def)
  then have plain: "plainClone demoClone"
    by (simp add: plainClone_def demoClone_def demoCreate_def snapshotOf_def)
  have S: "?S ''CSI-b'' = Some (20, [(''u-7'', ''1550370547.15'')])" "?S ''CSI-copy'' = None"
    by (simp_all add: sv_store_ledger demoWorld_def snapsOf_def)
  have "splitOn CHR '':'' ''CSI-b:1550370547.15'' = [''CSI-b'', ''1550370547.15'']" by code_simp
  then have source: "cloneSize (cloneOf demoClone) ?S = Some 20"
    by (simp add: cloneSize_def cloneOf_def demoClone_def snapshotOf_def S stampIs_def)
  have "mul64 20 GiB = 21474836480" by (simp add: mul64_def GiB_def int64_def)
  then have "\<not> fits ?cr 20" by (simp add: fits_def demoClone_def fillLimit_def)
  from clone_not_repeatable [OF ledger_keeps plain, of ?s, unfolded name demoSt_simps size, OF refl S(2) source this]
  show ?thesis .
qed

text \<open>A snapshot of \<open>CSI-a\<close>, taken while the volume is being deleted.\<close>

definition demoDeleteReq :: delete_volume_req where
  "demoDeleteReq = \<lparr>dvq_VolumeId = ''CSI-a'', dvq_Secrets = Map.empty\<rparr>"

theorem snapshot_lost_in_race_witness:
  "\<exists>ts s1 s2. takenMeanwhile ledgerDriver (demoSnapReq ''CSI-a'' ''nightly'') demoDeleteReq (demoSt demoWorld) demoWorld =
      (Ret (Snapped (MkSnapId ''CSI-a'' ts)), s1) \<and>
    holds ''CSI-a'' (snapIdFromName ledgerEnv ''nightly'', ts) (sv_store ledgerView (ext s1)) \<and>
    codeStep (interrupted (\<lambda>w. ext (snd (takenMeanwhile ledgerDriver (demoSnapReq ''CSI-a'' ''nightly'') demoDeleteReq
      (demoSt demoWorld) w))) ledgerDriver) (DeleteCmd demoDeleteReq) (demoSt demoWorld) = (Ret Deleted, s2) \<and>
    sv_store ledgerView (ext s2) ''CSI-a'' = None"
proof -
  let ?q = "demoSnapReq ''CSI-a'' ''nightly''"
  have fields: "csq_SourceVolumeId ?q = ''CSI-a''" "csq_Name ?q = ''nightly''" "dvq_VolumeId demoDeleteReq = ''CSI-a''"
    by (simp_all add: demoSnapReq_def demoDeleteReq_def)
  have prompt: "prompt ledgerEnv" by (auto simp: prompt_def ledger_calls found_def)
  have "sv_store ledgerView demoWorld ''CSI-a'' = Some (16, [])"
    by (simp add: sv_store_ledger demoWorld_def snapsOf_def)
  from snapshot_lost_in_race [OF ledger_keeps, of "demoSt demoWorld" ?q demoDeleteReq, unfolded fields demoDriver_simps demoSt_simps,
      OF prompt refl _ _ refl this]
  show ?thesis by simp
qed

end
