(* ===== verification/Driver_Handlers.thy ===== *)
theory Driver_Handlers
  imports Driver_Controller Driver_Node Driver_Identity Driver_Server Call_Table
begin

text \<open>
  All the RPCs of the three services together, each behind the interceptor: what holds for every
  one of them, whatever the request, the backend and the host do. \<open>handle\<close> calls the handler of a
  request and forgets its response.
\<close>

section \<open>Requests of any kind\<close>

datatype rpc =
    RpcCreateVolume create_volume_req | RpcDeleteVolume delete_volume_req
  | RpcControllerPublish csi_req | RpcControllerUnpublish csi_req
  | RpcValidate validate_req | RpcListVolumes list_volumes_req | RpcGetCapacity smap
  | RpcControllerCapabilities csi_req | RpcControllerExpand expand_req
  | RpcCreateSnapshot create_snapshot_req | RpcDeleteSnapshot string
  | RpcListSnapshots list_snapshots_req
  | RpcNodeStage stage_req | RpcNodeUnstage stage_req
  | RpcNodePublish publish_req | RpcNodeUnpublish publish_req
  | RpcNodeCapabilities csi_req | RpcNodeInfo csi_req | RpcNodeStats string | RpcNodeExpand expand_req
  | RpcPluginInfo csi_req | RpcPluginCapabilities csi_req | RpcProbe csi_req

definition void :: "('w, goerr + 'a) io \<Rightarrow> ('w, goerr + unit) io" where
  "void m = bindG m (\<lambda>r. ret (case r of Inl e \<Rightarrow> Inl e | Inr _ \<Rightarrow> Inr ()))"

fun handle :: "'w driver \<Rightarrow> rpc_ctx \<Rightarrow> rpc \<Rightarrow> ('w, goerr + unit) io" where
  "handle D ctx (RpcCreateVolume r) = void (CreateVolumeRpc D ctx r)"
| "handle D ctx (RpcDeleteVolume r) = void (DeleteVolumeRpc D ctx r)"
| "handle D ctx (RpcControllerPublish r) = void (ControllerPublishVolume D ctx r)"
| "handle D ctx (RpcControllerUnpublish r) = void (ControllerUnpublishVolume D ctx r)"
| "handle D ctx (RpcValidate r) = void (ValidateVolumeCapabilities D ctx r)"
| "handle D ctx (RpcListVolumes r) = void (ListVolumesRpc D ctx r)"
| "handle D ctx (RpcGetCapacity r) = void (GetCapacityRpc D ctx r)"
| "handle D ctx (RpcControllerCapabilities r) = void (ControllerGetCapabilities D ctx r)"
| "handle D ctx (RpcControllerExpand r) = void (ControllerExpandVolume D ctx r)"
| "handle D ctx (RpcCreateSnapshot r) = void (CreateSnapshotRpc D ctx r)"
| "handle D ctx (RpcDeleteSnapshot r) = void (DeleteSnapshotRpc D ctx r)"
| "handle D ctx (RpcListSnapshots r) = void (ListSnapshotsRpc D ctx r)"
| "handle D ctx (RpcNodeStage r) = void (NodeStageVolume D ctx r)"
| "handle D ctx (RpcNodeUnstage r) = void (NodeUnstageVolume D ctx r)"
| "handle D ctx (RpcNodePublish r) = void (NodePublishVolume D ctx r)"
| "handle D ctx (RpcNodeUnpublish r) = void (NodeUnpublishVolume D ctx r)"
| "handle D ctx (RpcNodeCapabilities r) = void (NodeGetCapabilities D ctx r)"
| "handle D ctx (RpcNodeInfo r) = void (NodeGetInfo D ctx r)"
| "handle D ctx (RpcNodeStats r) = void (NodeGetVolumeStats D ctx r)"
| "handle D ctx (RpcNodeExpand r) = void (NodeExpandVolume D ctx r)"
| "handle D ctx (RpcPluginInfo r) = void (GetPluginInfo D ctx r)"
| "handle D ctx (RpcPluginCapabilities r) = void (GetPluginCapabilities D ctx r)"
| "handle D ctx (RpcProbe r) = void (Probe D ctx r)"

lemma void_frame: "frame (keeps f) m \<Longrightarrow> frame (keeps f) (void m)"
  "frame (logs Q) m \<Longrightarrow> frame (logs Q) (void m)"
  by (auto simp: void_def intro!: frame_intros)

section \<open>The table of calls\<close>

lemma getManifestData_table: "frame (keeps rpcStatus) (getManifestData D)"
proof -
  have upd: "frame (keeps rpcStatus) (updG (\<lambda>s. s\<lparr>d_manifest := Some mf\<rparr>))" for mf
    by (simp add: frame_def keeps_def go_eval)
  show ?thesis
    unfolding getManifestData_def
    by (intro frame_intros upd keeps_parts(1) [OF GetManifest_fields])
qed

lemma GetPluginInfo_table: "frame (keeps rpcStatus) (GetPluginInfo D ctx req)"
  unfolding GetPluginInfo_def by (intro frame_intros getManifestData_table)

lemma handle_table: "frame (keeps rpcStatus) (handle D ctx r)"
  by (cases r) (simp_all, (intro void_frame keeps_parts(1) CreateVolumeRpc_frame controller_frame node_frame
      identity_table GetPluginInfo_table)+)

lemma interceptor_table:
  "(\<And>c. frame (keeps rpcStatus) (h c)) \<Longrightarrow> frame (keeps rpcStatus) (logServerAndSetId E ctx h)"
  unfolding logServerAndSetId_def by (intro frame_intros keeps_parts(1) [OF GenId_frame(2)] keeps_parts(1) [OF WithCtxt_frame(2)])

text \<open>C5: after any sequence of RPCs of any service, one after the other, whether they succeed, fail or
  panic, the table of calls in progress holds what it held before: no call is blocked by one that
  is over.\<close>

theorem rpcs_restore_table:
  "rpcStatus (fold (\<lambda>r s. snd (logServerAndSetId (dr_env D) c (\<lambda>ctx. handle D ctx r) s)) rs s) = rpcStatus s"
proof (induction rs arbitrary: s)
  case (Cons r rs)
  have "frame (keeps rpcStatus) (logServerAndSetId (dr_env D) c (\<lambda>ctx. handle D ctx r))"
    by (intro interceptor_table handle_table)
  with Cons show ?case by (simp add: frame_def keeps_def)
qed simp

section \<open>What an RPC may do to the backend\<close>

fun readOnly :: "rpc \<Rightarrow> bool" where
  "readOnly (RpcControllerPublish _) = True"
| "readOnly (RpcControllerUnpublish _) = True"
| "readOnly (RpcValidate _) = True"
| "readOnly (RpcListVolumes _) = True"
| "readOnly (RpcGetCapacity _) = True"
| "readOnly (RpcControllerCapabilities _) = True"
| "readOnly (RpcListSnapshots _) = True"
| "readOnly (RpcNodeCapabilities _) = True"
| "readOnly (RpcNodeInfo _) = True"
| "readOnly (RpcNodeStats _) = True"
| "readOnly (RpcPluginInfo _) = True"
| "readOnly (RpcPluginCapabilities _) = True"
| "readOnly (RpcProbe _) = True"
| "readOnly _ = False"

text \<open>Calls that look, at the backend, for a new id, or at nothing.\<close>

definition looks :: "event \<Rightarrow> bool" where
  "looks e \<longleftrightarrow> reads e \<or> e = NewUuid"

lemma looks_reads: "reads e \<Longrightarrow> looks e" and looks_uuid: "looks NewUuid"
  by (simp_all add: looks_def)

lemma interceptor_logs:
  "Q NewUuid \<Longrightarrow> (\<And>c. frame (logs Q) (h c)) \<Longrightarrow> frame (logs Q) (logServerAndSetId E ctx h)"
  unfolding logServerAndSetId_def by (intro frame_intros)

lemma getManifestData_looks: "frame (logs looks) (getManifestData D)"
proof -
  have upd: "frame (logs looks) (updG (\<lambda>s. s\<lparr>d_manifest := Some mf\<rparr>))" for mf
    by (simp add: frame_def logs_def go_eval)
  show ?thesis
    unfolding getManifestData_def
    by (intro frame_intros upd; simp add: looks_def)
qed

lemma reading_frames:
  "frame (logs looks) (ControllerPublishVolume D ctx req)"
  "frame (logs looks) (ControllerUnpublishVolume D ctx req)"
  "frame (logs looks) (ValidateVolumeCapabilities D ctx vreq)"
  "frame (logs looks) (ListVolumesRpc D ctx lreq)"
  "frame (logs looks) (GetCapacityRpc D ctx params)"
  "frame (logs looks) (ControllerGetCapabilities D ctx req)"
  "frame (logs looks) (ListSnapshotsRpc D ctx lsreq)"
  "frame (logs looks) (NodeGetCapabilities D ctx req)"
  "frame (logs looks) (NodeGetInfo D ctx req)"
  "frame (logs looks) (NodeGetVolumeStats D ctx vid)"
  "frame (logs looks) (GetPluginInfo D ctx req)"
  "frame (logs looks) (GetPluginCapabilities D ctx req)"
  "frame (logs looks) (Probe D ctx req)"
  unfolding ControllerPublishVolume_def ControllerUnpublishVolume_def
    ValidateVolumeCapabilities_def ListVolumesRpc_def GetCapacityRpc_def
    ControllerGetCapabilities_def ListSnapshotsRpc_def NodeGetCapabilities_def NodeGetInfo_def
    NodeGetVolumeStats_def GetPluginInfo_def GetPluginCapabilities_def Probe_def snapshotEntry_def
    creationTime_def Let_def
  by (intro frame_intros getManifestData_looks; simp add: looks_def)+

text \<open>Thirteen of the RPCs only look: behind the interceptor they make calls that read from the
  backend, and draw the request's id; the host is not touched at all.\<close>

theorem reading_rpcs_read:
  assumes "readOnly r"
  shows "frame (logs (\<lambda>e. reads e \<or> e = NewUuid)) (logServerAndSetId (dr_env D) c (\<lambda>ctx. handle D ctx r))"
proof -
  have "frame (logs looks) (handle D ctx r)" for ctx
    using assms by (cases r) (simp_all, (intro void_frame reading_frames)+)
  then have "frame (logs looks) (logServerAndSetId (dr_env D) c (\<lambda>ctx. handle D ctx r))"
    by (intro interceptor_logs looks_uuid)
  moreover have "looks = (\<lambda>e. reads e \<or> e = NewUuid)"
    by (simp add: fun_eq_iff looks_def)
  ultimately show ?thesis by simp
qed

text \<open>The three that may delete, and all the others.\<close>

fun mayDestroy :: "rpc \<Rightarrow> bool" where
  "mayDestroy (RpcDeleteVolume _) = True"
| "mayDestroy (RpcDeleteSnapshot _) = True"
| "mayDestroy (RpcNodeUnstage _) = True"
| "mayDestroy _ = False"

abbreviation spares :: "event \<Rightarrow> bool" where
  "spares \<equiv> \<lambda>e. \<not> destroys e"

lemma looks_spares: "looks e \<Longrightarrow> spares e"
  by (auto simp: looks_def dest: reads_not_destroys)

lemma RunCmd_spares [frame_intros]: "frame (logs spares) (RunCmd E cmd)"
  unfolding RunCmd_def Let_def by (intro frame_intros) simp

lemma loops_spare [frame_intros]:
  "frame (logs spares) (formatLoop E cmd n)"
  "frame (logs spares) (sizeLoop E device n sz)"
proof -
  show "frame (logs spares) (formatLoop E cmd n)"
    by (induction n; subst formatLoop.simps; simp only: nat.case; intro frame_intros; simp)
  show "frame (logs spares) (sizeLoop E device n sz)"
    by (induction n arbitrary: sz; subst sizeLoop.simps; simp only: nat.case; intro frame_intros; simp)
qed

lemma host_spares [frame_intros]:
  "frame (logs spares) (Format E v fsType fsArgs timeout)"
  "frame (logs spares) (Mount E v dest options fs)"
  "frame (logs spares) (BindMount E v dest fs)"
  "frame (logs spares) (UnBindMount E v path)"
  "frame (logs spares) (ExpandFs E path fs gib)"
  "frame (logs spares) (RegisterAcl E v cinit)"
  "frame (logs spares) (Login E v multipath round_robin chap)"
  unfolding findFs_def findMnt_def deviceFromMount_def readlink_def Format_def format_device_def
    mount_dev_def Mount_def BindMount_def UnBindMount_def unmount_def ExpandFs_def
    checkDeviceSize_def expandFs_def RegisterAcl_def updateAcl_def Login_def loginIps_def robin_def Let_def
  by (intro frame_intros; simp)+

lemma staging_spares:
  "frame (logs spares) (stageMount D vol md vc path)"
  unfolding stageMount_def stageFormat_def Let_def
  by (auto intro!: frame_intros split: access_type.splits prod.splits)

lemma GetVolume_spares: "frame (logs spares) (GetVolume E n qos md)"
  by (rule GetVolume_reads) (rule reads_not_destroys)

lemma sparing_frames:
  "frame (logs spares) (NodeStageVolume D ctx req)"
  "frame (logs spares) (NodePublishVolume D ctx preq)"
  "frame (logs spares) (NodeUnpublishVolume D ctx preq)"
  "frame (logs spares) (NodeExpandVolume D ctx ereq)"
  "frame (logs spares) (CreateSnapshotRpc D ctx csreq)"
  "frame (logs spares) (ControllerExpandVolume D ctx ereq)"
  unfolding NodeStageVolume_def StripAndServe_def NodePublishVolume_def NodeUnpublishVolume_def
    NodeExpandVolume_def CreateSnapshotRpc_def ControllerExpandVolume_def creationTime_def Let_def split_beta
  by (intro frame_intros GetVolume_spares staging_spares host_not_destroys; simp)+

text \<open>C4: only \<open>DeleteVolume\<close>, \<open>DeleteSnapshot\<close> and \<open>NodeUnstageVolume\<close> can take a volume offline or
  delete a volume or a snapshot; no other RPC does, whatever its request and whatever the backend
  and the host answer.\<close>

theorem only_deletions_destroy:
  assumes "\<not> mayDestroy r"
  shows "frame (logs (\<lambda>e. \<not> destroys e)) (logServerAndSetId (dr_env D) c (\<lambda>ctx. handle D ctx r))"
proof -
  have looking: "frame (logs spares) m" if "frame (logs looks) m" for m :: "('a, 'b) io"
    using that looks_spares by (rule frame_logs_mono)
  have "frame (logs spares) (handle D ctx r)" for ctx
    using assms
    by (cases r) (simp_all, (intro void_frame sparing_frames reading_frames [THEN looking]
        frame_logs_mono [OF CreateVolumeRpc_frame(1) creates_not_destroys]; assumption?)+)
  then show ?thesis
    by (intro interceptor_logs) simp_all
qed

theorem reading_rpcs_read_witness:
  "\<forall>(D :: nat driver) c req. frame (logs (\<lambda>e. reads e \<or> e = NewUuid))
     (logServerAndSetId (dr_env D) c (\<lambda>ctx. handle D ctx (RpcListSnapshots req)))"
  by (intro allI reading_rpcs_read) simp

theorem only_deletions_destroy_witness:
  "\<forall>(D :: nat driver) c req. frame (logs (\<lambda>e. \<not> destroys e))
     (logServerAndSetId (dr_env D) c (\<lambda>ctx. handle D ctx (RpcNodeStage req)))"
  by (intro allI only_deletions_destroy) simp

end
