(* ===== verification/Client_Consistency.thy ===== *)
theory Client_Consistency
  imports Client_Access Client_Mount Client_Snapshots
begin

text \<open>
  The client's view of a volume against the application instance it was made from. \<open>consistent\<close> is
  the well-formedness of a volume value: the instance has the parts that later calls read without
  a check, and the fields that repeat them agree. \<open>gives\<close> is partial: what a run returns, if it
  returns a value.
\<close>

section \<open>Well-formed volumes\<close>

definition consistent :: "volume \<Rightarrow> bool" where
  "consistent v = (case parts (v_Ai v) of
      None \<Rightarrow> False
    | Some (si, dv, acl, t) \<Rightarrow>
        v_Name v = ai_Name (v_Ai v) \<and> v_Size v = dv_Size dv \<and> v_Replicas v = dv_ReplicaCount dv \<and>
        v_Iqn v = si_Iqn si \<and> v_Ips v = si_Ips si \<and> v_Template v = t \<and>
        v_Initiators v = map in_Name (acl_Initiators acl) \<and>
        v_Limits v = (case v_QoS v of None \<Rightarrow> noLimits | Some p \<Rightarrow> p))"

definition gives :: "('s, 'e + 'a) go \<Rightarrow> ('a \<Rightarrow> bool) \<Rightarrow> bool" where
  "gives m P \<longleftrightarrow> (\<forall>s x s'. m s = (Ret (Inr x), s') \<longrightarrow> P x)"

named_theorems gives_intros \<open>rules for \<open>gives\<close> along the program's structure\<close>

lemma gives_ret [gives_intros]: "(\<And>x. r = Inr x \<Longrightarrow> P x) \<Longrightarrow> gives (ret r) P"
  by (simp add: gives_def go_eval)

lemma gives_error [gives_intros]: "gives (ret (Inl e)) P" "gives (panic p) P"
  by (simp_all add: gives_def go_eval)

lemma gives_bind: "(\<And>x. gives (k x) P) \<Longrightarrow> gives (bindG m k) P"
  by (auto simp: gives_def go_eval split: prod.splits outcome.splits)

lemma gives_nil [gives_intros]: "gives (bindG (derefG None) k) P"
  by (simp add: gives_def go_eval)

lemma bindG_value:
  assumes "bindG m k s = (Ret y, s')"
  obtains x s1 where "m s = (Ret x, s1)" and "k x s1 = (Ret y, s')"
  using assms by (auto simp: go_eval split: prod.splits outcome.splits)

lemma gives_bind_post:
  assumes "\<And>s x s'. m s = (Ret x, s') \<Longrightarrow> A x" and "\<And>x. A x \<Longrightarrow> gives (k x) P"
  shows "gives (bindG m k) P"
  unfolding gives_def
proof (intro allI impI)
  fix s y s'
  assume "bindG m k s = (Ret (Inr y), s')"
  then obtain x s1 where "m s = (Ret x, s1)" and "k x s1 = (Ret (Inr y), s')"
    by (rule bindG_value)
  with assms show "P y" unfolding gives_def by blast
qed

lemma gives_try_post:
  assumes "gives m A" and "\<And>x. A x \<Longrightarrow> gives (k x) P"
  shows "gives (tryG m k) P"
  unfolding tryG_def
proof (rule gives_bind_post [where A = "\<lambda>r. \<forall>x. r = Inr x \<longrightarrow> A x"])
  show "\<forall>x. r = Inr x \<longrightarrow> A x" if "m s = (Ret r, s')" for s r s'
    using assms(1) that unfolding gives_def by blast
  show "gives (case r of Inl e \<Rightarrow> ret (Inl e) | Inr x \<Rightarrow> k x) P" if "\<forall>x. r = Inr x \<longrightarrow> A x" for r
    using that assms(2) by (cases r) (simp_all add: gives_error)
qed

lemma gives_try: "(\<And>x. gives (k x) P) \<Longrightarrow> gives (tryG m k) P"
  by (rule gives_try_post [where A = "\<lambda>_. True"]) (simp_all add: gives_def)

lemma gives_branches [gives_intros]:
  "gives a P \<Longrightarrow> gives b P \<Longrightarrow> gives (if c then a else b) P"
  "gives a P \<Longrightarrow> (\<And>x. gives (f x) P) \<Longrightarrow> gives (case p of None \<Rightarrow> a | Some x \<Rightarrow> f x) P"
  "(\<And>e. gives (g e) P) \<Longrightarrow> (\<And>y. gives (h y) P) \<Longrightarrow> gives (case r of Inl e \<Rightarrow> g e | Inr y \<Rightarrow> h y) P"
  "(\<And>x y. gives (k x y) P) \<Longrightarrow> gives (case q of (x, y) \<Rightarrow> k x y) P"
  by (simp_all split: option.splits sum.splits prod.splits)

section \<open>From application instances\<close>

lemma firstVolume_parts:
  assumes "firstVolume ai s = (Ret (si, dv), s')"
  shows "\<exists>sis dvs. ai_StorageInstances ai = si # sis \<and> si_Volumes si = dv # dvs"
  using assms
  by (cases "ai_StorageInstances ai"; cases "si_Volumes (hd (ai_StorageInstances ai))")
    (auto simp: firstVolume_def go_eval split: if_splits)

lemma readLimits_off: "readLimits E False c dv = ret (Inr None)"
  by (simp add: readLimits_def)

lemma aiToClientVol_consistent: "gives (aiToClientVol E ai qos metadata client) consistent"
proof (cases ai)
  case None
  then show ?thesis by (simp add: aiToClientVol_def gives_intros)
next
  case (Some a)
  have rest: "gives (bindG (derefG (si_AclPolicy si)) (\<lambda>acl.
        tryG (readLimits E qos client v) (\<lambda>pp.
        bindG (derefG (ai_AppTemplate a)) (\<lambda>template.
        let vol =
          \<lparr>v_dc = client, v_Ai = a, v_Name = ai_Name a, v_AdminState = ai_AdminState a,
           v_RepairPriority = ai_RepairPriority a, v_Template = template,
           v_TargetOpState = si_OpState si, v_Ips = si_Ips si, v_Iqn = si_Iqn si,
           v_Initiators = map in_Name (acl_Initiators acl),
           v_Replicas = dv_ReplicaCount v, v_PlacementMode = dv_PlacementMode v,
           v_PlacementPolicy = [],
           v_Size = dv_Size v, v_QoS = pp,
           v_Limits = (case pp of None \<Rightarrow> noLimits | Some p \<Rightarrow> p),
           v_DevicePath = [], v_MountPath = [], v_BindMountPaths = None,
           v_FsType = [], v_FsArgs = [], v_Formatted = False\<rparr>
        in if metadata then
             tryG (GetMetadata E a) (\<lambda>md. ret (Inr (withMetadata E md vol)))
           else ret (Inr vol))))) consistent"
    if "\<exists>sis dvs. ai_StorageInstances a = si # sis \<and> si_Volumes si = v # dvs" for si v
  proof (cases "si_AclPolicy si")
    case (Some acl)
    show ?thesis
    proof (cases "ai_AppTemplate a")
      case (Some t)
      with that \<open>si_AclPolicy si = Some acl\<close> have "parts a = Some (si, v, acl, t)"
        by (auto simp: parts_def)
      with Some \<open>si_AclPolicy si = Some acl\<close> show ?thesis
        by (auto simp: consistent_def withMetadata_def Let_def intro!: gives_try gives_intros)
    qed (simp, intro gives_bind gives_try gives_nil)
  qed (simp add: gives_nil)
  show ?thesis
    unfolding aiToClientVol_def Some option.case
    by (rule gives_bind_post [where A = "\<lambda>(si, v). \<exists>sis dvs. ai_StorageInstances a = si # sis \<and> si_Volumes si = v # dvs"])
      (auto dest: firstVolume_parts simp del: aiToClientVol_def intro: rest)
qed

section \<open>The operations\<close>

lemma GetVolume_consistent: "gives (GetVolume E n qos md) consistent"
  unfolding GetVolume_def by (intro gives_branches gives_error gives_try aiToClientVol_consistent)

lemma convert_then_deref:
  assumes "\<And>v. consistent v \<Longrightarrow> gives (k v) P"
  shows "gives (bindG (aiToClientVol E ai qos md c) (\<lambda>res.
    bindG (derefG (case res of Inl _ \<Rightarrow> None | Inr v \<Rightarrow> Some v)) k)) P"
proof (rule gives_bind_post [where A = "\<lambda>r. \<forall>v. r = Inr v \<longrightarrow> consistent v"])
  show "\<forall>v. r = Inr v \<longrightarrow> consistent v" if "aiToClientVol E ai qos md c s = (Ret r, s')" for s r s'
    using aiToClientVol_consistent [of E ai qos md c] that by (auto simp: gives_def)
  show "gives (bindG (derefG (case r of Inl _ \<Rightarrow> None | Inr v \<Rightarrow> Some v)) k) P"
    if "\<forall>v. r = Inr v \<longrightarrow> consistent v" for r
    using that assms by (cases r) (simp_all add: gives_nil)
qed

lemma Reload_consistent: "gives (Reload E v qos md) consistent"
  unfolding Reload_def by (intro gives_try convert_then_deref gives_ret) simp

lemma limits_consistent:
  "consistent v \<Longrightarrow> consistent (v\<lparr>v_Formatted := f\<rparr>)"
  "consistent v \<Longrightarrow> consistent (v\<lparr>v_QoS := Some pp, v_Limits := pp\<rparr>)"
  by (auto simp: consistent_def split: option.splits)

lemma SetPerformancePolicy_consistent:
  "consistent v \<Longrightarrow> gives (SetPerformancePolicy E v opts) consistent"
  unfolding SetPerformancePolicy_def
  by (auto intro!: gives_bind gives_try gives_ret limits_consistent)

lemma CreateVolume_consistent: "gives (CreateVolume E n opts qos chap) consistent"
  unfolding CreateVolume_def Let_def
  by (intro gives_try convert_then_deref gives_branches gives_ret SetPerformancePolicy_consistent limits_consistent)
    (auto intro: limits_consistent)

lemma convertAll_consistent: "convertAll E ais s = (Ret vs, s') \<Longrightarrow> list_all consistent vs"
proof (induction ais arbitrary: vs s s')
  case (Cons ai ais)
  then obtain r s1 ws where "aiToClientVol E (Some ai) False False True s = (Ret r, s1)"
    and "convertAll E ais s1 = (Ret ws, s')" and "vs = (case r of Inl _ \<Rightarrow> ws | Inr v \<Rightarrow> v # ws)"
    by (auto simp: go_eval split: prod.splits outcome.splits)
  moreover have "consistent x" if "r = Inr x" for x
    using aiToClientVol_consistent [of E "Some ai" False False True] calculation(1) that
    unfolding gives_def by blast
  ultimately show ?case using Cons.IH by (auto split: sum.splits)
qed (simp add: go_eval)

lemma ListVolumes_consistent: "gives (ListVolumes E n st) (list_all consistent)"
  unfolding ListVolumes_def
  by (intro gives_try gives_bind_post [where A = "list_all consistent"] gives_ret)
    (auto dest: convertAll_consistent)

lemma host_fields:
  "consistent v \<Longrightarrow> consistent (v\<lparr>v_DevicePath := a\<rparr>)"
  "consistent v \<Longrightarrow> consistent (v\<lparr>v_MountPath := a\<rparr>)"
  "consistent v \<Longrightarrow> consistent (v\<lparr>v_BindMountPaths := b\<rparr>)"
  "consistent v \<Longrightarrow> consistent (v\<lparr>v_Formatted := c, v_FsType := a\<rparr>)"
  "consistent v \<Longrightarrow> consistent (v\<lparr>v_FsType := a, v_FsArgs := d\<rparr>)"
  by (auto simp: consistent_def split: option.splits)

lemma host_consistent:
  assumes "consistent v"
  shows "gives (Login E v mp rr chap) consistent" and "gives (Logout E v) consistent"
    and "gives (Format E v fs args timeout) consistent" and "gives (Mount E v dest opts fs) consistent"
    and "gives (BindMount E v dest fs) consistent" and "gives (UnBindMount E v dest) consistent"
    and "gives (Unmount E v) consistent"
  unfolding Login_def Logout_def Format_def Mount_def BindMount_def UnBindMount_def Unmount_def Let_def
  by (auto simp: assms host_fields limits_consistent
      intro!: gives_branches gives_error gives_try gives_bind gives_ret split: option.splits)

text \<open>C9: every volume that a look-up, a creation, a listing, a reload, a resize or a setting online
  returns is consistent - the instance holds a first volume, an access list and a template, and the
  volume's name, size, replicas, addresses, template, initiators and limits are theirs - and no
  operation on the host makes a consistent volume inconsistent.\<close>

theorem client_volumes_consistent:
  "gives (GetVolume E n qos md) consistent \<and> gives (CreateVolume E n opts qos chap) consistent \<and>
   gives (ListVolumes E i j) (list_all consistent) \<and> gives (Reload E v qos md) consistent \<and>
   gives (Resize E v i) consistent \<and> gives (Online E v) consistent \<and>
   (consistent v \<longrightarrow>
     gives (Login E v mp rr chap) consistent \<and> gives (Logout E v) consistent \<and>
     gives (Format E v fs args timeout) consistent \<and> gives (Mount E v dest margs fs) consistent \<and>
     gives (BindMount E v dest fs) consistent \<and> gives (UnBindMount E v dest) consistent \<and>
     gives (Unmount E v) consistent)"
  unfolding Resize_def Online_def
  by (intro conjI impI GetVolume_consistent CreateVolume_consistent ListVolumes_consistent
      Reload_consistent gives_bind gives_try gives_branches host_consistent)

end
