(* ===== verification/Client_Progress.thy ===== *)
theory Client_Progress
  imports Client_Mount Client_Snapshots
begin

text \<open>
  What the client's retry loops achieve: when the backend or the device becomes ready while the loop
  still has a try, the operation succeeds.
\<close>

section \<open>Snapshots\<close>

text \<open>A snapshot that the backend reports available at the latest at the \<open>k\<close>-th reload after this
  one.\<close>

definition soon :: "'w env \<Rightarrow> (nat \<Rightarrow> 'w \<Rightarrow> bool) \<Rightarrow> bool" where
  "soon E wait \<longleftrightarrow> (\<forall>k w sn. wait k w \<longrightarrow> (\<exists>sn' w'. x_snap_reload E sn w = ((Some sn', None, None), w') \<and>
     (sn_OpState sn' = ''available'' \<or> (\<exists>j. k = Suc j \<and> wait j w'))))"

lemma ReloadSnapshot_run:
  assumes "x_snap_reload E (ss_Snap c) (ext s) = ((Some sn, None, None), w)"
  shows "ReloadSnapshot E c s = (Ret (Inr (c\<lparr>ss_Snap := sn, ss_Status := sn_OpState sn\<rparr>)),
    s\<lparr>log := log s @ [SnapReload (sn_Path (ss_Snap c))], ext := w\<rparr>)"
  using assms by (simp add: ReloadSnapshot_def go_eval sdkCall_def sdkResult_def)

lemma pollAvailable_succeeds:
  assumes "soon E wait" and "wait k (ext s)" and "k \<le> n"
  shows "\<exists>x s'. pollAvailable E (Suc n) c s = (Ret (Inr x), s') \<and> ss_Status x = ''available'' \<and> ss_Id x = ss_Id c"
proof -
  have "\<exists>d s'. pollAvailable E (Suc n) c s = (Ret d, s') \<and>
      (\<exists>x. d = Inr x \<and> ss_Status x = ''available'' \<and> ss_Id x = ss_Id c)"
  proof (rule poll.loop_succeeds [where R = "\<lambda>k c' s. wait k (ext s) \<and> ss_Id c' = ss_Id c"])
    fix k and c' :: snapshot and t :: "'a st"
    assume "wait k (ext t) \<and> ss_Id c' = ss_Id c"
    then obtain sn w where reload: "x_snap_reload E (ss_Snap c') (ext t) = ((Some sn, None, None), w)"
      and next_round: "sn_OpState sn = ''available'' \<or> (\<exists>j. k = Suc j \<and> wait j w)" and "ss_Id c' = ss_Id c"
      using assms(1) unfolding soon_def by metis
    then show "(\<exists>d t'. pollOnce E c' t = (Ret (Inl d), t') \<and>
          (\<exists>x. d = Inr x \<and> ss_Status x = ''available'' \<and> ss_Id x = ss_Id c)) \<or>
        (\<exists>c'' t1 t2 j. k = Suc j \<and> pollOnce E c' t = (Ret (Inr c''), t1) \<and> ret () t1 = (Ret (), t2) \<and>
          wait j (ext t2) \<and> ss_Id c'' = ss_Id c)"
      by (cases "sn_OpState sn = ''available''")
        (auto simp: pollOnce_def go_eval ReloadSnapshot_run [OF reload] sleepG_def)
  qed (use assms in simp_all)
  then show ?thesis by blast
qed

text \<open>C14: a snapshot that the backend accepts, and that it reports available at the latest at the
  thirtieth reload, is returned by the call that created it, available, under the backend's
  timestamp.\<close>

theorem CreateSnapshot_succeeds:
  assumes "soon E wait" and "wait 29 w"
    and "parts (v_Ai v) = Some (si, dv, acl, t)"
    and "x_snap_create E dv (snapRequest E name opts) (ext s) = ((Some sn, None, None), w)"
  shows "\<exists>x s'. CreateSnapshot E v name opts s = (Ret (Inr x), s') \<and> ss_Status x = ''available'' \<and>
    ss_Id x = sn_UtcTs sn"
proof -
  let ?s = "s\<lparr>log := log s @ [SnapCreate (dv_Path dv) (snapRequest E name opts)], ext := w\<rparr>"
  obtain x s' where "pollAvailable E (Suc 29) (toSnapshot sn (clientVol False (v_Ai v) si dv acl t)) ?s = (Ret (Inr x), s')"
    "ss_Status x = ''available''" "ss_Id x = sn_UtcTs sn"
    using pollAvailable_succeeds [OF assms(1), of 29 ?s 29 "toSnapshot sn (clientVol False (v_Ai v) si dv acl t)"] assms(2)
    by (auto simp: toSnapshot_def)
  then show ?thesis
    by (auto simp: CreateSnapshot_def parts_run [OF assms(3)] go_eval assms(4))
qed

section \<open>Formatting\<close>

text \<open>A program that fails, without the message that ends the retries, at most \<open>k\<close> more times.\<close>

definition recovers :: "'w env \<Rightarrow> string list \<Rightarrow> (nat \<Rightarrow> 'w \<Rightarrow> bool) \<Rightarrow> bool" where
  "recovers E args wait \<longleftrightarrow> (\<forall>k w. wait k w \<longrightarrow> (\<exists>out err w'. x_exec E args w = ((out, err), w') \<and>
     (err = None \<or> \<not> contains out ''will not make a filesystem here'' \<and> (\<exists>j. k = Suc j \<and> wait j w'))))"

text \<open>Formatting succeeds when \<open>mkfs\<close> fails at most one time more than the timeout says, and not
  with the refusal to make a file system there.\<close>

theorem format_succeeds:
  assumes "recovers E (filter (\<lambda>c. c \<noteq> []) (map TrimSpace ([''mkfs.'' @ fs] @ args @ [device]))) wait"
    and "wait k (ext s)" and "int k \<le> timeout + 1"
    and "TrimSpace (''mkfs.'' @ fs) \<noteq> []"
  shows "\<exists>s'. format_device E device fs args timeout s = (Ret (Inr ()), s')"
proof -
  let ?cmd = "[''mkfs.'' @ fs] @ args @ [device]"
  have "\<exists>d s'. formatLoop E ?cmd (nat (timeout + 1)) s = (Ret d, s') \<and> d = Inr ()"
  proof (rule fmt.loop_succeeds [where R = "\<lambda>k _ s. wait k (ext s)"])
    fix k and c :: goerr and t :: "'a st"
    assume "wait k (ext t)"
    then obtain out err w where run: "x_exec E (filter (\<lambda>c. c \<noteq> []) (map TrimSpace ?cmd)) (ext t) = ((out, err), w)"
      and next_round: "err = None \<or> \<not> contains out ''will not make a filesystem here'' \<and> (\<exists>j. k = Suc j \<and> wait j w)"
      using assms(1) unfolding recovers_def by metis
    have "RunCmd E ?cmd t = (Ret (out, err), t\<lparr>log := log t @ [Exec (filter (\<lambda>c. c \<noteq> []) (map TrimSpace ?cmd))], ext := w\<rparr>)"
      unfolding RunCmd_behaviour using run assms(4) by (simp add: Let_def)
    then show "(\<exists>d t'. formatOnce E ?cmd c t = (Ret (Inl d), t') \<and> d = Inr ()) \<or>
        (\<exists>c' t1 t2 j. k = Suc j \<and> formatOnce E ?cmd c t = (Ret (Inr c'), t1) \<and> sleepG 1 t1 = (Ret (), t2) \<and>
          wait j (ext t2))"
      using next_round by (cases err) (auto simp: formatOnce_def go_eval sleepG_def simp del: contains.simps)
  qed (use assms(2,3) in auto)
  then show ?thesis by (auto simp: format_device_def)
qed

end
