(* ===== verification/Demo_Server.thy ===== *)
theory Demo_Server
  imports Demo_Store Driver_Handlers Client_Consistency Client_Progress
begin

text \<open>
  A host for the start of the driver, and what the theorems on the start, on logging and on the
  volumes that the client returns say of runs on it.
\<close>

section \<open>The start\<close>

text \<open>A host on which everything succeeds and the server ends at once.\<close>

definition demoHost :: "demo host" where
  "demoHost =
     \<lparr>ho_url_parse = (\<lambda>u. if prefix ''unix://'' u then Inr (''unix'', [], drop 7 u) else Inl unsupported),
      ho_path_join = (\<lambda>a b. a @ b), ho_remove = (\<lambda>_ w. (Some (unsupported, True), w)),
      ho_listen = (\<lambda>_ _ w. (None, w)), ho_serve = (\<lambda>w. (None, w)), ho_stop = (\<lambda>w. ((), w)),
      ho_new_sdk = (\<lambda>_ w. (None, w)), ho_sdk_health = (\<lambda>w. (None, w))\<rparr>"

definition socketDriver :: "string \<Rightarrow> demo driver" where
  "socketDriver t = (demoDriver demoEnv t)\<lparr>dr_sock := ''unix:///csi''\<rparr>"

lemma socketDriver_simps [simp]:
  "dr_env (socketDriver t) = demoEnv" "dr_sock (socketDriver t) = ''unix:///csi''"
  "dr_vars (socketDriver t) = dr_vars (demoDriver demoEnv t)"
  by (simp_all add: socketDriver_def)

theorem Run_starts_witness:
  "log (snd (Run (socketDriver ''node'') demoHost (demoSt demoWorld))) =
     [StatFile ''/csi'', MkdirAll ''/csi'', RemoveFile ''/csi'', ListenOn ''unix'' ''/csi'',
      RegisterService ''node'', Spawn ''Heartbeater'', Spawn ''LogPusher'', ServeRpcs]"
proof -
  let ?w = "demoWorld\<lparr>dm_files := (''/csi'', []) # dm_files demoWorld\<rparr>"
  have "ev_LogPush (dr_vars (demoDriver demoEnv ''node''))"
    by (simp add: demoDriver_def newDriver_def readEnvVars_def Let_def)
  then show ?thesis
    using Run_starts [of demoHost "socketDriver ''node''" "''/csi''" "demoSt demoWorld" True demoWorld ?w
        "Some (unsupported, True)" ?w ?w None ?w]
    by (simp add: demoHost_def demoEnv_def demoWorld_def StrToType_def services_known)
qed

definition closedHost :: "demo host" where
  "closedHost = demoHost\<lparr>ho_listen := (\<lambda>_ _ w. (Some unsupported, w))\<rparr>"

theorem Run_fails_early_witness:
  "frame (logs (\<lambda>e. \<not> starts e)) (Run (socketDriver ''all'') closedHost)"
  by (rule Run_fails_early) (simp add: closedHost_def)

section \<open>Logging without a context\<close>

theorem logging_needs_context_witness:
  "fst (logf \<lparr>lo_caller = None, lo_order = id, lo_now = ''now'', lo_sprintf = (\<lambda>f _. f)\<rparr> InfoLevel topctxt
     ''%s'' [] []) = Panic ''interface conversion: interface is nil, not string''"
  by (simp add: logging_needs_context topctxt_def)

section \<open>Volumes\<close>

lemma hostVol_consistent: "consistent hostVol"
  by (simp add: hostVol_def clientVol_def consistent_def)

theorem client_volumes_consistent_witness:
  "consistent hostVol \<and> gives (Login demoEnv hostVol True False Map.empty) consistent \<and>
   gives (Unmount demoEnv hostVol) consistent"
  using client_volumes_consistent [where E = demoEnv and v = hostVol and mp = True and rr = False and chap = Map.empty] hostVol_consistent
  by blast

section \<open>Slow backends\<close>

text \<open>A snapshot that is available, and a program that succeeds, only after as many tries as the world
  has files.\<close>

definition slowEnv :: "demo env" where
  "slowEnv = demoEnv
     \<lparr>x_snap_reload := (\<lambda>sn w. if dm_files w = [] then ((Some (sn\<lparr>sn_OpState := ''available''\<rparr>), None, None), w)
        else ((Some (sn\<lparr>sn_OpState := ''pending''\<rparr>), None, None), w\<lparr>dm_files := tl (dm_files w)\<rparr>)),
      x_snap_create := (\<lambda>dv c w. ((Some (demoSnap (dv_Path dv) (snc_Uuid c) ''17.5''), None, None), w)),
      x_exec := (\<lambda>_ w. if dm_files w = [] then (([], None), w)
        else (([], Some unsupported), w\<lparr>dm_files := tl (dm_files w)\<rparr>))\<rparr>"

lemma slow_tries: "xs \<noteq> [] \<Longrightarrow> length xs \<le> k \<Longrightarrow> \<exists>j. k = Suc j \<and> length (tl xs) \<le> j"
  by (cases k; cases xs) auto

theorem CreateSnapshot_succeeds_witness:
  "\<exists>x s'. CreateSnapshot slowEnv hostVol ''nightly'' \<lparr>so_RemoteProviderUuid = [], so_Type = []\<rparr> (demoSt demoWorld) =
     (Ret (Inr x), s') \<and> ss_Status x = ''available'' \<and> ss_Id x = ''17.5''"
proof -
  let ?opts = "\<lparr>so_RemoteProviderUuid = [], so_Type = []\<rparr>"
  let ?sn = "demoSnap (dv_Path (demoDv ''CSI-a'' 16)) (snc_Uuid (snapRequest slowEnv ''nightly'' ?opts)) ''17.5''"
  have id: "sn_UtcTs ?sn = ''17.5''" by (simp add: demoSnap_def)
  have "\<exists>x s'. CreateSnapshot slowEnv hostVol ''nightly'' ?opts (demoSt demoWorld) = (Ret (Inr x), s') \<and>
      ss_Status x = ''available'' \<and> ss_Id x = sn_UtcTs ?sn"
  proof (rule CreateSnapshot_succeeds)
    show "soon slowEnv (\<lambda>k w. length (dm_files w) \<le> k)"
      by (auto simp: soon_def slowEnv_def dest: slow_tries)
    show "length (dm_files demoWorld) \<le> 29" by (simp add: demoWorld_def)
    show "parts (v_Ai hostVol) = Some (demoSi ''CSI-a'' 16, demoDv ''CSI-a'' 16, \<lparr>acl_Initiators = []\<rparr>, [])"
      by (simp add: hostVol_def clientVol_def)
    show "x_snap_create slowEnv (demoDv ''CSI-a'' 16) (snapRequest slowEnv ''nightly'' ?opts) (ext (demoSt demoWorld)) =
        ((Some ?sn, None, None), demoWorld)"
      by (simp add: slowEnv_def)
  qed
  then show ?thesis unfolding id .
qed

theorem format_succeeds_witness:
  "\<exists>s'. format_device slowEnv ''/dev/sdb'' ''xfs'' [''-K''] 0 (demoSt demoWorld) = (Ret (Inr ()), s')"
proof -
  have "recovers slowEnv args (\<lambda>k w. length (dm_files w) \<le> k)" for args
    by (auto simp: recovers_def slowEnv_def dest: slow_tries)
  then show ?thesis
    by (rule format_succeeds [where k = 1])
      (simp_all add: demoWorld_def TrimSpace_def trimBytes_def isSpace_def)
qed

end
