(* ===== verification/Node_Lifecycle.thy ===== *)
theory Node_Lifecycle
  imports Driver_Node Client_Consistency
begin

text \<open>
  The node RPCs after one another. What one RPC leaves behind for the next is the volume's metadata:
  the device, the mount point, whether the device was formatted, the bind mounts. \<open>md_store\<close> says
  that the backend keeps them; \<open>ends\<close> is the triple for what holds when a run returned a value.
\<close>

section \<open>A backend that keeps metadata\<close>

text \<open>\<open>V w n\<close> is the metadata of the application instance \<open>n\<close> in the world \<open>w\<close>. Storing metadata adds
  to what there is.\<close>

definition md_store :: "'w env \<Rightarrow> ('w \<Rightarrow> string \<Rightarrow> smap) \<Rightarrow> bool" where
  "md_store E V \<longleftrightarrow>
     (\<forall>n w. V (snd (x_ai_get E n w)) = V w) \<and>
     (\<forall>n w ai. fst (fst (x_ai_get E n w)) = Some ai \<longrightarrow> ai_Name ai = n) \<and>
     (\<forall>ai w ai'. fst (fst (x_ai_reload E ai w)) = Some ai' \<longrightarrow> ai_Name ai' = ai_Name ai) \<and>
     (\<forall>ai w. V (snd (x_md_get E ai w)) = V w) \<and>
     (\<forall>ai w md. fst (fst (x_md_get E ai w)) = Some md \<longrightarrow> md = V w (ai_Name ai)) \<and>
     (\<forall>ai md w. snd (fst (x_md_set E ai md w)) = (None, None) \<longrightarrow>
        V (snd (x_md_set E ai md w)) = (V w)(ai_Name ai := V w (ai_Name ai) ++ md))"

definition ends :: "('w, goerr + 'a) io \<Rightarrow> ('a \<Rightarrow> 'w st \<Rightarrow> bool) \<Rightarrow> bool" where
  "ends m P \<longleftrightarrow> (\<forall>s x s'. m s = (Ret (Inr x), s') \<longrightarrow> P x s')"

named_theorems ends_intros \<open>rules for \<open>ends\<close> along the program's structure\<close>

lemma ends_error [ends_intros]: "ends (ret (Inl e)) P" "ends (panic p) P"
  by (simp_all add: ends_def go_eval)

lemma ends_bind: "(\<And>x. ends (k x) P) \<Longrightarrow> ends (bindG m k) P"
  unfolding ends_def by (blast elim: bindG_value)

lemma ends_try: "(\<And>x. ends (k x) P) \<Longrightarrow> ends (tryG m k) P"
  unfolding tryG_def by (rule ends_bind) (auto simp: ends_error split: sum.splits)

lemma ends_try_post:
  assumes "gives m A" and "\<And>x. A x \<Longrightarrow> ends (k x) P"
  shows "ends (tryG m k) P"
  unfolding ends_def
proof (intro allI impI)
  fix s y s'
  assume "tryG m k s = (Ret (Inr y), s')"
  then obtain x s1 where "m s = (Ret (Inr x), s1)" and "k x s1 = (Ret (Inr y), s')"
    by (auto simp: go_eval split: prod.splits outcome.splits sum.splits)
  with assms show "P y s'" unfolding gives_def ends_def by blast
qed

lemma gives_failWith [gives_intros]: "gives m P \<Longrightarrow> gives (failWith D c m) P"
  by (auto simp: gives_def failWith_def go_eval split: prod.splits outcome.splits sum.splits)

lemma gives_weaken: "gives m A \<Longrightarrow> (\<And>x. A x \<Longrightarrow> P x) \<Longrightarrow> gives m P"
  unfolding gives_def by blast

text \<open>With the condition of a test.\<close>

lemma gives_if: "(c \<Longrightarrow> gives a P) \<Longrightarrow> (\<not> c \<Longrightarrow> gives b P) \<Longrightarrow> gives (if c then a else b) P"
  by simp

lemma ends_failWith: "ends m P \<Longrightarrow> ends (failWith D c m) P"
  by (auto simp: ends_def failWith_def go_eval split: prod.splits outcome.splits sum.splits)

lemma ends_serve:
  assumes "\<And>c. ends (body c) P" and "\<And>x k s. P x s \<Longrightarrow> P x (clearRunning k s)"
  shows "ends (serve D ctx piece fn req body) P"
proof -
  have "P x s'" if run: "serve D ctx piece fn req body s = (Ret (Inr x), s')" for s x s'
  proof (cases rule: InitFunc_cases [of D ctx piece fn req s])
    case (1 p)
    then show ?thesis using run by (simp add: serve_def go_eval)
  next
    case (2 i ctxt s0)
    show ?thesis
    proof (cases "isRunning (callKey D piece fn req) s0")
      case True
      then show ?thesis using 2(2) run by (simp add: serve_def go_eval)
    next
      case False
      obtain r t where body: "body (dr_sdkContext D ctxt) (setRunning (callKey D piece fn req) s0) = (r, t)"
        by fastforce
      with 2(2) False run have "r = Ret (Inr x)" and s': "s' = clearRunning (callKey D piece fn req) t"
        by (simp_all add: serve_def go_eval)
      with body assms(1) [of "dr_sdkContext D ctxt"] have "P x t"
        unfolding ends_def by blast
      then show ?thesis unfolding s' by (rule assms(2))
    qed
  qed
  then show ?thesis unfolding ends_def by blast
qed

section \<open>Names and metadata through the client\<close>

lemma aiToClientVol_ai: "gives (aiToClientVol E (Some ai) qos md c) (\<lambda>v. v_Ai v = ai)"
proof -
  have "gives (readLimits E qos c v) (\<lambda>_. True)" for v :: dvolume
    by (simp add: gives_def)
  then show ?thesis
    unfolding aiToClientVol_def option.case Let_def
    by (auto simp: withMetadata_def split_beta intro!: gives_bind gives_try gives_intros)
qed

lemma GetVolume_named:
  assumes "md_store E V"
  shows "gives (GetVolume E n qos md) (\<lambda>v. ai_Name (v_Ai v) = n)"
  unfolding GetVolume_def
proof (intro gives_branches gives_error)
  have names: "gives (sdkCall (AiGet n) (x_ai_get E n)) (\<lambda>p. \<forall>ai. p = Some ai \<longrightarrow> ai_Name ai = n)"
    using assms by (auto simp: gives_def sdkCall_def go_eval md_store_def sdkResult_def
        split: prod.splits option.splits) (metis fst_conv)
  show "gives (tryG (sdkCall (AiGet n) (x_ai_get E n)) (\<lambda>newAi. aiToClientVol E newAi qos md True))
      (\<lambda>v. ai_Name (v_Ai v) = n)"
  proof (rule gives_try_post [OF names])
    fix p :: "app_instance option" assume p: "\<forall>ai. p = Some ai \<longrightarrow> ai_Name ai = n"
    show "gives (aiToClientVol E p qos md True) (\<lambda>v. ai_Name (v_Ai v) = n)"
    proof (cases p)
      case None
      then show ?thesis by (simp add: aiToClientVol_def gives_error)
    next
      case (Some ai)
      with p aiToClientVol_ai [of E ai qos md True] show ?thesis by (auto simp: gives_def)
    qed
  qed
qed

lemma Reload_named:
  assumes "md_store E V"
  shows "gives (Reload E v False False) (\<lambda>w. ai_Name (v_Ai w) = ai_Name (v_Ai v) \<and> \<not> v_Formatted w)"
proof -
  have names: "gives (sdkCall (AiReload (ai_Name (v_Ai v))) (x_ai_reload E (v_Ai v)))
      (\<lambda>p. \<forall>ai. p = Some ai \<longrightarrow> ai_Name ai = ai_Name (v_Ai v))"
    using assms by (auto simp: gives_def sdkCall_def go_eval md_store_def sdkResult_def
        split: prod.splits option.splits) (metis fst_conv)
  have conv: "gives (aiToClientVol E p False False c) (\<lambda>w. Some (v_Ai w) = p \<and> \<not> v_Formatted w)" for p c
  proof (cases p)
    case (Some ai)
    then show ?thesis
      unfolding aiToClientVol_def Some option.case Let_def readLimits_off
      by (auto simp: split_beta intro!: gives_bind gives_try gives_intros)
  qed (simp add: aiToClientVol_def gives_error)
  have post: "gives (bindG (aiToClientVol E p False False c) (\<lambda>res.
      bindG (derefG (case res of Inl _ \<Rightarrow> None | Inr w \<Rightarrow> Some w)) (\<lambda>w. ret (Inr w))))
      (\<lambda>w. Some (v_Ai w) = p \<and> \<not> v_Formatted w)" for p c
    using conv [of p c] by (auto simp: gives_def go_eval split: prod.splits outcome.splits sum.splits)
  show ?thesis
    unfolding Reload_def
    by (rule gives_try_post [OF names]) (auto intro!: gives_weaken [OF post])
qed

lemma Online_named:
  "md_store E V \<Longrightarrow> gives (Online E v) (\<lambda>w. ai_Name (v_Ai w) = ai_Name (v_Ai v) \<and> \<not> v_Formatted w)"
  unfolding Online_def by (intro gives_try Reload_named)

lemma Login_gives:
  "gives (Login E v mp rr chap) (\<lambda>w. v_Ai w = v_Ai v \<and> v_Formatted w = v_Formatted v \<and> v_DevicePath w \<noteq> [])"
  unfolding Login_def Let_def
  by (intro gives_bind gives_branches(4) gives_branches(2) gives_error gives_if gives_ret) auto

lemma Format_gives: "gives (Format E v fs args timeout) (\<lambda>w. v_Ai w = v_Ai v)"
  unfolding Format_def by (auto intro!: gives_bind gives_try gives_intros)

lemma Mount_gives: "gives (Mount E v dest opts fs) (\<lambda>w. v_Ai w = v_Ai v \<and> v_MountPath w = dest)"
  unfolding Mount_def by (auto intro!: gives_bind gives_try gives_intros)

lemma storeMetadata_ends:
  assumes "md_store (dr_env D) V"
  shows "ends (storeMetadata D vol md) (\<lambda>_ s. md \<subseteq>\<^sub>m V (ext s) (ai_Name (v_Ai vol)))"
proof -
  have set: "V (snd (x_md_set (dr_env D) ai md w)) = (V w)(ai_Name ai := V w (ai_Name ai) ++ md)"
    if "fst (x_md_set (dr_env D) ai md w) = (p, None, None)" for ai w p
    using assms that unfolding md_store_def by (metis snd_conv)
  show ?thesis
    unfolding storeMetadata_def SetMetadata_def ends_def
    by (auto simp: go_eval sdkCall_def sdkResult_def derefG_def set
        split: prod.splits outcome.splits sum.splits option.splits if_splits)
qed

section \<open>Staging\<close>

definition remembered :: "vol_cap \<Rightarrow> string \<Rightarrow> smap \<Rightarrow> bool" where
  "remembered vc path md \<longleftrightarrow> mdGet md ''device_path'' \<noteq> [] \<and>
     (case vcp_AccessType vc of
        MountAccess _ \<Rightarrow> md ''formatted'' = Some ''true'' \<and> md ''mount_path'' = Some path
      | _ \<Rightarrow> md ''mount_path'' = md ''device_path'')"

lemma stageFormat_gives:
  assumes "\<not> v_Formatted vol"
  shows "gives (stageFormat D vol md fs) (\<lambda>(v, md'). v_Ai v = v_Ai vol \<and>
    md' = md(''formatted'' \<mapsto> ''true''))"
proof -
  have same: "md(''formatted'' \<mapsto> ''true'') = md" if "mdGet md ''formatted'' = ''true''"
    using that by (auto simp: mdGet_def fun_upd_idem split: option.splits)
  show ?thesis
    unfolding stageFormat_def Let_def
    by (intro gives_if gives_try_post [OF gives_failWith [OF Format_gives]] gives_ret)
      (use assms same in auto)
qed

lemma stageMount_gives:
  assumes "\<not> v_Formatted vol" and "md ''device_path'' = Some (v_DevicePath vol)" and "v_DevicePath vol \<noteq> []"
  shows "gives (stageMount D vol md vc path) (\<lambda>(v, md'). v_Ai v = v_Ai vol \<and> remembered vc path md')"
proof (cases "vcp_AccessType vc")
  case (MountAccess m)
  then show ?thesis
    unfolding stageMount_def Let_def MountAccess access_type.case
    by (intro gives_try_post [OF stageFormat_gives [OF assms(1)]])
      (auto intro!: gives_try_post [OF gives_failWith [OF Mount_gives]] gives_ret
        simp: remembered_def mdGet_def assms(2,3) MountAccess)
qed (use assms in \<open>auto simp: stageMount_def remembered_def mdGet_def intro!: gives_intros\<close>)

lemma remembered_mono:
  assumes "remembered vc path md" and "md \<subseteq>\<^sub>m md'"
  shows "remembered vc path md'"
proof -
  have up: "md' k = Some x" if "md k = Some x" for k x
    using that assms(2) by (metis domI map_le_def)
  from assms(1) obtain d where "md ''device_path'' = Some d" and "d \<noteq> []"
    by (auto simp: remembered_def mdGet_def split: option.splits)
  with assms(1) up show ?thesis
    by (auto simp: remembered_def mdGet_def split: access_type.splits)
qed

lemma NodeStage_ends:
  assumes store: "md_store (dr_env D) V" and vc: "sgq_VolumeCapability req = Some vc"
  shows "ends (NodeStageVolume D ctx req)
    (\<lambda>_ s. remembered vc (sgq_StagingTargetPath req) (V (ext s) (sgq_VolumeId req)))"
proof -
  let ?E = "dr_env D" and ?vid = "sgq_VolumeId req" and ?path = "sgq_StagingTargetPath req"
  let ?P = "\<lambda>(_ :: unit) s. remembered vc ?path (V (ext s) ?vid)"
  have stored: "ends (failWith D Unknown (storeMetadata D vol md)) ?P"
    if "ai_Name (v_Ai vol) = ?vid" and "remembered vc ?path md" for vol md
    using storeMetadata_ends [OF store, of vol md] that
    by (intro ends_failWith) (auto simp: ends_def intro: remembered_mono)
  have logged_in: "ends (tryG (failWith D Unknown (Login ?E vol mp rr chap)) (\<lambda>vol.
      tryG (stageMount D vol (md(''device_path'' \<mapsto> v_DevicePath vol)) vc ?path) (\<lambda>(vol, md).
      failWith D Unknown (storeMetadata D vol md)))) ?P"
    if "ai_Name (v_Ai vol) = ?vid" and "\<not> v_Formatted vol" for vol md mp rr chap
  proof (rule ends_try_post [OF gives_failWith [OF Login_gives]])
    fix w :: volume assume w: "v_Ai w = v_Ai vol \<and> v_Formatted w = v_Formatted vol \<and> v_DevicePath w \<noteq> []"
    then show "ends (tryG (stageMount D w (md(''device_path'' \<mapsto> v_DevicePath w)) vc ?path) (\<lambda>(vol, md).
        failWith D Unknown (storeMetadata D vol md))) ?P"
      by (intro ends_try_post [OF stageMount_gives]) (use that in \<open>auto intro: stored\<close>)
  qed
  have online: "ends (tryG (failWith D Unknown (Online ?E vol)) (\<lambda>vol.
      tryG (failWith D Unknown (Login ?E vol mp (rr md) chap)) (\<lambda>vol.
      tryG (stageMount D vol (md(''device_path'' \<mapsto> v_DevicePath vol)) vc ?path) (\<lambda>(vol, md).
      failWith D Unknown (storeMetadata D vol md))))) ?P"
    if "ai_Name (v_Ai vol) = ?vid" for vol md mp rr chap
    using that logged_in by (intro ends_try_post [OF gives_failWith [OF Online_named [OF store]]]) simp
  have looked_up: "ends (tryG m1 (\<lambda>md. tryG (m2 md) (\<lambda>md. tryG m3 (\<lambda>ini. tryG (m4 ini) (\<lambda>_.
      tryG (failWith D Unknown (Online ?E vol)) (\<lambda>vol.
      tryG (failWith D Unknown (Login ?E vol mp (rr md) chap)) (\<lambda>vol.
      tryG (stageMount D vol (md(''device_path'' \<mapsto> v_DevicePath vol)) vc ?path) (\<lambda>(vol, md).
      failWith D Unknown (storeMetadata D vol md))))))))) ?P"
    if "ai_Name (v_Ai vol) = ?vid"
    for vol mp rr chap and m1 :: "('a, goerr + smap) io" and m2 :: "smap \<Rightarrow> ('a, goerr + smap) io"
      and m3 :: "('a, goerr + client_initiator option) io" and m4 :: "client_initiator option \<Rightarrow> ('a, goerr + unit) io"
    by (rule ends_try, rule ends_try, rule ends_try, rule ends_try, rule online [OF that])
  show ?thesis
    unfolding NodeStageVolume_def StripAndServe_def Let_def vc option.case prod.case_eq_if
    by (rule ends_serve)
      (auto simp: clearRunning_def intro!: ends_error ends_try_post [OF gives_failWith [OF GetVolume_named [OF store]]]
        looked_up [unfolded prod.case_eq_if])
qed

lemma firstVolume_state: "firstVolume ai s = (r, s') \<Longrightarrow> s' = s"
  by (auto simp: firstVolume_def go_eval split: prod.splits outcome.splits if_splits)

lemma derefG_state: "derefG p s = (r, s') \<Longrightarrow> s' = s"
  by (cases p) (auto simp: go_eval)

lemma GetVolume_metadata:
  assumes store: "md_store E V" and run: "GetVolume E n False True s = (Ret (Inr v), s')"
  shows "v_DevicePath v = mdGet (V (ext s) n) ''device_path'' \<and> v_MountPath v = mdGet (V (ext s) n) ''mount_path'' \<and>
    v_Formatted v = (case V (ext s) n ''formatted'' of None \<Rightarrow> False | Some f \<Rightarrow> f \<noteq> ''false'')"
proof -
  from run obtain p s1 where get: "sdkCall (AiGet n) (x_ai_get E n) s = (Ret (Inr p), s1)"
    and conv: "aiToClientVol E p False True True s1 = (Ret (Inr v), s')"
    by (auto simp: GetVolume_def go_eval split: if_splits prod.splits outcome.splits sum.splits)
  from get have s1: "ext s1 = snd (x_ai_get E n (ext s))" and p: "p = fst (fst (x_ai_get E n (ext s)))"
    by (auto simp: sdkCall_def go_eval sdkResult_def split: prod.splits option.splits)
  from conv obtain ai where ai: "p = Some ai"
    by (cases p) (auto simp: aiToClientVol_def go_eval)
  with p store have "ai_Name ai = n" and V: "V (ext s1) = V (ext s)"
    unfolding s1 md_store_def by metis+
  have read: "md = V (ext t) n" if "GetMetadata E ai t = (Ret (Inr md), t')" for t md t'
    using that store \<open>ai_Name ai = n\<close>
    by (auto simp: GetMetadata_def sdkCall_def go_eval sdkResult_def derefG_def md_store_def
        split: prod.splits option.splits outcome.splits sum.splits)
  from conv obtain md vol t' where g: "GetMetadata E ai s1 = (Ret (Inr md), t')"
    and v: "v = withMetadata E md vol"
    unfolding aiToClientVol_def ai option.case readLimits_off Let_def if_True
    by (auto simp: go_eval split: prod.splits outcome.splits sum.splits option.splits dest!: firstVolume_state derefG_state)
  have "md = V (ext s) n" using read [OF g] V by simp
  with v show ?thesis by (simp add: withMetadata_def)
qed

text \<open>C11: staging is remembered: once \<open>NodeStageVolume\<close> returned without an error, and as long as the
  volume's metadata stay, every look-up of the volume that succeeds gives one that is logged in and,
  for a mount, formatted and mounted at the staging path; for a raw block device, "mounted" at the
  device.\<close>

theorem staged_volume_remembered:
  assumes "md_store (dr_env D) V" and "sgq_VolumeCapability req = Some vc"
    and "NodeStageVolume D ctx req s = (Ret (Inr ()), s')"
    and "V (ext t) (sgq_VolumeId req) = V (ext s') (sgq_VolumeId req)"
    and "GetVolume (dr_env D) (sgq_VolumeId req) False True t = (Ret (Inr v), t')"
  shows "v_DevicePath v \<noteq> [] \<and> (case vcp_AccessType vc of
      MountAccess _ \<Rightarrow> v_Formatted v \<and> v_MountPath v = sgq_StagingTargetPath req
    | _ \<Rightarrow> v_MountPath v = v_DevicePath v)"
proof -
  have "remembered vc (sgq_StagingTargetPath req) (V (ext t) (sgq_VolumeId req))"
    using NodeStage_ends [OF assms(1,2)] assms(3,4) by (auto simp: ends_def)
  with GetVolume_metadata [OF assms(1,5)] show ?thesis
    by (auto simp: remembered_def mdGet_def split: access_type.splits)
qed

section \<open>Staging again\<close>

text \<open>A run of a program that makes a file system.\<close>

fun formats :: "event \<Rightarrow> bool" where
  "formats (Exec (c # _)) = prefix ''mkfs'' c"
| "formats _ = False"

lemma RunCmd_first:
  assumes "TrimSpace c = c" and "c \<noteq> []" and "\<not> prefix ''mkfs'' c"
  shows "frame (logs (\<lambda>e. \<not> formats e)) (RunCmd E (c # cs))"
  unfolding RunCmd_def Let_def using assms by (auto intro!: frame_branches logs_extG lg.frame_panic)

lemma programs_trimmed:
  "TrimSpace ''sh'' = ''sh''" "TrimSpace ''readlink'' = ''readlink''" "TrimSpace ''mount'' = ''mount''"
  by (simp_all add: TrimSpace_def trimBytes_def isSpace_def)

lemma Mount_formats_not: "frame (logs (\<lambda>e. \<not> formats e)) (Mount E v dest opts fs)"
proof -
  have "frame (logs (\<lambda>e. \<not> formats e)) (deviceFromMount E source)" for source
    unfolding deviceFromMount_def readlink_def
    by (intro frame_intros RunCmd_first) (simp_all add: programs_trimmed)
  moreover have "frame (logs (\<lambda>e. \<not> formats e)) (RunCmd E (case d of
        Inl _ \<Rightarrow> if b then [''mount'', source, dest] @ opts else [''mount'', ''-t'', fs, source, dest] @ opts
      | Inr dev \<Rightarrow> [''mount'', dev, dest] @ remove1 ''--bind'' opts))" for d :: "goerr + string" and b source
    by (auto split: sum.splits intro!: RunCmd_first simp: programs_trimmed)
  ultimately show ?thesis
    unfolding Mount_def mount_dev_def Let_def
    by (intro frame_branches lg.frame_rules logs_extG) simp_all
qed

text \<open>C13: a volume whose metadata say that it is formatted is never formatted by \<open>NodeStageVolume\<close>,
  whatever the request and the host say.\<close>

theorem restaging_spares_data:
  assumes "\<And>ai w md. fst (fst (x_md_get (dr_env D) ai w)) = Some md \<Longrightarrow> mdGet md ''formatted'' = ''true''"
  shows "frame (logs (\<lambda>e. \<not> formats e)) (NodeStageVolume D ctx req)"
proof -
  let ?E = "dr_env D" and ?Q = "\<lambda>e. \<not> formats e"
  have read: "frame (logs ?Q) (GetVolume ?E n qos True)" for n qos
    by (rule GetVolume_reads) (auto elim: reads.elims)
  have md: "gives (GetMetadata ?E ai) (\<lambda>md. mdGet md ''formatted'' = ''true'')" for ai
    using assms by (auto simp: gives_def GetMetadata_def go_eval derefG_def sdkResult_def sdkCall_def
        split: prod.splits outcome.splits option.splits sum.splits) (metis fst_conv)
  have cap: "gives (RegisterVolumeCapability D md vc) (\<lambda>md'. mdGet md' ''formatted'' = mdGet md ''formatted'')" for md vc
    unfolding RegisterVolumeCapability_def Let_def
    by (auto simp: mdGet_def intro!: gives_bind gives_intros split: option.splits access_type.splits)
  have mount: "frame (logs ?Q) (stageMount D vol md vc path)" if "mdGet md ''formatted'' = ''true''" for vol md vc path
    using that unfolding stageMount_def stageFormat_def Let_def
    by (auto intro!: frame_intros Mount_formats_not split: access_type.splits)
  have login: "frame (logs ?Q) (Login ?E vol mp rr chap)" for vol mp rr chap
    unfolding Login_def loginIps_def robin_def Let_def by (intro frame_intros) simp_all
  have looked: "mdGet md' ''formatted'' = ''true''"
    if "failWith D c (GetMetadata ?E ai) s = (Ret (Inr md'), s')" for c ai s md' s'
    using gives_failWith [OF md] that unfolding gives_def by metis
  have host: "frame (logs ?Q) (CreateGetInitiator ?E)" "frame (logs ?Q) (RegisterAcl ?E vol ini)"
    "frame (logs ?Q) (Online ?E vol)" for vol ini
    unfolding CreateGetInitiator_def GetClientIqn_def toInitiator_def RegisterAcl_def updateAcl_def Online_def Let_def
    by (intro frame_intros; simp)+
  have rest: "frame (logs ?Q) (tryG (failWith D InvalidArgument (RegisterVolumeCapability D md vc)) (\<lambda>md.
      tryG (failWith D Unknown (CreateGetInitiator ?E)) (\<lambda>ini.
      tryG (failWith D Unknown (RegisterAcl ?E vol ini)) (\<lambda>_.
      tryG (failWith D Unknown (Online ?E vol)) (\<lambda>vol.
      tryG (failWith D Unknown (Login ?E vol mp (rr md) chap)) (\<lambda>vol.
      tryG (stageMount D vol (md(''device_path'' \<mapsto> v_DevicePath vol)) vc' path) (\<lambda>(vol, md).
      failWith D Unknown (storeMetadata D vol md))))))))"
    if "mdGet md ''formatted'' = ''true''" for md vc vol mp rr chap vc' path
  proof (rule lg.frame_try_post [where P = "\<lambda>md. mdGet md ''formatted'' = ''true''"])
    show "mdGet md' ''formatted'' = ''true''"
      if "failWith D InvalidArgument (RegisterVolumeCapability D md vc) s = (Ret (Inr md'), s')" for s md' s'
      using gives_failWith [OF cap] that \<open>mdGet md ''formatted'' = ''true''\<close> unfolding gives_def by metis
  qed (intro frame_intros login host mount; simp add: mdGet_def)+
  show ?thesis
    unfolding NodeStageVolume_def StripAndServe_def Let_def
    by (intro lg.frame_try_post [where m = "failWith D Unknown (GetMetadata ?E (v_Ai vol))" for vol, OF _ looked rest]
        serve_logs frame_branches lg.frame_ret lg.frame_try failWith_frame read GetMetadata_frame) auto
qed

section \<open>Mount flags\<close>

text \<open>The mount flags of a capability, which \<open>RegisterVolumeCapability\<close> stores as \<open>m_flags\<close>,
  play no part when the volume is mounted: staging with any flags runs the same programs with the
  same result, the stored flags apart.\<close>

theorem mount_flags_ignored:
  "stageMount D vol (md(''m_flags'' \<mapsto> flags)) vc path s =
    (case stageMount D vol md vc path s of
       (Ret (Inr (v, md')), t) \<Rightarrow> (Ret (Inr (v, md'(''m_flags'' \<mapsto> flags))), t)
     | (r, t) \<Rightarrow> (r, t))"
proof -
  have fields: "mdGet (md(''m_flags'' \<mapsto> flags)) k = mdGet md k" if "k \<noteq> ''m_flags''" for k
    using that by (simp add: mdGet_def)
  have swap: "md'(''m_flags'' \<mapsto> flags, k \<mapsto> x) = md'(k \<mapsto> x, ''m_flags'' \<mapsto> flags)" if "k \<noteq> ''m_flags''" for md' k x
    using that by (simp add: fun_upd_twist)
  have format: "stageFormat D vol (md(''m_flags'' \<mapsto> flags)) fs s =
    (case stageFormat D vol md fs s of
       (Ret (Inr (v, md')), t) \<Rightarrow> (Ret (Inr (v, md'(''m_flags'' \<mapsto> flags))), t)
     | (r, t) \<Rightarrow> (r, t))" for fs
  proof -
    let ?args = "splitOn CHR '' '' (mdGet md ''fs_args'')"
    obtain r t where m: "failWith D Unknown (Format (dr_env D) vol fs ?args (ev_FormatTimeout (dr_vars D))) s = (r, t)"
      by fastforce
    show ?thesis
      by (cases r) (auto simp: stageFormat_def fields swap go_eval m Let_def split: sum.splits)
  qed
  show ?thesis
  proof (cases "vcp_AccessType vc")
    case (MountAccess x)
    let ?fs = "if mdGet md ''fs_type'' = [] then Ext4 else mdGet md ''fs_type''"
    note unfolded = stageMount_def MountAccess access_type.case Let_def fields
    obtain r t where f: "stageFormat D vol md ?fs s = (r, t)" by fastforce
    show ?thesis
    proof (cases "\<exists>v md'. r = Ret (Inr (v, md'))")
      case True
      then obtain v md' where r: "r = Ret (Inr (v, md'))" by blast
      obtain r' t' where "failWith D Unknown (Mount (dr_env D) v path (splitOn CHR '' '' (mdGet md' ''m_args'')) ?fs) t = (r', t')"
        by fastforce
      moreover have "mdGet (md'(''m_flags'' \<mapsto> flags)) k = mdGet md' k" if "k \<noteq> ''m_flags''" for k
        using that by (simp add: mdGet_def)
      ultimately show ?thesis
        using f r by (cases r') (auto simp: unfolded format swap go_eval split: sum.splits)
    next
      case False
      with f show ?thesis
        by (cases r) (auto simp: unfolded format go_eval split: sum.splits)
    qed
  qed (simp_all add: stageMount_def swap go_eval)
qed

section \<open>Publishing and unpublishing\<close>

text \<open>Making ids and running programs change no metadata.\<close>

definition md_quiet :: "'w env \<Rightarrow> ('w \<Rightarrow> string \<Rightarrow> smap) \<Rightarrow> bool" where
  "md_quiet E V \<longleftrightarrow> (\<forall>w. V (snd (x_new_uuid E w)) = V w) \<and> (\<forall>c w. V (snd (x_exec E c w)) = V w) \<and>
     (\<forall>f w. V (snd (x_remove_all E f w)) = V w)"

lemma keeps_ext: "(\<And>w. V (snd (f w)) = V w) \<Longrightarrow> frame (keeps (\<lambda>s. V (ext s))) (extG ev f)"
  by (simp add: frame_def keeps_def go_eval)

lemma reads_keep:
  assumes "md_store E V"
  shows "frame (keeps (\<lambda>s. V (ext s))) (GetMetadata E ai)"
    and "frame (keeps (\<lambda>s. V (ext s))) (GetVolume E n False True)"
proof -
  have calls: "V (snd (x_ai_get E n w)) = V w" "V (snd (x_md_get E ai w)) = V w" for n ai w
    using assms by (simp_all add: md_store_def)
  show md: "frame (keeps (\<lambda>s. V (ext s))) (GetMetadata E ai)" for ai
    unfolding GetMetadata_def sdkCall_def by (intro frame_branches kp.frame_rules keeps_ext calls)
  show "frame (keeps (\<lambda>s. V (ext s))) (GetVolume E n False True)"
    unfolding GetVolume_def aiToClientVol_def readLimits_off firstVolume_def sdkCall_def Let_def split_beta
    by (intro frame_branches kp.frame_rules keeps_ext calls md)
qed

lemma UnBindMount_keeps:
  assumes "md_quiet E V"
  shows "frame (keeps (\<lambda>s. V (ext s))) (UnBindMount E v path)"
  unfolding UnBindMount_def unmount_def RunCmd_def Let_def
  using assms by (intro frame_branches kp.frame_rules keeps_ext) (simp_all add: md_quiet_def)

text \<open>What a handler's value came from.\<close>

lemma serve_value:
  assumes "serve D ctx piece fn req body s = (Ret (Inr x), s')" and "md_quiet (dr_env D) V"
  obtains c s0 t where "body c s0 = (Ret (Inr x), t)" and "V (ext s0) = V (ext s)" and "ext s' = ext t"
proof (cases rule: InitFunc_cases [of D ctx piece fn req s])
  case (1 p)
  with assms(1) show thesis by (simp add: serve_def go_eval)
next
  case (2 i ctxt s0)
  let ?k = "callKey D piece fn req"
  have "frame (keeps (\<lambda>s. V (ext s))) (WithCtxt (dr_env D) c n i)" for c n i
    unfolding WithCtxt_def GenId_def
    using assms(2) by (intro frame_branches kp.frame_rules keeps_ext) (simp add: md_quiet_def)
  from frameD [OF this 2(1)] have s0: "V (ext s0) = V (ext s)" by (simp add: keeps_def)
  have "\<not> isRunning ?k s0"
    using 2(2) assms(1) by (auto simp: serve_def go_eval)
  with 2(2) assms(1) obtain t where b: "body (dr_sdkContext D ctxt) (setRunning ?k s0) = (Ret (Inr x), t)"
    and "s' = clearRunning ?k t"
    by (cases "body (dr_sdkContext D ctxt) (setRunning ?k s0)") (auto simp: serve_def go_eval)
  then show thesis
    by (intro that [OF b]) (simp_all add: s0 setRunning_def clearRunning_def)
qed

lemma storeMetadata_adds:
  assumes "md_store (dr_env D) V" and "storeMetadata D vol md s = (Ret (Inr u), s')"
  shows "V (ext s') = (V (ext s))(ai_Name (v_Ai vol) := V (ext s) (ai_Name (v_Ai vol)) ++ md)"
proof -
  have set: "V (snd (x_md_set (dr_env D) ai md w)) = (V w)(ai_Name ai := V w (ai_Name ai) ++ md)"
    if "fst (x_md_set (dr_env D) ai md w) = (p, None, None)" for ai w p
    using assms(1) that unfolding md_store_def by (metis snd_conv)
  have debug: "V (ext t') = V (ext t)" if "GetMetadata (dr_env D) ai t = (r, t')" for ai t r t'
    using frameD [OF reads_keep(1) [OF assms(1)] that] by (simp add: keeps_def)
  show ?thesis
    using assms(2)
    by (auto simp: storeMetadata_def SetMetadata_def go_eval sdkCall_def sdkResult_def derefG_def set
        dest!: debug split: prod.splits outcome.splits sum.splits option.splits if_splits)
qed

lemma podDetails_bind_mount: "podDetails c md ''bind_mount'' = md ''bind_mount''"
  by (simp add: podDetails_def putNonEmpty_def split: option.splits)

lemma BindMount_gives:
  assumes "v_BindMountPaths v = Some ps"
  shows "gives (BindMount E v dest fs) (\<lambda>w. v_Ai w = v_Ai v \<and> v_BindMountPaths w = Some (x_ss_add E dest ps))"
  unfolding BindMount_def by (auto intro!: gives_try gives_intros simp: assms)

text \<open>A list of bind mounts in the metadata that has the path.\<close>

definition listed :: "'w env \<Rightarrow> string \<Rightarrow> smap \<Rightarrow> bool" where
  "listed E path md \<longleftrightarrow> (\<exists>ps. md ''bind_mount'' = Some (joinWith '','' (x_ss_list E (x_ss_add E path ps))))"

lemma ends_bind_gives:
  assumes "gives m A" and "\<And>r. (\<And>x. r = Inr x \<Longrightarrow> A x) \<Longrightarrow> ends (k r) P"
  shows "ends (bindG m k) P"
  unfolding ends_def
proof (intro allI impI)
  fix s y s'
  assume "bindG m k s = (Ret (Inr y), s')"
  then obtain r s1 where "m s = (Ret r, s1)" and k: "k r s1 = (Ret (Inr y), s')" by (rule bindG_value)
  with assms(1) have "A x" if "r = Inr x" for x using that unfolding gives_def by blast
  then have "ends (k r) P" by (rule assms(2))
  with k show "P y s'" unfolding ends_def by blast
qed

lemma ends_deref:
  "(\<And>x. p = Some x \<Longrightarrow> ends (k x) P) \<Longrightarrow> ends (bindG (derefG p) k) P"
  by (cases p) (simp_all add: ends_def go_eval)

lemma NodePublish_ends:
  assumes store: "md_store (dr_env D) V"
  shows "ends (NodePublishVolume D ctx req)
    (\<lambda>_ s. listed (dr_env D) (pbq_TargetPath req) (V (ext s) (pbq_VolumeId req)))"
proof -
  let ?E = "dr_env D" and ?vid = "pbq_VolumeId req" and ?path = "pbq_TargetPath req"
  let ?P = "\<lambda>(_ :: unit) s. listed ?E ?path (V (ext s) ?vid)"
  have stored: "ends (failWith D Unknown (storeMetadata D vol (podDetails c (md(''bind_mount'' \<mapsto>
      joinWith '','' (x_ss_list ?E (x_ss_add ?E ?path ps))))))) ?P"
    if "ai_Name (v_Ai vol) = ?vid" for vol c md ps
    using storeMetadata_adds [OF store, of vol] that
    by (intro ends_failWith) (fastforce simp: ends_def listed_def podDetails_bind_mount map_add_def)
  have bound: "ends (tryG (failWith D Unknown (BindMount ?E (vol\<lparr>v_BindMountPaths := Some ps\<rparr>) ?path fs)) (\<lambda>vol.
      bindG (derefG (v_BindMountPaths vol)) (\<lambda>ps.
      failWith D Unknown (storeMetadata D vol (podDetails c (md(''bind_mount'' \<mapsto> joinWith '','' (x_ss_list ?E ps)))))))) ?P"
    if "ai_Name (v_Ai vol) = ?vid" for vol ps fs c md
  proof (rule ends_try_post [OF gives_failWith [OF BindMount_gives]])
    fix w :: volume
    assume w: "v_Ai w = v_Ai (vol\<lparr>v_BindMountPaths := Some ps\<rparr>) \<and> v_BindMountPaths w = Some (x_ss_add ?E ?path ps)"
    with that have "ai_Name (v_Ai w) = ?vid" by simp
    from stored [OF this] w
    show "ends (bindG (derefG (v_BindMountPaths w)) (\<lambda>ps.
      failWith D Unknown (storeMetadata D w (podDetails c (md(''bind_mount'' \<mapsto> joinWith '','' (x_ss_list ?E ps))))))) ?P"
      by (simp add: ends_def go_eval)
  qed simp
  have found: "ends (tryG m1 (\<lambda>md. tryG (m2 md) (\<lambda>md. bindG (derefG (v_BindMountPaths vol)) (\<lambda>ps.
      tryG (failWith D Unknown (BindMount ?E (vol\<lparr>v_BindMountPaths := Some (f md ps)\<rparr>) ?path (g md))) (\<lambda>vol.
      bindG (derefG (v_BindMountPaths vol)) (\<lambda>ps.
      failWith D Unknown (storeMetadata D vol (podDetails c (md(''bind_mount'' \<mapsto> joinWith '','' (x_ss_list ?E ps))))))))))) ?P"
    if "ai_Name (v_Ai vol) = ?vid"
    for vol f g c and m1 :: "('a, goerr + smap) io" and m2 :: "smap \<Rightarrow> ('a, goerr + smap) io"
    by (rule ends_try, rule ends_try, rule ends_bind, rule bound [OF that])
  have looked: "gives (GetVolume ?E ?vid False True) (\<lambda>v. ai_Name (v_Ai v) = ?vid)"
    by (rule GetVolume_named [OF store])
  show ?thesis
    unfolding NodePublishVolume_def Let_def
    by (rule ends_serve) (auto simp: clearRunning_def intro!: ends_error ends_bind_gives [OF looked] ends_deref found
        split: option.splits sum.splits)
qed

section \<open>The record of bind mounts\<close>

lemma NodeUnpublish_keeps_record:
  assumes store: "md_store (dr_env D) V" and quiet: "md_quiet (dr_env D) V"
    and run: "NodeUnpublishVolume D ctx req s = (Ret (Inr u), s')"
  shows "V (ext s') n ''bind_mount'' = V (ext s) n ''bind_mount''"
proof -
  let ?E = "dr_env D"
  have read: "V (ext t') = V (ext t)" if "GetMetadata ?E ai t = (r, t')" for ai t r t'
    using frameD [OF reads_keep(1) [OF store] that] by (simp add: keeps_def)
  obtain c s0 t where body: "(if pbq_VolumeId req = [] then ret (Inl (StatusErr InvalidArgument ''VolumeId cannot be empty''))
     else if pbq_TargetPath req = [] then ret (Inl (StatusErr InvalidArgument ''TargetPath cannot be empty''))
     else
       tryG (failWith D NotFound (GetVolume ?E (pbq_VolumeId req) False True)) (\<lambda>vol.
       tryG (failWith D Unknown (GetMetadata ?E (v_Ai vol))) (\<lambda>md.
       bindG (derefG (v_BindMountPaths vol)) (\<lambda>ps.
       tryG (failWith D Unknown (storeMetadata D (vol\<lparr>v_BindMountPaths := Some (fold (x_ss_delete ?E) (splitOn CHR '','' (mdGet md ''bind_mount'')) ps)\<rparr>)
         (md(''pod_name'' \<mapsto> [], ''pod_namespace'' \<mapsto> [], ''pod_uid'' \<mapsto> [], ''k8s_service_account'' \<mapsto> [])))) (\<lambda>_.
       bindG (UnBindMount ?E (vol\<lparr>v_BindMountPaths := Some (fold (x_ss_delete ?E) (splitOn CHR '','' (mdGet md ''bind_mount'')) ps)\<rparr>)
         (pbq_TargetPath req)) (\<lambda>_. ret (Inr ()))))))) s0 = (Ret (Inr u), t)"
    and s0: "V (ext s0) = V (ext s)" and s': "ext s' = ext t"
    by (rule serve_value [OF run [unfolded NodeUnpublishVolume_def Let_def] quiet]) simp
  from body obtain vol s1 md s2 ps s3 v r where
    get: "GetVolume ?E (pbq_VolumeId req) False True s0 = (Ret (Inr vol), s1)"
    and md: "GetMetadata ?E (v_Ai vol) s1 = (Ret (Inr md), s2)"
    and set: "storeMetadata D (vol\<lparr>v_BindMountPaths := ps\<rparr>) (md(''pod_name'' \<mapsto> [], ''pod_namespace'' \<mapsto> [],
      ''pod_uid'' \<mapsto> [], ''k8s_service_account'' \<mapsto> [])) s2 = (Ret (Inr ()), s3)"
    and unbind: "UnBindMount ?E v (pbq_TargetPath req) s3 = (r, t)"
    by (auto simp: failWith_def go_eval split: if_splits prod.splits outcome.splits sum.splits dest!: derefG_state)
  have "V (ext s1) = V (ext s0)"
    using frameD [OF reads_keep(2) [OF store] get] by (simp add: keeps_def)
  moreover have "V (ext t) = V (ext s3)"
    using frameD [OF UnBindMount_keeps [OF quiet] unbind] by (simp add: keeps_def)
  moreover have "md = V (ext s1) (ai_Name (v_Ai vol))"
    using md store by (auto simp: GetMetadata_def sdkCall_def go_eval sdkResult_def derefG_def md_store_def
        split: prod.splits option.splits outcome.splits sum.splits)
  ultimately show ?thesis
    using storeMetadata_adds [OF store set] read [OF md] s0 s'
    by (auto simp: map_add_def split: option.splits)
qed

text \<open>A bind mount that \<open>NodePublishVolume\<close> recorded stays recorded: after a successful
  \<open>NodeUnpublishVolume\<close>, of this target or another, the volume's metadata still list the target.\<close>

theorem unpublish_leaves_record:
  assumes "md_store (dr_env D) V" and "md_quiet (dr_env D) V"
    and "NodePublishVolume D ctx req s = (Ret (Inr u), s1)" and "V (ext t) = V (ext s1)"
    and "NodeUnpublishVolume D ctx' req' t = (Ret (Inr u'), t')"
  shows "\<exists>ps. V (ext t') (pbq_VolumeId req) ''bind_mount'' =
    Some (joinWith '','' (x_ss_list (dr_env D) (x_ss_add (dr_env D) (pbq_TargetPath req) ps)))"
  using NodePublish_ends [OF assms(1), of ctx req] assms(3,4)
    NodeUnpublish_keeps_record [OF assms(1,2,5), of "pbq_VolumeId req"]
  by (auto simp: ends_def listed_def)

end
