(* ===== verification/Node_No_Panic.thy ===== *)
theory Node_No_Panic
  imports No_Panic Node_Lifecycle
begin

text \<open>
  Freedom from panics on a node. Besides the answers of the backend, the node's handlers read the
  output of the host's programs without a check. \<open>node_wf\<close> says what both must hold for that; under it
  the handlers of the node service do not panic, but for the requests that the last section names.
\<close>

section \<open>A host whose answers can be read\<close>

text \<open>Round-robin login picks one of the first two addresses.\<close>

definition dialable :: "app_instance \<Rightarrow> bool" where
  "dialable ai \<longleftrightarrow> whole ai \<and> (case ai_StorageInstances ai of [] \<Rightarrow> False | si # _ \<Rightarrow> 2 \<le> length (si_Ips si))"

definition goodReload :: "app_instance option sdkres \<Rightarrow> bool" where
  "goodReload r \<longleftrightarrow> answered r \<and> (case fst r of None \<Rightarrow> True | Some ai \<Rightarrow> dialable ai)"

text \<open>An initiator that is looked up is there, or the error is one that the code expects.\<close>

definition goodInit :: "initiator option sdkres \<Rightarrow> bool" where
  "goodInit r = (case r of
      (p, None, _) \<Rightarrow> p \<noteq> None
    | (_, Some a, err) \<Rightarrow> ae_Name a = ''NotFoundError'' \<or> err \<noteq> None)"

definition goodLsblk :: "goerr + LsBlk option \<Rightarrow> bool" where
  "goodLsblk r = (case r of
      Inl _ \<Rightarrow> True
    | Inr None \<Rightarrow> False
    | Inr (Some b) \<Rightarrow> (case lb_BlockDevices b of [] \<Rightarrow> True | e # _ \<Rightarrow> e \<noteq> None))"

definition host_wf :: "'w env \<Rightarrow> bool" where
  "host_wf E \<longleftrightarrow>
     (\<forall>f w dat. fst (x_read_file E f w) = (dat, None) \<longrightarrow> 2 \<le> length (splitOn CHR ''='' (TrimSpace dat))) \<and>
     (\<forall>args w out. fst (x_exec E (''sh'' # args) w) = (out, None) \<longrightarrow> Fields out \<noteq> []) \<and>
     (\<forall>out. goodLsblk (x_lsblk_json E out)) \<and>
     (\<forall>w. fst (x_rand_intn E 2 w) \<in> {0, 1}) \<and>
     (\<forall>w. length (fst (x_new_uuid E w)) \<le> 58)"

definition node_wf :: "'w env \<Rightarrow> bool" where
  "node_wf E \<longleftrightarrow> sdk_wf E \<and> host_wf E \<and>
     (\<forall>a w. goodReload (fst (x_ai_reload E a w))) \<and>
     (\<forall>i w. goodInit (fst (x_init_get E i w))) \<and>
     (\<forall>n i f w. answered (fst (x_init_create E n i f w))) \<and>
     (\<forall>si w. answered (fst (x_acl_get E si w)))"

lemma node_wfD:
  assumes "node_wf E"
  shows "sdk_wf E" "host_wf E" "goodReload (fst (x_ai_reload E a w))" "goodInit (fst (x_init_get E i w))"
    "answered (fst (x_init_create E n i f w))" "answered (fst (x_acl_get E si w))"
  using assms by (simp_all add: node_wf_def)

section \<open>Programs\<close>

lemma returns_RunCmd:
  assumes "TrimSpace c \<noteq> []"
    and "\<And>w. Q (fst (x_exec E (TrimSpace c # filter (\<lambda>c. c \<noteq> []) (map TrimSpace cs)) w))"
  shows "returns (RunCmd E (c # cs)) Q"
  using assms by (simp add: RunCmd_def Let_def returns_extG)

lemma returns_RunCmd_any: "TrimSpace c \<noteq> [] \<Longrightarrow> returns (RunCmd E (c # cs)) anything"
  by (rule returns_RunCmd) simp_all

lemma TrimSpace_nonspace:
  assumes "\<not> isSpace c"
  shows "TrimSpace (c # cs) \<noteq> []"
proof -
  have "c \<in> set (dropWhile isSpace xs)" if "c \<in> set xs" for xs
    using that assms by (induction xs) auto
  from this [of "rev (c # cs)"] assms show ?thesis
    by (auto simp: TrimSpace_def trimBytes_def)
qed

lemma program_letters [simp]:
  "\<not> isSpace CHR ''s''" "\<not> isSpace CHR ''l''" "\<not> isSpace CHR ''g''" "\<not> isSpace CHR ''r''" "\<not> isSpace CHR ''m''"
  "\<not> isSpace CHR ''u''" "\<not> isSpace CHR ''i''" "\<not> isSpace CHR ''b''" "\<not> isSpace CHR ''x''"
  by (simp_all add: isSpace_def)

declare TrimSpace_nonspace [simp]

lemma deviceFromMount_returns:
  assumes "host_wf E"
  shows "returns (deviceFromMount E file) anything"
proof -
  have sh: "TrimSpace ''sh'' = ''sh''" by (simp add: TrimSpace_def trimBytes_def isSpace_def)
  have "returns (RunCmd E [''sh'', ''-c'', cmd]) (\<lambda>(out, err). err = None \<longrightarrow> Fields out \<noteq> [])" for cmd
    using assms by (intro returns_RunCmd) (auto simp: sh host_wf_def split: prod.splits)
  then show ?thesis
    unfolding deviceFromMount_def readlink_def
    by (rule returns_bind) (auto intro!: returns_ret returns_bind [OF returns_index [where Q = anything]]
        returns_bind [OF returns_RunCmd_any] split: option.splits)
qed

lemma findFs_returns:
  assumes "host_wf E"
  shows "returns (findFs E device) anything"
proof -
  have good: "goodLsblk (x_lsblk_json E out)" for out
    using assms by (simp add: host_wf_def)
  have "returns (case x_lsblk_json E out of
         Inl e \<Rightarrow> ret (Inl e)
       | Inr data \<Rightarrow>
           bindG (derefG data) (\<lambda>data. case lb_BlockDevices data of
             [] \<Rightarrow>
               bindG (RunCmd E [''lsblk'', ''-f'']) (\<lambda>(_, err). case err of
                 Some e \<Rightarrow> ret (Inl e)
               | None \<Rightarrow> ret (Inl (PlainErr ''No block devices returned from lsblk'')))
           | entry # _ \<Rightarrow>
               bindG (derefG entry) (\<lambda>entry.
               if lbe_FsType entry = [] then ret (Inl (PlainErr ''No filesystem found''))
               else ret (Inr (lbe_FsType entry))))) anything" for out
    using good [of out]
    by (auto simp: goodLsblk_def intro!: returns_ret returns_bind [OF returns_RunCmd_any]
        split: sum.splits option.splits list.splits)
  then show ?thesis
    unfolding findFs_def
    by (intro returns_bind [OF returns_RunCmd_any]) (auto intro!: returns_ret split: option.splits)
qed

lemma format_device_returns: "returns (format_device E device fs args timeout) anything"
  unfolding format_device_def
proof (rule fmt.loop_returns)
  fix c
  show "returns (formatOnce E ([''mkfs.'' @ fs] @ args @ [device]) c) (\<lambda>r. case r of Inl d \<Rightarrow> True | Inr _ \<Rightarrow> True)"
    unfolding formatOnce_def append_Cons append_Nil
    by (rule returns_bind [OF returns_RunCmd_any]) (auto intro!: returns_ret split: sum.splits)
qed (simp_all add: returns_sleepG)

lemma sizeLoop_returns: "returns (sizeLoop E device n sz) anything"
proof (induction n arbitrary: sz)
  case 0
  show ?case
    by (subst sizeLoop.simps) (auto simp: Let_def split_beta intro!: returns_bind [OF returns_RunCmd_any] returns_ret)
next
  case (Suc n)
  show ?case
    by (subst sizeLoop.simps)
      (auto simp: Let_def split_beta intro!: returns_bind [OF returns_RunCmd_any] returns_ret Suc)
qed

section \<open>The host side of a volume\<close>

text \<open>A volume that was looked up with its metadata.\<close>

definition nodeVolume :: "goerr + volume \<Rightarrow> bool" where
  "nodeVolume r = (case r of Inl _ \<Rightarrow> True | Inr v \<Rightarrow> whole (v_Ai v) \<and> v_BindMountPaths v \<noteq> None)"

lemma findMnt_returns: "returns (findMnt E device) anything"
  unfolding findMnt_def by (intro returns_bind [OF returns_RunCmd_any]) (auto intro!: returns_ret)

lemma Format_returns:
  assumes "host_wf E"
  shows "returns (Format E v fs args timeout) anything"
  unfolding Format_def
  by (auto intro!: returns_ret returns_bind [OF findFs_returns [OF assms]] returns_bind [OF findMnt_returns]
      returns_try [OF format_device_returns] split: sum.splits)

lemma mount_dev_returns:
  assumes "host_wf E"
  shows "returns (mount_dev E source dest opts fs) anything"
proof -
  have stat: "returns (extG ev f) anything" for ev and f :: "'a \<Rightarrow> 'b \<times> 'a"
    by (rule returns_extG) simp
  have mkdir: "returns (if b then extG ev f else ret None) anything" for b ev and f :: "'a \<Rightarrow> 'b option \<times> 'a"
    by (simp add: stat returns_ret)
  show ?thesis
    unfolding mount_dev_def Let_def
    by (auto intro!: returns_bind [OF stat] returns_bind [OF mkdir] returns_bind [OF deviceFromMount_returns [OF assms]]
        returns_bind [OF returns_RunCmd_any] returns_ret split: option.splits sum.splits)
qed

lemma Mount_returns: "host_wf E \<Longrightarrow> returns (Mount E v dest opts fs) anything"
  unfolding Mount_def by (auto intro!: returns_ret returns_try [OF mount_dev_returns])

lemma BindMount_returns:
  assumes "host_wf E"
  shows "returns (BindMount E v dest fs) (\<lambda>r. case r of Inl _ \<Rightarrow> True | Inr v' \<Rightarrow> v_BindMountPaths v' \<noteq> None)"
  unfolding BindMount_def by (auto intro!: returns_ret returns_try [OF mount_dev_returns [OF assms]])

lemma unmount_returns: "returns (unmount E path) anything"
  unfolding unmount_def
  by (intro returns_bind [OF returns_RunCmd_any] returns_bind [OF returns_extG [where Q = anything]])
    (auto intro!: returns_ret)

lemma Unmount_returns: "returns (Unmount E v) (\<lambda>r. case r of Inl _ \<Rightarrow> True | Inr v' \<Rightarrow> v_Ai v' = v_Ai v)"
  unfolding Unmount_def by (auto intro!: returns_ret returns_try [OF unmount_returns])

lemma UnBindMount_returns:
  assumes "v_BindMountPaths v \<noteq> None"
  shows "returns (UnBindMount E v path) anything"
  unfolding UnBindMount_def using assms
  by (auto intro!: returns_ret returns_bind [OF unmount_returns] split: sum.splits)

lemma ExpandFs_returns:
  assumes "host_wf E" and "fs = Ext4 \<or> fs = Xfs"
  shows "returns (ExpandFs E path fs gib) anything"
proof -
  have ret: "returns (bindG (RunCmd E (c # cs)) (\<lambda>(_, err). ret (case err of Some e \<Rightarrow> Inl e | None \<Rightarrow> Inr ()))) anything"
    if "TrimSpace c \<noteq> []" for c cs
    by (rule returns_bind [OF returns_RunCmd_any [OF that]]) (auto intro!: returns_ret)
  have "Xfs \<noteq> Ext4" by (simp add: Ext4_def Xfs_def)
  then have "returns (expandFs E device fs) anything" for device
    unfolding expandFs_def using assms(2) ret by auto
  then show ?thesis
    unfolding ExpandFs_def checkDeviceSize_def
    by (intro returns_try [OF deviceFromMount_returns [OF assms(1)]] returns_try [OF sizeLoop_returns]) simp_all
qed

section \<open>The access of the host\<close>

lemma GetVolume_node_returns:
  assumes wf: "sdk_wf E"
  shows "returns (GetVolume E n False True) nodeVolume"
  unfolding GetVolume_def
proof (cases "n = []")
  case False
  have conv: "returns (aiToClientVol E (Some ai) False True True) nodeVolume" if ai: "whole ai" for ai
  proof -
    from ai obtain si dv acl t where p: "parts ai = Some (si, dv, acl, t)"
      by (auto simp: whole_def)
    then have part: "si_AclPolicy si = Some acl" "ai_AppTemplate ai = Some t"
      by (auto simp: parts_def split: list.splits option.splits)
    have first: "returns (firstVolume ai) (\<lambda>x. x = (si, dv))"
      by (simp add: returns_def parts_run [OF p])
    show ?thesis
      unfolding aiToClientVol_def option.case Let_def readLimits_off
      by (rule returns_bind [OF first])
        (auto simp: part nodeVolume_def withMetadata_def ai intro!: returns_try [OF GetMetadata_returns [OF wf]] returns_ret)
  qed
  with False show "returns (if n = [] then ret (Inl (PlainErr ''Volume name cannot be an empty string''))
      else tryG (sdkCall (AiGet n) (x_ai_get E n)) (\<lambda>newAi. aiToClientVol E newAi False True True)) nodeVolume"
    by (auto intro!: returns_instance simp: nodeVolume_def wf [unfolded sdk_wf_def])
qed (simp add: nodeVolume_def returns_ret)

lemma Online_returns:
  assumes "node_wf E"
  shows "returns (Online E v) (\<lambda>r. case r of Inl _ \<Rightarrow> True | Inr w \<Rightarrow> whole (v_Ai w) \<and> 2 \<le> length (v_Ips w))"
    (is "returns _ ?Q")
proof -
  have get: "returns (sdkCall ev (x_ai_reload E a)) (\<lambda>r. case r of Inl _ \<Rightarrow> True | Inr p \<Rightarrow> \<exists>ai. p = Some ai \<and> dialable ai)" for ev a
  proof (rule returns_sdkCall)
    fix w
    have "goodReload (fst (x_ai_reload E a w))" using assms by (rule node_wfD)
    then show "case sdkResult (fst (x_ai_reload E a w)) of Inl _ \<Rightarrow> True | Inr p \<Rightarrow> \<exists>ai. p = Some ai \<and> dialable ai"
      by (auto simp: goodReload_def answered_def sdkResult_def split: prod.splits option.splits)
  qed
  have conv: "returns (bindG (aiToClientVol E (Some ai) False False c) (\<lambda>res.
      bindG (derefG (case res of Inl _ \<Rightarrow> None | Inr v \<Rightarrow> Some v)) (\<lambda>v. ret (Inr v)))) ?Q" if ai: "dialable ai" for ai c
  proof -
    from ai obtain si dv acl t where p: "parts ai = Some (si, dv, acl, t)"
      by (auto simp: whole_def dialable_def)
    with ai have "2 \<le> length (si_Ips si)"
      by (auto simp: dialable_def parts_def split: list.splits option.splits)
    with ai show ?thesis
      by (simp add: returns_def go_eval parts_run [OF p] clientVol_def dialable_def)
  qed
  have reload: "returns (Reload E v False False) ?Q"
    unfolding Reload_def by (rule returns_try [OF get]) (auto intro!: conv)
  show ?thesis
    unfolding Online_def
    by (rule returns_try [OF returns_sdkCall [where Q = anything]]) (auto intro: reload)
qed

lemma Login_returns:
  assumes "host_wf E" and "2 \<le> length (v_Ips v)"
  shows "returns (Login E v multipath round_robin chap) (\<lambda>r. case r of Inl _ \<Rightarrow> True | Inr w \<Rightarrow> v_Ai w = v_Ai v)"
proof -
  have robin: "returns (robin E) (\<lambda>i. i \<in> {0, 1})"
    unfolding robin_def using assms(1) by (intro returns_extG) (simp add: host_wf_def)
  have "returns (loginIps E v multipath round_robin) anything"
    unfolding loginIps_def using assms(2)
    by (auto intro!: returns_ret returns_bind [OF robin] returns_bind [OF returns_index [where Q = anything]])
  then show ?thesis
    unfolding Login_def Let_def
    by (rule returns_bind, intro returns_bind [OF returns_extG [where Q = anything]])
      (auto intro!: returns_ret split: option.splits)
qed

lemma Logout_returns: "returns (Logout E v) (\<lambda>r. case r of Inl _ \<Rightarrow> True | Inr w \<Rightarrow> v_Ai w = v_Ai v)"
  unfolding Logout_def
  by (rule returns_bind [OF returns_extG [where Q = anything]]) (auto intro!: returns_ret split: option.splits)

text \<open>The initiator: there when no error is reported, but for the nil one without an error.\<close>

lemma toInitiator_returns: "p \<noteq> None \<Longrightarrow> returns (toInitiator p) (\<lambda>r. \<exists>ci. r = Inr (Some ci))"
  unfolding toInitiator_def by (auto intro!: returns_bind [OF returns_deref] returns_ret)

lemma GenName_short_returns:
  assumes "host_wf E"
  shows "returns (GenName E []) anything"
proof -
  have "returns (GenId E) (\<lambda>n. length n \<le> 58)"
    unfolding GenId_def using assms by (intro returns_extG) (simp add: host_wf_def)
  then show ?thesis
    unfolding GenName_def by (auto intro!: returns_bind returns_ret)
qed

lemma CreateGetInitiator_returns:
  assumes wf: "node_wf E"
  shows "returns (CreateGetInitiator E) (\<lambda>r. case r of Inl _ \<Rightarrow> True | Inr p \<Rightarrow> \<exists>ci. p = Some ci)" (is "returns _ ?Q")
proof -
  note host = node_wfD(2) [OF wf]
  have readable: "returns (extG (ReadFile initiatorFile) (x_read_file E initiatorFile))
      (\<lambda>(dat, err). err = None \<longrightarrow> 2 \<le> length (splitOn CHR ''='' (TrimSpace dat)))"
    using host by (intro returns_extG) (auto simp: host_wf_def split: prod.splits)
  have iqn: "returns (GetClientIqn E) anything"
    unfolding GetClientIqn_def
    by (rule returns_bind [OF readable])
      (auto intro!: returns_ret returns_bind [OF returns_index [where Q = anything]] split: option.splits)
  have get: "returns (extG (InitGet i) (x_init_get E i)) goodInit" for i
    by (intro returns_extG node_wfD(4) [OF wf])
  have found: "returns (toInitiator (Some i)) ?Q" for i
    by (rule returns_weaken [OF toInitiator_returns]) auto
  have created: "returns (sdkCall (InitCreate n i f) (x_init_create E n i f))
      (\<lambda>r. case r of Inl _ \<Rightarrow> True | Inr p \<Rightarrow> p \<noteq> None)" for n i f
    using answered_result [OF node_wfD(5) [OF wf]] by (intro returns_sdkCall) (auto split: sum.splits)
  have make: "returns (bindG (GenName E []) (\<lambda>n. tryG (sdkCall (InitCreate n i True) (x_init_create E n i True)) toInitiator)) ?Q" for i
    by (rule returns_bind [OF GenName_short_returns [OF host]], rule returns_try [OF created]) (auto intro!: found)
  show ?thesis
    unfolding CreateGetInitiator_def
    by (rule returns_try [OF iqn], simp, rule returns_bind [OF get])
      (use found make in \<open>auto simp: goodInit_def intro!: returns_ret split: option.splits\<close>)
qed

lemma updateAcl_returns:
  assumes "node_wf E" and "whole (v_Ai v)" and "ini \<noteq> None"
  shows "returns (updateAcl E v ini f) anything"
proof -
  from assms(2) obtain si dv acl t where p: "parts (v_Ai v) = Some (si, dv, acl, t)"
    by (auto simp: whole_def)
  then have si: "returns (indexG (ai_StorageInstances (v_Ai v)) 0) (\<lambda>x. x = si)" and acl: "si_AclPolicy si = Some acl"
    by (auto simp: parts_def intro!: returns_index split: list.splits option.splits)
  have set: "returns (tryG (sdkCall ev g) (\<lambda>_. ret (Inr ()))) anything" for ev and g :: "'a \<Rightarrow> 'b sdkres \<times> 'a"
    by (rule returns_try [OF returns_sdkCall [where Q = anything]]) (auto intro!: returns_ret)
  from assms(3) obtain ci where ini: "ini = Some ci" by blast
  show ?thesis
    unfolding updateAcl_def ini derefG_Some bindG_ret Let_def
    by (rule returns_bind [OF si]) (auto simp: acl intro!: returns_sdkDeref set node_wfD(6) [OF assms(1)])
qed

section \<open>The handlers\<close>

definition mountWhole :: "vol_cap option \<Rightarrow> bool" where
  "mountWhole vc = (case vc of None \<Rightarrow> True | Some c \<Rightarrow> vcp_AccessType c \<noteq> MountAccess None)"

lemma RegisterVolumeCapability_returns:
  "mountWhole vc \<Longrightarrow> returns (RegisterVolumeCapability D md vc) anything"
  by (auto simp: mountWhole_def RegisterVolumeCapability_def Let_def intro!: returns_ret
      split: option.splits access_type.splits)

lemma storeMetadata_returns: "sdk_wf (dr_env D) \<Longrightarrow> returns (storeMetadata D vol md) anything"
  unfolding storeMetadata_def by (auto intro!: returns_try [OF SetMetadata_returns] returns_ret)

lemma returns_fail: "returns m anything \<Longrightarrow> returns (failWith D c m) anything"
  by (erule returns_failWith) simp_all

lemma returns_orElse:
  assumes "returns m A" and "Q d" and "\<And>x. A (Inr x) \<Longrightarrow> Q x"
  shows "returns (orElse m d) Q"
  unfolding orElse_def by (rule returns_bind [OF assms(1)]) (auto intro!: returns_ret assms(2,3) split: sum.splits)

lemma stageMount_returns:
  assumes "host_wf (dr_env D)"
  shows "returns (stageMount D vol md vc path) anything"
proof -
  have fmt: "returns (stageFormat D vol md fs) anything" for fs
    unfolding stageFormat_def Let_def
    by (auto intro!: returns_ret returns_try [OF returns_fail [OF Format_returns [OF assms]]])
  show ?thesis
    unfolding stageMount_def Let_def
    by (auto intro!: returns_ret returns_try [OF fmt] returns_try [OF returns_fail [OF Mount_returns [OF assms]]]
        split: access_type.splits)
qed

lemma NodeStage_returns:
  assumes wf: "node_wf (dr_env D)" and trace: "ctx_TraceId ctx \<noteq> None" and cap: "mountWhole (sgq_VolumeCapability req)"
  shows "returns (NodeStageVolume D ctx req) anything"
proof -
  let ?E = "dr_env D"
  note sdk = node_wfD(1) [OF wf] and host = node_wfD(2) [OF wf]
  have get: "returns (failWith D c (GetVolume ?E n False True)) nodeVolume" for c n
    by (rule returns_failWith [OF GetVolume_node_returns [OF sdk]]) (simp_all add: nodeVolume_def)
  have md: "returns (failWith D c (GetMetadata ?E ai)) anything" for c ai
    by (rule returns_fail [OF GetMetadata_returns [OF sdk]])
  have reg: "returns (failWith D c (RegisterVolumeCapability D m (Some vc))) anything"
    if "sgq_VolumeCapability req = Some vc" for c m vc
    using cap that by (intro returns_fail RegisterVolumeCapability_returns) simp
  have ini: "returns (failWith D c (CreateGetInitiator ?E)) (\<lambda>r. case r of Inl _ \<Rightarrow> True | Inr p \<Rightarrow> \<exists>ci. p = Some ci)" for c
    by (rule returns_failWith [OF CreateGetInitiator_returns [OF wf]]) simp_all
  have acl: "returns (failWith D c (RegisterAcl ?E v p)) anything" if "whole (v_Ai v)" "\<exists>ci. p = Some ci" for c v p
    unfolding RegisterAcl_def using that by (intro returns_fail updateAcl_returns [OF wf]) auto
  have online: "returns (failWith D c (Online ?E v))
      (\<lambda>r. case r of Inl _ \<Rightarrow> True | Inr w \<Rightarrow> whole (v_Ai w) \<and> 2 \<le> length (v_Ips w))" for c v
    by (rule returns_failWith [OF Online_returns [OF wf]]) simp_all
  have login: "returns (failWith D c (Login ?E v mp rr chap)) anything" if "2 \<le> length (v_Ips v)" for c v mp rr chap
    by (rule returns_fail, rule returns_weaken [OF Login_returns [OF host that]]) simp
  have store: "returns (failWith D c (storeMetadata D v m)) anything" for c v m
    by (rule returns_fail [OF storeMetadata_returns [OF sdk]])
  have mounted: "returns (tryG (stageMount D v m vc path) (\<lambda>(v, m). failWith D c (storeMetadata D v m))) anything"
    for v m vc path c
    by (rule returns_try [OF stageMount_returns [OF host]]) (auto intro: store)
  show ?thesis
    unfolding NodeStageVolume_def StripAndServe_def Let_def split_beta
    by (intro serve_returns trace)
      (auto intro!: returns_ret returns_try [OF get] returns_try [OF md] returns_try [OF reg]
        returns_try [OF ini] returns_try [OF acl] returns_try [OF online] returns_try [OF login]
        mounted [unfolded split_beta] simp: nodeVolume_def split: option.splits)
qed

lemma NodeUnpublish_returns:
  assumes wf: "node_wf (dr_env D)" and trace: "ctx_TraceId ctx \<noteq> None"
  shows "returns (NodeUnpublishVolume D ctx req) anything"
proof -
  note sdk = node_wfD(1) [OF wf]
  have get: "returns (failWith D c (GetVolume (dr_env D) n False True)) nodeVolume" for c n
    by (rule returns_failWith [OF GetVolume_node_returns [OF sdk]]) (simp_all add: nodeVolume_def)
  have unbind: "returns (bindG (UnBindMount (dr_env D) (v\<lparr>v_BindMountPaths := Some ps\<rparr>) path) (\<lambda>_. ret (Inr ()))) anything"
    for v ps path
    by (rule returns_bind [OF UnBindMount_returns]) (simp_all add: returns_ret)
  show ?thesis
    unfolding NodeUnpublishVolume_def Let_def
    by (intro serve_returns trace)
      (auto intro!: returns_ret returns_try [OF get] returns_try [OF returns_fail [OF GetMetadata_returns [OF sdk]]]
        returns_try [OF returns_fail [OF storeMetadata_returns [OF sdk]]] unbind simp: nodeVolume_def)
qed

lemma NodeExpand_returns:
  assumes wf: "node_wf (dr_env D)" and trace: "ctx_TraceId ctx \<noteq> None"
    and range: "exq_CapacityRange req = Some cr"
    and fs: "\<And>ai w md. fst (fst (x_md_get (dr_env D) ai w)) = Some md \<Longrightarrow> mdGet md ''fs_type'' \<in> {Ext4, Xfs}"
  shows "returns (NodeExpandVolume D ctx req) anything"
proof -
  note sdk = node_wfD(1) [OF wf]
  have get: "returns (failWith D c (GetVolume (dr_env D) n False False)) goodVol" for c n
    by (rule returns_failWith [OF GetVolume_returns [OF sdk]]) (simp_all add: goodVol_def)
  have md: "returns (failWith D c (GetMetadata (dr_env D) ai))
      (\<lambda>r. case r of Inl _ \<Rightarrow> True | Inr md \<Rightarrow> mdGet md ''fs_type'' \<in> {Ext4, Xfs})" for c ai
  proof (rule returns_failWith)
    have "case r of Inl _ \<Rightarrow> True | Inr md \<Rightarrow> mdGet md ''fs_type'' \<in> {Ext4, Xfs}"
      if "GetMetadata (dr_env D) ai s = (Ret r, s')" for s r s'
      using that fs [of ai "ext s"] by (auto simp: GetMetadata_def go_eval derefG_def sdkResult_def sdkCall_def
        split: prod.splits outcome.splits option.splits sum.splits)
    with GetMetadata_returns [OF sdk] show "returns (GetMetadata (dr_env D) ai)
        (\<lambda>r. case r of Inl _ \<Rightarrow> True | Inr md \<Rightarrow> mdGet md ''fs_type'' \<in> {Ext4, Xfs})"
      unfolding returns_def by metis
  qed simp_all
  have expand: "returns (failWith D c (ExpandFs (dr_env D) p fs n)) anything" if "fs \<in> {Ext4, Xfs}" for c p fs n
    using that by (intro returns_fail ExpandFs_returns node_wfD(2) [OF wf]) simp
  show ?thesis
    unfolding NodeExpandVolume_def
    by (intro serve_returns trace)
      (auto simp: range simp del: insert_iff intro!: returns_ret returns_try [OF get] returns_try [OF md] returns_try [OF expand])
qed

lemma NodeStats_returns:
  assumes wf: "node_wf (dr_env D)" and trace: "ctx_TraceId ctx \<noteq> None"
  shows "returns (NodeGetVolumeStats D ctx vid) anything"
proof -
  have get: "returns (failWith D c (GetVolume (dr_env D) n False False)) goodVol" for c n
    by (rule returns_failWith [OF GetVolume_returns [OF node_wfD(1) [OF wf]]]) (simp_all add: goodVol_def)
  have usage: "returns (GetUsage v) anything" if "whole (v_Ai v)" for v
    unfolding GetUsage_def Let_def by (rule returns_bind [OF whole_run(1) [OF that]]) (auto intro!: returns_ret)
  show ?thesis
    unfolding NodeGetVolumeStats_def
    by (intro serve_returns trace)
      (auto intro!: returns_try [OF get] returns_ret returns_bind [OF usage] simp: goodVol_def)
qed

text \<open>Unstaging goes on after errors: also after the one that leaves it without an initiator.\<close>

definition initiator_known :: "'w env \<Rightarrow> bool" where
  "initiator_known E \<longleftrightarrow> returns (CreateGetInitiator E) (\<lambda>r. \<exists>ci. r = Inr (Some ci))"

lemma NodeUnstage_returns:
  assumes wf: "node_wf (dr_env D)" and trace: "ctx_TraceId ctx \<noteq> None" and known: "initiator_known (dr_env D)"
  shows "returns (NodeUnstageVolume D ctx req) anything"
proof -
  let ?E = "dr_env D"
  note sdk = node_wfD(1) [OF wf]
  have get: "returns (failWith D c (GetVolume ?E n False True)) nodeVolume" for c n
    by (rule returns_failWith [OF GetVolume_node_returns [OF sdk]]) (simp_all add: nodeVolume_def)
  have un: "returns (orElse (Unmount ?E v) v) (\<lambda>w. v_Ai w = v_Ai v)" for v
    by (rule returns_orElse [OF Unmount_returns]) simp_all
  have out: "returns (orElse (Logout ?E v) v) (\<lambda>w. v_Ai w = v_Ai v)" for v
    by (rule returns_orElse [OF Logout_returns]) simp_all
  have md: "returns (orElse (GetMetadata ?E ai) m) anything" for ai m
    by (rule returns_orElse [OF GetMetadata_returns [OF sdk]]) simp_all
  have ini: "returns (orElse (CreateGetInitiator ?E) None) (\<lambda>p. p \<noteq> None)"
    unfolding orElse_def by (rule returns_bind [OF known [unfolded initiator_known_def]]) (auto intro!: returns_ret)
  have acl: "returns (UnregisterAcl ?E v p) anything" if "whole (v_Ai v)" "p \<noteq> None" for v p
    unfolding UnregisterAcl_def by (rule updateAcl_returns [OF wf that])
  have tail: "returns (bindG (if b then Delete ?E v False else ret (Inr ())) (\<lambda>_. ret (Inr ()))) anything" for b v
    by (rule returns_bind [where A = anything]) (auto intro!: returns_ret Delete_returns)
  have last: "returns (bindG (orElse (CreateGetInitiator ?E) None) (\<lambda>ini. bindG (UnregisterAcl ?E v ini) (\<lambda>_.
      bindG (if b then Delete ?E v False else ret (Inr ())) (\<lambda>_. ret (Inr ()))))) anything" if "whole (v_Ai v)" for v b
    by (rule returns_bind [OF ini], rule returns_bind [OF acl [OF that]]) (simp_all add: tail)
  have stored: "returns (bindG (storeMetadata D v m) (\<lambda>_. bindG (orElse (Logout ?E v) v) (\<lambda>v.
      bindG (orElse (CreateGetInitiator ?E) None) (\<lambda>ini. bindG (UnregisterAcl ?E v ini) (\<lambda>_.
      bindG (if b then Delete ?E v False else ret (Inr ())) (\<lambda>_. ret (Inr ()))))))) anything"
    if "whole (v_Ai v)" for v m b
    by (rule returns_bind [OF storeMetadata_returns [OF sdk]], rule returns_bind [OF out]) (use that in \<open>simp add: last\<close>)
  have rest: "returns (bindG (orElse (Unmount ?E v) v) (\<lambda>vol.
       bindG (orElse (GetMetadata ?E (v_Ai vol)) Map.empty) (\<lambda>md.
       bindG (storeMetadata D vol (md(''mount_path'' \<mapsto> []))) (\<lambda>_.
       bindG (orElse (Logout ?E vol) vol) (\<lambda>vol.
       bindG (orElse (CreateGetInitiator ?E) None) (\<lambda>ini.
       bindG (UnregisterAcl ?E vol ini) (\<lambda>_.
       bindG (if mdGet (md(''mount_path'' \<mapsto> [])) ''delete_on_unmount'' = ''true'' then Delete ?E vol False
              else ret (Inr ())) (\<lambda>_. ret (Inr ()))))))))) anything"
    if "whole (v_Ai v)" for v
    by (rule returns_bind [OF un], rule returns_bind [OF md]) (use that in \<open>simp add: stored del: fun_upd_apply\<close>)
  show ?thesis
    unfolding NodeUnstageVolume_def Let_def
    by (intro serve_returns trace) (auto intro!: returns_ret returns_try [OF get] rest simp: nodeVolume_def)
qed

text \<open>Publishing after a look-up that found the volume.\<close>

lemma publish_found_returns:
  assumes wf: "node_wf (dr_env D)" and vol: "nodeVolume (Inr vol)" and cap: "mountWhole (Some vc)"
  shows "returns (tryG (failWith D Unknown (GetMetadata (dr_env D) (v_Ai vol))) (\<lambda>md.
      tryG (failWith D InvalidArgument (RegisterVolumeCapability D md (Some vc))) (\<lambda>md.
      bindG (derefG (v_BindMountPaths vol)) (\<lambda>ps.
      tryG (failWith D Unknown (BindMount (dr_env D) (vol\<lparr>v_BindMountPaths := Some (g md ps)\<rparr>) path (mdGet md ''fs_type''))) (\<lambda>vol.
      bindG (derefG (v_BindMountPaths vol)) (\<lambda>ps.
      failWith D Unknown (storeMetadata D vol (h md ps)))))))) anything"
proof -
  let ?E = "dr_env D"
  note sdk = node_wfD(1) [OF wf] and host = node_wfD(2) [OF wf]
  have bind: "returns (failWith D c (BindMount ?E v path fs)) (\<lambda>r. case r of Inl _ \<Rightarrow> True | Inr v' \<Rightarrow> v_BindMountPaths v' \<noteq> None)"
    for c v fs by (rule returns_failWith [OF BindMount_returns [OF host]]) simp_all
  show ?thesis
    using vol by (auto simp: nodeVolume_def intro!: returns_try [OF returns_fail [OF GetMetadata_returns [OF sdk]]]
        returns_try [OF returns_fail [OF RegisterVolumeCapability_returns [OF cap]]] returns_try [OF bind]
        returns_fail [OF storeMetadata_returns [OF sdk]])
qed

section \<open>What panics and what does not\<close>

lemma serve_started:
  assumes "ctx_TraceId ctx = Some i" and "i \<noteq> []" and "\<not> isRunning (callKey D piece fn req) s"
  shows "fst (serve D ctx piece fn req body s) =
    fst (body (dr_sdkContext D (topctxt\<lparr>ctx_TraceId := Some i, ctx_ReqName := Some (joinWith ''.'' [piece, fn])\<rparr>))
      (setRunning (callKey D piece fn req) s))"
  using assms by (simp add: serve_run Let_def split_beta del: joinWith.simps)

lemma failWith_run:
  "failWith D c m s = (case m s of
      (Ret (Inl e), t) \<Rightarrow> (Ret (Inl (statusOf D c e)), t)
    | (Ret (Inr x), t) \<Rightarrow> (Ret (Inr x), t)
    | (Panic p, t) \<Rightarrow> (Panic p, t))"
  by (auto simp: failWith_def go_eval split: prod.splits outcome.splits sum.splits)


text \<open>C17: publishing panics exactly when the volume is not found: the error of the look-up is not looked at.\<close>

theorem publish_panics_iff:
  assumes "node_wf (dr_env D)" and "ctx_TraceId ctx = Some i" and "i \<noteq> []"
    and "pbq_VolumeId req \<noteq> []" and "pbq_StagingTargetPath req \<noteq> []" and "pbq_TargetPath req \<noteq> []"
    and "pbq_VolumeCapability req = Some vc" and "mountWhole (Some vc)"
    and "\<not> isRunning (callKey D ''node'' ''NodePublishVolume'' (ReqPublish req)) s"
  shows "(\<exists>p. fst (NodePublishVolume D ctx req s) = Panic p) =
    (\<exists>e. fst (GetVolume (dr_env D) (pbq_VolumeId req) False True
      (setRunning (callKey D ''node'' ''NodePublishVolume'' (ReqPublish req)) s)) = Ret (Inl e))"
proof -
  let ?s = "setRunning (callKey D ''node'' ''NodePublishVolume'' (ReqPublish req)) s"
  obtain r t where get: "GetVolume (dr_env D) (pbq_VolumeId req) False True ?s = (Ret r, t)" and good: "nodeVolume r"
    using GetVolume_node_returns [OF node_wfD(1) [OF assms(1)]] unfolding returns_def by blast
  have "fst (NodePublishVolume D ctx req s) = fst ((case r of
      Inl e \<Rightarrow> bindG (derefG None) | Inr v \<Rightarrow> bindG (derefG (Some v))) (\<lambda>vol.
      tryG (failWith D Unknown (GetMetadata (dr_env D) (v_Ai vol))) (\<lambda>md.
      tryG (failWith D InvalidArgument (RegisterVolumeCapability D md (Some vc))) (\<lambda>md.
      bindG (derefG (v_BindMountPaths vol)) (\<lambda>ps.
      tryG (failWith D Unknown (BindMount (dr_env D) (vol\<lparr>v_BindMountPaths :=
          Some (fold (x_ss_add (dr_env D)) (splitOn CHR '','' (mdGet md ''bind_mount'')) ps)\<rparr>)
        (pbq_TargetPath req) (mdGet md ''fs_type''))) (\<lambda>vol.
      bindG (derefG (v_BindMountPaths vol)) (\<lambda>ps.
      failWith D Unknown (storeMetadata D vol (podDetails (pbq_VolumeContext req)
        (md(''bind_mount'' \<mapsto> joinWith '','' (x_ss_list (dr_env D) ps))))))))))) t)"
    unfolding NodePublishVolume_def Let_def serve_started [OF assms(2,3,9)] assms(7)
    using assms(4-6) by (simp add: bindG_run [of "GetVolume _ _ _ _"] get split: sum.splits)
  note run = this
  show ?thesis
  proof (cases r)
    case (Inl e)
    with run get show ?thesis by (simp add: bindG_run derefG_run(1))
  next
    case (Inr vol)
    with good have "nodeVolume (Inr vol)" by simp
    from returns_no_panic [OF publish_found_returns [OF assms(1) this assms(8)]] run get Inr
    show ?thesis by (simp only: sum.case derefG_Some bindG_ret fst_conv outcome.inject sum.distinct) simp
  qed
qed

lemma panics_bind:
  assumes "returns m A" and "\<And>x t. A x \<Longrightarrow> fst (k x t) = Panic p"
  shows "fst (bindG m k s) = Panic p"
proof -
  from assms(1) obtain x t where "m s = (Ret x, t)" and "A x"
    unfolding returns_def by blast
  with assms(2) show ?thesis by (simp add: bindG_run)
qed

text \<open>C24: unstaging a volume on a host whose initiator name cannot be read panics: the error is logged, and
  the nil initiator is then read.\<close>

theorem unstage_panics_without_initiator:
  assumes "node_wf (dr_env D)" and "ctx_TraceId ctx = Some i" and "i \<noteq> []"
    and "sgq_VolumeId req \<noteq> []" and "sgq_StagingTargetPath req \<noteq> []"
    and "\<not> isRunning (callKey D ''node'' ''NodeUnstageVolume'' (ReqUnstage req)) s"
    and "fst (GetVolume (dr_env D) (sgq_VolumeId req) False True
      (setRunning (callKey D ''node'' ''NodeUnstageVolume'' (ReqUnstage req)) s)) = Ret (Inr vol)"
    and "\<And>w. snd (fst (x_read_file (dr_env D) initiatorFile w)) \<noteq> None"
  shows "fst (NodeUnstageVolume D ctx req s) = Panic ''invalid memory address or nil pointer dereference''"
proof -
  let ?E = "dr_env D" and ?nil = "''invalid memory address or nil pointer dereference''"
  note sdk = node_wfD(1) [OF assms(1)]
  have "returns (extG (ReadFile initiatorFile) (x_read_file ?E initiatorFile)) (\<lambda>(_, err). err \<noteq> None)"
    using assms(8) by (intro returns_extG) (simp add: split_beta)
  then have "returns (GetClientIqn ?E) (\<lambda>r. \<exists>e. r = Inl e)"
    unfolding GetClientIqn_def by (rule returns_bind) (auto intro!: returns_ret split: option.splits)
  then have "returns (CreateGetInitiator ?E) (\<lambda>r. \<exists>e. r = Inl e)"
    unfolding CreateGetInitiator_def by (rule returns_try) auto
  then have ini: "returns (orElse (CreateGetInitiator ?E) None) (\<lambda>p. p = None)"
    unfolding orElse_def by (rule returns_bind) (auto intro: returns_ret)
  have nil: "fst (bindG (UnregisterAcl ?E v None) k t) = Panic ?nil" for v k t
    by (simp add: UnregisterAcl_def updateAcl_def go_eval)
  have last: "fst (bindG (orElse (CreateGetInitiator ?E) None) (\<lambda>ini. bindG (UnregisterAcl ?E v ini) (k v)) t) = Panic ?nil" for v k t
    by (rule panics_bind [OF ini]) (simp add: nil)
  have out: "fst (bindG (orElse (Logout ?E v) v) (\<lambda>v. bindG (orElse (CreateGetInitiator ?E) None) (\<lambda>ini.
      bindG (UnregisterAcl ?E v ini) (k v))) t) = Panic ?nil" for v k t
    by (rule panics_bind [OF returns_orElse [OF Logout_returns, of anything]]) (simp_all add: last)
  have rest: "fst (bindG (orElse (Unmount ?E v) v) (\<lambda>vol.
       bindG (orElse (GetMetadata ?E (v_Ai vol)) Map.empty) (\<lambda>md.
       bindG (storeMetadata D vol (md(''mount_path'' \<mapsto> []))) (\<lambda>_.
       bindG (orElse (Logout ?E vol) vol) (\<lambda>vol.
       bindG (orElse (CreateGetInitiator ?E) None) (\<lambda>ini.
       bindG (UnregisterAcl ?E vol ini) (k md vol)))))) t) = Panic ?nil" for v k t
    by (rule panics_bind [OF returns_orElse [OF Unmount_returns, of anything]], simp, simp,
      rule panics_bind [OF returns_orElse [OF GetMetadata_returns [OF sdk], of anything]], simp, simp,
      rule panics_bind [OF storeMetadata_returns [OF sdk]], rule out)
  obtain t where get: "GetVolume ?E (sgq_VolumeId req) False True
      (setRunning (callKey D ''node'' ''NodeUnstageVolume'' (ReqUnstage req)) s) = (Ret (Inr vol), t)"
    using assms(7) by (metis prod.collapse)
  show ?thesis
    unfolding NodeUnstageVolume_def Let_def serve_started [OF assms(2,3,6)]
    using assms(4,5) by (simp add: tryG_run failWith_run get rest)
qed

text \<open>C25: growing a volume whose metadata name no file system that can be grown, as those of a raw block volume,
  panics once the device has the new size: the command to run is empty.\<close>

theorem expanding_block_volume_panics:
  assumes "ctx_TraceId ctx = Some i" and "i \<noteq> []"
    and "\<not> isRunning (callKey D ''node'' ''NodeExpandVolume'' (ReqExpand req)) s"
    and "GetVolume (dr_env D) (exq_VolumeId req) False False
      (setRunning (callKey D ''node'' ''NodeExpandVolume'' (ReqExpand req)) s) = (Ret (Inr v), s1)"
    and "GetMetadata (dr_env D) (v_Ai v) s1 = (Ret (Inr md), s2)" and "mdGet md ''fs_type'' \<notin> {Ext4, Xfs}"
    and "exq_CapacityRange req = Some cr"
    and "deviceFromMount (dr_env D) (exq_VolumePath req) s2 = (Ret (Inr dev), s3)"
    and "checkDeviceSize (dr_env D) dev (quot64 (cr_RequiredBytes (fillLimit cr)) GiB) s3 = (Ret (Inr ()), s4)"
  shows "fst (NodeExpandVolume D ctx req s) = Panic ''index out of range''"
proof -
  have "expandFs (dr_env D) dev (mdGet md ''fs_type'') s4 = (Panic ''index out of range'', s4)"
    using assms(6) by (simp add: expandFs_def RunCmd_def go_eval)
  then have "ExpandFs (dr_env D) (exq_VolumePath req) (mdGet md ''fs_type'') (quot64 (cr_RequiredBytes (fillLimit cr)) GiB) s2 =
      (Panic ''index out of range'', s4)"
    using assms(8,9) by (simp add: ExpandFs_def tryG_run)
  then show ?thesis
    unfolding NodeExpandVolume_def Let_def serve_started [OF assms(1-3)]
    by (simp add: tryG_run bindG_run failWith_run assms(4,5,7))
qed

end
