(* ===== verification/Mount_Table.thy ===== *)
theory Mount_Table
  imports Node_No_Panic
begin

text \<open>
  The mounts of the host as an abstract table, and what the host side of a volume (\<open>mount.go\<close>) does to
  it. \<open>mount_host\<close> states the documented behaviour of the programs that the driver runs - mount, umount,
  grep over \<open>/proc/mounts\<close>, readlink - and that nothing else touches the table; \<open>does\<close> is the triple
  for what a run does to a part of the world, also when it returns an error or panics.
\<close>

section \<open>The table\<close>

text \<open>A line of \<open>/proc/mounts\<close>: the device, the mount point, and the rest of the line.\<close>

type_synonym mount_entry = "string \<times> string \<times> string"

definition procLine :: "mount_entry \<Rightarrow> string" where
  "procLine e = (case e of (d, p, r) \<Rightarrow> d @ '' '' @ p @ '' '' @ r)"

text \<open>\<open>mv_match p l\<close>: the line \<open>l\<close> matches \<open>p\<close>, as grep takes a pattern; \<open>mv_real\<close> is what
  \<open>readlink -f\<close> prints; \<open>mv_rec\<close> tells the paths that the metadata of volumes may hold.\<close>

record 'w mount_view =
  mv_tab :: "'w \<Rightarrow> mount_entry list"
  mv_match :: "string \<Rightarrow> string \<Rightarrow> bool"
  mv_real :: "string \<Rightarrow> string"
  mv_rec :: "string \<Rightarrow> bool"

text \<open>A path as the driver is given them: absolute, without blanks around it, and without a quote.\<close>

definition path_ok :: "string \<Rightarrow> bool" where
  "path_ok p \<longleftrightarrow> prefix ''/'' p \<and> TrimSpace p = p \<and> CHR 39 \<notin> set p"

text \<open>The device that the driver takes for a path: that of the first line that matches it.\<close>

definition resolve :: "'w mount_view \<Rightarrow> mount_entry list \<Rightarrow> string \<Rightarrow> string" where
  "resolve V t p = (case filter (\<lambda>e. mv_match V p (procLine e)) t of
      [] \<Rightarrow> p
    | (d, _, _) # _ \<Rightarrow> mv_real V d)"

text \<open>The device and the mount point of mount's arguments.\<close>

definition mountOf :: "string list \<Rightarrow> (string \<times> string) option" where
  "mountOf args =
     (case (if take 1 args = [''-t''] then drop 2 args else args) of
        d # p # _ \<Rightarrow> Some (d, p)
      | _ \<Rightarrow> None)"

text \<open>Unmounting takes the topmost entry of a mount point, or of a device, away.\<close>

definition mountedAt :: "string \<Rightarrow> mount_entry \<Rightarrow> bool" where
  "mountedAt p e \<longleftrightarrow> (case e of (d, q, _) \<Rightarrow> q = p \<or> d = p)"

definition dropMount :: "string \<Rightarrow> mount_entry list \<Rightarrow> mount_entry list" where
  "dropMount p t = rev (let ys = rev t in
     takeWhile (\<lambda>e. \<not> mountedAt p e) ys @ drop 1 (dropWhile (\<lambda>e. \<not> mountedAt p e) ys))"

lemma dropMount_rev:
  "rev (dropMount p t) = takeWhile (\<lambda>e. \<not> mountedAt p e) (rev t) @ drop 1 (dropWhile (\<lambda>e. \<not> mountedAt p e) (rev t))"
  by (simp add: dropMount_def Let_def)

lemma dropMount_last: "mountedAt p e \<Longrightarrow> dropMount p (t @ [e]) = t"
  by (simp add: dropMount_def)

lemma dropMount_subset: "set (dropMount p t) \<subseteq> set t"
proof -
  have "set (rev (dropMount p t)) \<subseteq> set (rev t)"
    unfolding dropMount_rev by (auto dest!: set_takeWhileD in_set_dropD set_dropWhileD)
  then show ?thesis by simp
qed

lemma dropMount_keeps:
  assumes "e \<in> set t" and "\<not> mountedAt p e"
  shows "e \<in> set (dropMount p t)"
proof -
  have "x \<in> set (takeWhile (\<lambda>e. \<not> P e) ys) \<union> set (drop 1 (dropWhile (\<lambda>e. \<not> P e) ys))"
    if "x \<in> set ys" "\<not> P x" for x :: mount_entry and ys P
    using that by (induction ys) auto
  from this [of e "rev t" "mountedAt p"] assms have "e \<in> set (rev (dropMount p t))"
    unfolding dropMount_rev by simp
  then show ?thesis by simp
qed

section \<open>The host\<close>

definition grepCmd :: "string \<Rightarrow> string list" where
  "grepCmd p = [''sh'', ''-c'', ''grep '' @ [CHR 39] @ p @ [CHR 39] @ '' /proc/mounts'']"

text \<open>The programs: grep prints the lines that match, and fails when there are none; mount adds an entry and
  umount takes one away, when they succeed; no other program changes the table.\<close>

definition grep_law :: "'w env \<Rightarrow> 'w mount_view \<Rightarrow> bool" where
  "grep_law E V \<longleftrightarrow> (\<forall>p w. CHR 39 \<notin> set p \<longrightarrow>
     (case filter (\<lambda>e. mv_match V p (procLine e)) (mv_tab V w) of
        [] \<Rightarrow> snd (fst (x_exec E (grepCmd p) w)) \<noteq> None
      | es \<Rightarrow> fst (x_exec E (grepCmd p) w) = (concat (map (\<lambda>e. procLine e @ [CHR 10]) es), None)))"

definition readlink_law :: "'w env \<Rightarrow> 'w mount_view \<Rightarrow> bool" where
  "readlink_law E V \<longleftrightarrow> (\<forall>d w. snd (fst (x_exec E [''readlink'', ''-f'', d] w)) = None \<and>
     TrimSpace (fst (fst (x_exec E [''readlink'', ''-f'', d] w))) = mv_real V d)"

definition mount_law :: "'w env \<Rightarrow> 'w mount_view \<Rightarrow> bool" where
  "mount_law E V \<longleftrightarrow> (\<forall>args w d p. mountOf args = Some (d, p) \<longrightarrow>
     (if snd (fst (x_exec E (''mount'' # args) w)) = None
      then \<exists>r. mv_tab V (snd (x_exec E (''mount'' # args) w)) = mv_tab V w @ [(d, p, r)]
      else mv_tab V (snd (x_exec E (''mount'' # args) w)) = mv_tab V w))"

definition umount_law :: "'w env \<Rightarrow> 'w mount_view \<Rightarrow> bool" where
  "umount_law E V \<longleftrightarrow> (\<forall>p w. mv_tab V (snd (x_exec E [''umount'', p] w)) =
     (if snd (fst (x_exec E [''umount'', p] w)) = None then dropMount p (mv_tab V w) else mv_tab V w))"

definition exec_law :: "'w env \<Rightarrow> 'w mount_view \<Rightarrow> bool" where
  "exec_law E V \<longleftrightarrow> (\<forall>c args w. c \<noteq> ''mount'' \<longrightarrow> c \<noteq> ''umount'' \<longrightarrow>
     mv_tab V (snd (x_exec E (c # args) w)) = mv_tab V w)"

text \<open>Everything else leaves the table.\<close>

definition mount_others :: "'w env \<Rightarrow> 'w mount_view \<Rightarrow> bool" where
  "mount_others E V \<longleftrightarrow>
     (\<forall>n w. mv_tab V (snd (x_ai_get E n w)) = mv_tab V w) \<and>
     (\<forall>a st f w. mv_tab V (snd (x_ai_set E a st f w)) = mv_tab V w) \<and>
     (\<forall>a f w. mv_tab V (snd (x_ai_delete E a f w)) = mv_tab V w) \<and>
     (\<forall>a w. mv_tab V (snd (x_ai_reload E a w)) = mv_tab V w) \<and>
     (\<forall>a w. mv_tab V (snd (x_md_get E a w)) = mv_tab V w) \<and>
     (\<forall>a m w. mv_tab V (snd (x_md_set E a m w)) = mv_tab V w) \<and>
     (\<forall>i w. mv_tab V (snd (x_init_get E i w)) = mv_tab V w) \<and>
     (\<forall>n i f w. mv_tab V (snd (x_init_create E n i f w)) = mv_tab V w) \<and>
     (\<forall>a w. mv_tab V (snd (x_acl_get E a w)) = mv_tab V w) \<and>
     (\<forall>a is w. mv_tab V (snd (x_acl_set E a is w)) = mv_tab V w) \<and>
     (\<forall>c w. mv_tab V (snd (x_iscsi_connect E c w)) = mv_tab V w) \<and>
     (\<forall>i ips w. mv_tab V (snd (x_iscsi_disconnect E i ips w)) = mv_tab V w) \<and>
     (\<forall>f w. mv_tab V (snd (x_read_file E f w)) = mv_tab V w) \<and>
     (\<forall>f w. mv_tab V (snd (x_not_exist E f w)) = mv_tab V w) \<and>
     (\<forall>f w. mv_tab V (snd (x_mkdir_all E f w)) = mv_tab V w) \<and>
     (\<forall>f w. mv_tab V (snd (x_remove_all E f w)) = mv_tab V w) \<and>
     (\<forall>n w. mv_tab V (snd (x_rand_intn E n w)) = mv_tab V w) \<and>
     (\<forall>w. mv_tab V (snd (x_new_uuid E w)) = mv_tab V w)"

text \<open>The paths that the driver works with: of the connector, of the metadata, and of devices.\<close>

definition paths_law :: "'w env \<Rightarrow> 'w mount_view \<Rightarrow> bool" where
  "paths_law E V \<longleftrightarrow>
     (\<forall>c w dp. fst (x_iscsi_connect E c w) = (dp, None) \<longrightarrow> dp = [] \<or> path_ok dp) \<and>
     (\<forall>a w md. fst (fst (x_md_get E a w)) = Some md \<longrightarrow> mdGet md ''mount_path'' = [] \<or>
        path_ok (mdGet md ''mount_path'') \<and> mv_rec V (mdGet md ''mount_path''))"

definition entries_law :: "'w mount_view \<Rightarrow> bool" where
  "entries_law V \<longleftrightarrow> (\<forall>d. path_ok (mv_real V d)) \<and>
     (\<forall>w. \<forall>e \<in> set (mv_tab V w). fst e \<noteq> [] \<and> (\<forall>c \<in> set (fst e). \<not> isSpace c))"

definition mount_host :: "'w env \<Rightarrow> 'w mount_view \<Rightarrow> bool" where
  "mount_host E V \<longleftrightarrow> grep_law E V \<and> readlink_law E V \<and> mount_law E V \<and> umount_law E V \<and> exec_law E V \<and>
     mount_others E V \<and> paths_law E V \<and> entries_law V"

text \<open>The laws, one at a time.\<close>

lemma host_grep:
  assumes "mount_host E V" and "CHR 39 \<notin> set p"
  shows "case filter (\<lambda>e. mv_match V p (procLine e)) (mv_tab V w) of
      [] \<Rightarrow> snd (fst (x_exec E (grepCmd p) w)) \<noteq> None
    | es \<Rightarrow> fst (x_exec E (grepCmd p) w) = (concat (map (\<lambda>e. procLine e @ [CHR 10]) es), None)"
proof -
  from assms(1) have "grep_law E V" by (simp add: mount_host_def)
  then show ?thesis using assms(2) unfolding grep_law_def by blast
qed

lemma host_readlink:
  assumes "mount_host E V"
  shows "snd (fst (x_exec E [''readlink'', ''-f'', d] w)) = None"
    and "TrimSpace (fst (fst (x_exec E [''readlink'', ''-f'', d] w))) = mv_real V d"
  using assms by (simp_all add: mount_host_def readlink_law_def)

lemma host_mount:
  assumes "mount_host E V" and "mountOf args = Some (d, p)"
  shows "if snd (fst (x_exec E (''mount'' # args) w)) = None
      then \<exists>r. mv_tab V (snd (x_exec E (''mount'' # args) w)) = mv_tab V w @ [(d, p, r)]
      else mv_tab V (snd (x_exec E (''mount'' # args) w)) = mv_tab V w"
proof -
  from assms(1) have "mount_law E V" by (simp add: mount_host_def)
  then show ?thesis using assms(2) unfolding mount_law_def by blast
qed

lemma host_umount:
  "mount_host E V \<Longrightarrow> mv_tab V (snd (x_exec E [''umount'', p] w)) =
     (if snd (fst (x_exec E [''umount'', p] w)) = None then dropMount p (mv_tab V w) else mv_tab V w)"
  by (simp only: mount_host_def umount_law_def)

lemma host_exec:
  "mount_host E V \<Longrightarrow> c \<noteq> ''mount'' \<Longrightarrow> c \<noteq> ''umount'' \<Longrightarrow> mv_tab V (snd (x_exec E (c # args) w)) = mv_tab V w"
  unfolding mount_host_def exec_law_def by blast

lemma host_others:
  assumes "mount_host E V"
  shows "mv_tab V (snd (x_ai_get E n w)) = mv_tab V w" "mv_tab V (snd (x_ai_set E a st f w)) = mv_tab V w"
    "mv_tab V (snd (x_ai_delete E a f w)) = mv_tab V w" "mv_tab V (snd (x_ai_reload E a w)) = mv_tab V w"
    "mv_tab V (snd (x_md_get E a w)) = mv_tab V w" "mv_tab V (snd (x_md_set E a m w)) = mv_tab V w"
    "mv_tab V (snd (x_init_get E i w)) = mv_tab V w" "mv_tab V (snd (x_init_create E n i f w)) = mv_tab V w"
    "mv_tab V (snd (x_acl_get E si w)) = mv_tab V w" "mv_tab V (snd (x_acl_set E acl is w)) = mv_tab V w"
    "mv_tab V (snd (x_iscsi_connect E c w)) = mv_tab V w" "mv_tab V (snd (x_iscsi_disconnect E i ips w)) = mv_tab V w"
    "mv_tab V (snd (x_read_file E i w)) = mv_tab V w" "mv_tab V (snd (x_not_exist E i w)) = mv_tab V w"
    "mv_tab V (snd (x_mkdir_all E i w)) = mv_tab V w" "mv_tab V (snd (x_remove_all E i w)) = mv_tab V w"
    "mv_tab V (snd (x_rand_intn E k w)) = mv_tab V w" "mv_tab V (snd (x_new_uuid E w)) = mv_tab V w"
  using assms by (simp_all add: mount_host_def mount_others_def)

lemma host_entry:
  assumes "mount_host E V"
  shows "path_ok (mv_real V d)" and "e \<in> set (mv_tab V w) \<Longrightarrow> fst e \<noteq> [] \<and> (\<forall>c \<in> set (fst e). \<not> isSpace c)"
  using assms by (simp_all add: mount_host_def entries_law_def)

section \<open>What a run does to the table\<close>

text \<open>\<open>does g m t Q\<close>: from every state whose part \<open>g\<close> is \<open>t\<close>, \<open>Q\<close> holds of the outcome of \<open>m\<close>, whatever it is,
  and of the part that it leaves.\<close>

definition does :: "('w \<Rightarrow> 't) \<Rightarrow> ('w, 'a) io \<Rightarrow> 't \<Rightarrow> ('a outcome \<Rightarrow> 't \<Rightarrow> bool) \<Rightarrow> bool" where
  "does g m t Q \<longleftrightarrow> (\<forall>s. g (ext s) = t \<longrightarrow> Q (fst (m s)) (g (ext (snd (m s)))))"

abbreviation leaves :: "('w \<Rightarrow> 't) \<Rightarrow> ('w, 'a) io \<Rightarrow> bool" where
  "leaves g m \<equiv> frame (keeps (\<lambda>s. g (ext s))) m"

lemma doesD: "does g m t Q \<Longrightarrow> g (ext s) = t \<Longrightarrow> m s = (r, s') \<Longrightarrow> Q r (g (ext s'))"
  unfolding does_def by (metis fst_conv snd_conv)

lemma does_weaken: "does g m t A \<Longrightarrow> (\<And>r t'. A r t' \<Longrightarrow> Q r t') \<Longrightarrow> does g m t Q"
  unfolding does_def by blast

lemma does_ret: "Q (Ret x) t \<Longrightarrow> does g (ret x) t Q"
  by (simp add: does_def go_eval)

lemma does_leaves: "leaves g m \<Longrightarrow> (\<And>r. Q r t) \<Longrightarrow> does g m t Q"
  unfolding does_def frame_def keeps_def by metis

lemma does_bind:
  assumes "does g m t A" and "\<And>x t'. A (Ret x) t' \<Longrightarrow> does g (k x) t' Q" and "\<And>p t'. A (Panic p) t' \<Longrightarrow> Q (Panic p) t'"
  shows "does g (bindG m k) t Q"
  unfolding does_def
proof (intro allI impI)
  fix s :: "'a st"
  assume s: "g (ext s) = t"
  obtain r s1 where m: "m s = (r, s1)" by fastforce
  from doesD [OF assms(1) s m] have A: "A r (g (ext s1))" .
  show "Q (fst (bindG m k s)) (g (ext (snd (bindG m k s))))"
  proof (cases r)
    case (Ret x)
    with A assms(2) have "does g (k x) (g (ext s1)) Q" by blast
    then show ?thesis using m Ret by (simp add: does_def go_eval)
  next
    case (Panic p)
    with A assms(3) m show ?thesis by (simp add: go_eval)
  qed
qed

text \<open>After a part that leaves the table alone; \<open>Q\<close> of a panic.\<close>

lemma does_after:
  assumes "leaves g m" and "\<And>x. does g (k x) t Q" and "\<And>p. Q (Panic p) t"
  shows "does g (bindG m k) t Q"
  by (rule does_bind [where A = "\<lambda>_ t'. t' = t"]) (use assms in \<open>auto intro: does_leaves\<close>)

lemma does_try_after:
  assumes "leaves g m" and "\<And>x. does g (k x) t Q" and "\<And>p. Q (Panic p) t" and "\<And>e. Q (Ret (Inl e)) t"
  shows "does g (tryG m k) t Q"
  unfolding tryG_def
  by (rule does_after [OF assms(1)]) (auto intro: does_ret assms split: sum.splits)

text \<open>With a fact about the value.\<close>

lemma does_try_gives:
  assumes "leaves g m" and "gives m A" and "\<And>x. A x \<Longrightarrow> does g (k x) t Q"
    and "\<And>p. Q (Panic p) t" and "\<And>e. Q (Ret (Inl e)) t"
  shows "does g (tryG m k) t Q"
proof -
  have "does g m t (\<lambda>r t'. t' = t \<and> (\<forall>x. r = Ret (Inr x) \<longrightarrow> A x))"
    using assms(1,2) unfolding does_def gives_def frame_def keeps_def by (metis prod.collapse)
  then show ?thesis
    unfolding tryG_def by (rule does_bind) (auto intro: does_ret assms split: sum.splits)
qed

lemma does_try:
  assumes "does g m t A" and "\<And>x t'. A (Ret (Inr x)) t' \<Longrightarrow> does g (k x) t' Q"
    and "\<And>p t'. A (Panic p) t' \<Longrightarrow> Q (Panic p) t'" and "\<And>e t'. A (Ret (Inl e)) t' \<Longrightarrow> Q (Ret (Inl e)) t'"
  shows "does g (tryG m k) t Q"
  unfolding tryG_def by (rule does_bind [OF assms(1)]) (auto intro: does_ret assms split: sum.splits)

lemma leaves_extG: "(\<And>w. g (snd (f w)) = g w) \<Longrightarrow> leaves g (extG ev f)"
  by (rule keeps_ext)

lemma leaves_sdkCall: "(\<And>w. g (snd (f w)) = g w) \<Longrightarrow> leaves g (sdkCall ev f)"
  unfolding sdkCall_def by (intro kp.frame_rules leaves_extG)

lemma leaves_updG: "(\<And>s. ext (f s) = ext s) \<Longrightarrow> leaves g (updG f)"
  by (simp add: frame_def keeps_def go_eval)

lemma leaves_deferG: "(\<And>s. ext (f s) = ext s) \<Longrightarrow> leaves g m \<Longrightarrow> leaves g (deferG f m)"
  by (simp add: frame_def keeps_def go_eval)

lemma leaves_failWith: "leaves g m \<Longrightarrow> leaves g (failWith D c m)"
  by (rule failWith_frame)

lemma leaves_sleepG: "leaves g (sleepG n)"
  unfolding sleepG_def by (rule leaves_updG) simp

lemmas leaves_rules = frame_branches kp.frame_rules leaves_extG leaves_sdkCall leaves_sleepG

section \<open>Programs\<close>

lemma TrimSpace_id: "xs \<noteq> [] \<Longrightarrow> \<not> isSpace (hd xs) \<Longrightarrow> \<not> isSpace (last xs) \<Longrightarrow> TrimSpace xs = xs"
  unfolding TrimSpace_def by (rule trimBytes_id) simp

lemma TrimSpace_prefix: "\<not> isSpace c \<Longrightarrow> prefix (TrimSpace (c # cs)) (c # cs)"
proof -
  assume "\<not> isSpace c"
  moreover have "suffix (dropWhile isSpace (rev (c # cs))) (rev (c # cs))" by (rule suffix_dropWhile)
  ultimately show ?thesis by (simp add: TrimSpace_def trimBytes_def suffix_to_prefix)
qed

text \<open>The words of the driver's commands.\<close>

lemma command_words [simp]:
  "TrimSpace ''sh'' = ''sh''" "TrimSpace ''-c'' = ''-c''" "TrimSpace ''lsblk'' = ''lsblk''" "TrimSpace ''grep'' = ''grep''"
  "TrimSpace ''readlink'' = ''readlink''" "TrimSpace ''-f'' = ''-f''" "TrimSpace ''mount'' = ''mount''"
  "TrimSpace ''-t'' = ''-t''" "TrimSpace ''umount'' = ''umount''" "TrimSpace ''iscsiadm'' = ''iscsiadm''"
  "TrimSpace ''blockdev'' = ''blockdev''" "TrimSpace ''resize2fs'' = ''resize2fs''" "TrimSpace ''xfs_growfs'' = ''xfs_growfs''"
  by (rule TrimSpace_id; simp add: isSpace_def)+

lemma path_okD:
  assumes "path_ok p"
  shows "TrimSpace p = p" "p \<noteq> []" "p \<noteq> ''-t''" "CHR 39 \<notin> set p"
  using assms by (auto simp: path_ok_def)

lemma RunCmd_leaves:
  assumes "mount_host E V" and "TrimSpace c = c" and "c \<noteq> []" and "c \<noteq> ''mount''" and "c \<noteq> ''umount''"
  shows "leaves (mv_tab V) (RunCmd E (c # cs))"
  unfolding RunCmd_def Let_def
  using assms by (auto intro!: leaves_rules host_exec [OF assms(1,4,5)])

lemma mkfs_leaves:
  assumes "mount_host E V"
  shows "leaves (mv_tab V) (RunCmd E ((''mkfs.'' @ fs) # cs))"
proof -
  let ?c = "TrimSpace (''mkfs.'' @ fs)"
  have "?c \<noteq> []" by simp
  moreover have "prefix ?c (''mkfs.'' @ fs)"
    using TrimSpace_prefix [of "CHR ''m''" "''kfs.'' @ fs"] by simp
  then have "?c \<noteq> ''mount''" "?c \<noteq> ''umount''"
    by (auto simp: prefix_def)
  ultimately show ?thesis
    unfolding RunCmd_def Let_def
    by (auto intro!: leaves_rules host_exec [OF assms] simp del: append_Cons)
qed

lemma formatLoop_leaves:
  assumes "mount_host E V"
  shows "leaves (mv_tab V) (formatLoop E ((''mkfs.'' @ fs) # cs) n)"
proof (rule fmt.loop_frame)
  show "leaves (mv_tab V) (formatOnce E ((''mkfs.'' @ fs) # cs) c)" for c
    unfolding formatOnce_def by (intro leaves_rules mkfs_leaves assms)
qed (intro kp.step_preorder_axioms leaves_sleepG)+

lemma sizeLoop_leaves:
  assumes "mount_host E V"
  shows "leaves (mv_tab V) (sizeLoop E device n sz)"
proof (induction n arbitrary: sz)
  case 0
  show ?case
    by (subst sizeLoop.simps) (simp only: nat.case Let_def, intro leaves_rules RunCmd_leaves assms; simp)
next
  case (Suc n)
  show ?case
    by (subst sizeLoop.simps) (simp only: nat.case Let_def, intro leaves_rules RunCmd_leaves assms Suc; simp)
qed

lemma mount_client_leaves:
  assumes "mount_host E V"
  shows "leaves (mv_tab V) (deviceFromMount E x)" "leaves (mv_tab V) (Format E v fsType fsArgs timeout)"
    "leaves (mv_tab V) (ExpandFs E path fs gib)"
proof -
  have ran: "leaves (mv_tab V) (RunCmd E (if b then [''resize2fs'', x] else if c then [''xfs_growfs'', x] else []))" for b c x
    by (auto intro!: RunCmd_leaves assms) (simp add: RunCmd_def frame_def keeps_def go_eval)
  show dev: "leaves (mv_tab V) (deviceFromMount E x)" for x
    unfolding deviceFromMount_def readlink_def by (intro leaves_rules RunCmd_leaves assms; simp)
  show "leaves (mv_tab V) (Format E v fsType fsArgs timeout)"
    unfolding Format_def findFs_def findMnt_def format_device_def append_Cons append_Nil
    by (intro leaves_rules RunCmd_leaves formatLoop_leaves [unfolded append_Cons append_Nil] assms; simp)
  show "leaves (mv_tab V) (ExpandFs E path fs gib)"
    unfolding ExpandFs_def checkDeviceSize_def expandFs_def
    by (intro leaves_rules dev sizeLoop_leaves ran assms)
qed

text \<open>The first word of the first line that matches.\<close>

lemma Fields_first:
  "d \<noteq> [] \<Longrightarrow> \<forall>c \<in> set d. \<not> isSpace c \<Longrightarrow> isSpace b \<Longrightarrow> \<exists>ws. Fields (d @ b # rest) = d # ws"
proof (induction d)
  case (Cons c d)
  show ?case
  proof (cases d)
    case Nil
    with Cons.prems show ?thesis by simp
  next
    case (Cons c' d')
    with Cons.IH Cons.prems obtain ws where "Fields (d @ b # rest) = d # ws" by auto
    with Cons Cons.prems show ?thesis by simp
  qed
qed simp

lemma RunCmd_grep:
  "CHR 39 \<notin> set p \<Longrightarrow> RunCmd E (grepCmd p) s =
    (Ret (fst (x_exec E (grepCmd p) (ext s))), s\<lparr>log := log s @ [Exec (grepCmd p)], ext := snd (x_exec E (grepCmd p) (ext s))\<rparr>)"
proof -
  have "TrimSpace (''grep '' @ [CHR 39] @ p @ [CHR 39] @ '' /proc/mounts'') = ''grep '' @ [CHR 39] @ p @ [CHR 39] @ '' /proc/mounts''"
    by (rule TrimSpace_id) (simp_all add: isSpace_def)
  then show ?thesis by (simp add: RunCmd_def grepCmd_def go_eval Let_def)
qed

lemma deviceFromMount_does:
  assumes host: "mount_host E V" and p: "CHR 39 \<notin> set p"
  shows "does (mv_tab V) (deviceFromMount E p) t (\<lambda>r t'. t' = t \<and>
    (case filter (\<lambda>e. mv_match V p (procLine e)) t of
       [] \<Rightarrow> \<exists>e. r = Ret (Inl e)
     | e # _ \<Rightarrow> r = Ret (Inr (mv_real V (fst e)))))"
  unfolding does_def
proof (intro allI impI conjI)
  fix s :: "'a st"
  assume t: "mv_tab V (ext s) = t"
  have "mv_tab V (ext (snd (deviceFromMount E p s))) = mv_tab V (ext s)"
    using mount_client_leaves(1) [OF host] unfolding frame_def keeps_def by blast
  with t show "mv_tab V (ext (snd (deviceFromMount E p s))) = t" by simp
  have start: "deviceFromMount E p = bindG (RunCmd E (grepCmd p)) (\<lambda>(out, err). case err of
      Some e \<Rightarrow> ret (Inl e)
    | None \<Rightarrow> bindG (indexG (Fields out) 0) (\<lambda>device. bindG (readlink E device) (\<lambda>(dev, err). case err of
        Some _ \<Rightarrow> ret (Inr device) | None \<Rightarrow> ret (Inr (TrimSpace dev)))))"
    by (simp only: deviceFromMount_def grepCmd_def)
  note grep = host_grep [OF host p, of "ext s"]
  show "case filter (\<lambda>e. mv_match V p (procLine e)) t of
      [] \<Rightarrow> \<exists>e. fst (deviceFromMount E p s) = Ret (Inl e)
    | e # _ \<Rightarrow> fst (deviceFromMount E p s) = Ret (Inr (mv_real V (fst e)))"
  proof (cases "filter (\<lambda>e. mv_match V p (procLine e)) t")
    case Nil
    with grep t show ?thesis
      by (auto simp: start RunCmd_grep [OF p] go_eval split: prod.splits option.splits)
  next
    case (Cons e es)
    then have "e \<in> set (filter (\<lambda>e. mv_match V p (procLine e)) t)" by simp
    with t have "e \<in> set (mv_tab V (ext s))" by simp
    note entry = host_entry(2) [OF host this]
    obtain d q r where e: "e = (d, q, r)" by (cases e)
    have "\<exists>ws. Fields (concat (map (\<lambda>e. procLine e @ [CHR 10]) (e # es))) = fst e # ws"
      using Fields_first [of d "CHR '' ''"] entry by (simp add: e procLine_def isSpace_def)
    then obtain ws where ws: "Fields (concat (map (\<lambda>e. procLine e @ [CHR 10]) (e # es))) = fst e # ws" by blast
    have out: "fst (x_exec E (grepCmd p) (ext s)) = (concat (map (\<lambda>e. procLine e @ [CHR 10]) (e # es)), None)"
      using grep t Cons by simp
    have trim: "TrimSpace (fst e) = fst e"
      using entry by (intro TrimSpace_id) auto
    let ?w = "snd (x_exec E (grepCmd p) (ext s))"
    obtain out2 w2 where link: "x_exec E [''readlink'', ''-f'', fst e] ?w = ((out2, None), w2)"
      using host_readlink(1) [OF host, of "fst e" ?w] by (metis prod.collapse)
    then have "TrimSpace out2 = mv_real V (fst e)"
      using host_readlink(2) [OF host, of "fst e" ?w] by simp
    moreover have "fst (readlink E (fst e) u) = Ret (out2, None)" if "ext u = ?w" for u
      using entry by (simp add: readlink_def RunCmd_def trim link go_eval that Let_def)
    ultimately show ?thesis
      using Cons by (simp add: start RunCmd_grep [OF p] out go_eval ws split_beta
          del: concat.simps list.map split: outcome.splits)
  qed
qed

section \<open>Mounting\<close>

text \<open>What \<open>mount\<close> of \<open>mount.go\<close> does: on success there is one more entry, for the device that the source
  is resolved to; otherwise the table is as it was.\<close>

definition adds :: "'w mount_view \<Rightarrow> string \<Rightarrow> string \<Rightarrow> mount_entry list \<Rightarrow> mount_entry list \<Rightarrow> bool" where
  "adds V source dest t t' \<longleftrightarrow> (\<exists>r. t' = t @ [(resolve V t source, dest, r)])"

lemma RunCmd_mount:
  assumes "mount_host E V" and "mountOf (filter (\<lambda>c. c \<noteq> []) (map TrimSpace args)) = Some (d, p)"
  shows "does (mv_tab V) (RunCmd E (''mount'' # args)) t (\<lambda>r t'. case r of
      Ret (_, None) \<Rightarrow> \<exists>x. t' = t @ [(d, p, x)]
    | _ \<Rightarrow> t' = t)"
  unfolding does_def
proof (intro allI impI)
  fix s :: "'a st"
  assume t: "mv_tab V (ext s) = t"
  let ?args = "filter (\<lambda>c. c \<noteq> []) (map TrimSpace args)"
  have run: "RunCmd E (''mount'' # args) s = (Ret (fst (x_exec E (''mount'' # ?args) (ext s))),
      s\<lparr>log := log s @ [Exec (''mount'' # ?args)], ext := snd (x_exec E (''mount'' # ?args) (ext s))\<rparr>)"
    by (simp add: RunCmd_def go_eval Let_def)
  show "case fst (RunCmd E (''mount'' # args) s) of
      Ret (_, None) \<Rightarrow> \<exists>x. mv_tab V (ext (snd (RunCmd E (''mount'' # args) s))) = t @ [(d, p, x)]
    | _ \<Rightarrow> mv_tab V (ext (snd (RunCmd E (''mount'' # args) s))) = t"
    using host_mount [OF assms, of "ext s"] t
    by (cases "fst (x_exec E (''mount'' # ?args) (ext s))") (auto simp: run split: option.splits)
qed

text \<open>The device and the mount point of the command that \<open>mount\<close> builds.\<close>

lemma mount_command:
  assumes "path_ok source" and "path_ok dest" and "case r of Inr dev \<Rightarrow> path_ok dev | Inl _ \<Rightarrow> True"
    and "''--bind'' \<in> set options \<or> TrimSpace fs \<noteq> []"
  obtains args where "(case r of
      Inl _ \<Rightarrow> if ''--bind'' \<in> set options then [''mount'', source, dest] @ options
        else [''mount'', ''-t'', fs, source, dest] @ options
    | Inr dev \<Rightarrow> [''mount'', dev, dest] @ remove1 ''--bind'' options) = ''mount'' # args"
    and "mountOf (filter (\<lambda>c. c \<noteq> []) (map TrimSpace args)) = Some (case r of Inl _ \<Rightarrow> source | Inr dev \<Rightarrow> dev, dest)"
proof -
  note ok = path_okD [OF assms(1)] path_okD [OF assms(2)]
  show thesis
  proof (cases r)
    case (Inl e)
    then show thesis using that assms(4) ok by (cases "''--bind'' \<in> set options") (auto simp: mountOf_def)
  next
    case (Inr dev)
    with assms(3) path_okD [of dev] show thesis using that ok by (auto simp: mountOf_def)
  qed
qed

lemma mount_dev_does:
  assumes host: "mount_host E V" and paths: "path_ok source" "path_ok dest"
    and fs: "''--bind'' \<in> set options \<or> TrimSpace fs \<noteq> []"
  shows "does (mv_tab V) (mount_dev E source dest options fs) t (\<lambda>r t'. case r of
      Ret (Inr _) \<Rightarrow> adds V source dest t t'
    | _ \<Rightarrow> t' = t)"
    (is "does _ _ _ ?Q")
proof -
  let ?cmd = "\<lambda>d. case d of
      Inl _ \<Rightarrow> if ''--bind'' \<in> set options then [''mount'', source, dest] @ options
        else [''mount'', ''-t'', fs, source, dest] @ options
    | Inr dev \<Rightarrow> [''mount'', dev, dest] @ remove1 ''--bind'' options"
  have mounts: "does (mv_tab V) (bindG (RunCmd E (?cmd d)) (\<lambda>(_, err). ret (case err of Some e \<Rightarrow> Inl e | None \<Rightarrow> Inr ()))) t ?Q"
    if d: "case filter (\<lambda>e. mv_match V source (procLine e)) t of [] \<Rightarrow> \<exists>e. d = Inl e | e # _ \<Rightarrow> d = Inr (mv_real V (fst e))" for d
  proof -
    have "case d of Inr dev \<Rightarrow> path_ok dev | Inl _ \<Rightarrow> True"
      using d host_entry(1) [OF host] by (auto split: list.splits)
    then obtain args where cmd: "?cmd d = ''mount'' # args"
      and args: "mountOf (filter (\<lambda>c. c \<noteq> []) (map TrimSpace args)) = Some (case d of Inl _ \<Rightarrow> source | Inr dev \<Rightarrow> dev, dest)"
      by (rule mount_command [OF paths _ fs])
    have "(case d of Inl _ \<Rightarrow> source | Inr dev \<Rightarrow> dev) = resolve V t source"
      using d by (auto simp: resolve_def split: list.splits)
    with RunCmd_mount [OF host args]
    have "does (mv_tab V) (RunCmd E (?cmd d)) t (\<lambda>r t'. case r of
        Ret (_, None) \<Rightarrow> \<exists>x. t' = t @ [(resolve V t source, dest, x)] | _ \<Rightarrow> t' = t)"
      by (simp only: cmd)
    then show ?thesis
      by (rule does_bind) (auto simp: adds_def intro!: does_ret split: option.splits)
  qed
  have rest: "does (mv_tab V) (bindG (deviceFromMount E source) (\<lambda>d. let cmd = ?cmd d in
      bindG (RunCmd E cmd) (\<lambda>(_, err). ret (case err of Some e \<Rightarrow> Inl e | None \<Rightarrow> Inr ())))) t ?Q"
    unfolding Let_def
  proof (rule does_bind [OF deviceFromMount_does [OF host path_okD(4) [OF paths(1)]]])
    fix d t'
    assume A: "t' = t \<and> (case filter (\<lambda>e. mv_match V source (procLine e)) t of
        [] \<Rightarrow> \<exists>e. Ret d = Ret (Inl e) | e # _ \<Rightarrow> Ret d = Ret (Inr (mv_real V (fst e))))"
    then have "case filter (\<lambda>e. mv_match V source (procLine e)) t of [] \<Rightarrow> \<exists>e. d = Inl e | e # _ \<Rightarrow> d = Inr (mv_real V (fst e))"
      by (auto split: list.splits)
    from mounts [OF this] A
    show "does (mv_tab V) (bindG (RunCmd E (?cmd d)) (\<lambda>(_, err). ret (case err of Some e \<Rightarrow> Inl e | None \<Rightarrow> Inr ()))) t' ?Q"
      by simp
  qed simp
  have mkdir: "leaves (mv_tab V) (if b then extG (MkdirAll dest) (x_mkdir_all E dest) else ret None)" for b
    by (intro leaves_rules host_others [OF host])
  have "does (mv_tab V) (case err of Some e \<Rightarrow> ret (Inl e) | None \<Rightarrow> bindG (deviceFromMount E source) (\<lambda>d. let cmd = ?cmd d in
      bindG (RunCmd E cmd) (\<lambda>(_, err). ret (case err of Some e \<Rightarrow> Inl e | None \<Rightarrow> Inr ())))) t ?Q" for err
    by (cases err) (simp only: option.case, rule rest, simp add: does_ret)
  then show ?thesis
    unfolding mount_dev_def
    by (intro does_after [where m = "extG (StatFile dest) (x_not_exist E dest)"] does_after [OF mkdir] leaves_rules
        host_others [OF host]) simp_all
qed

definition umount_works :: "'w env \<Rightarrow> string \<Rightarrow> bool" where
  "umount_works E p \<longleftrightarrow> (\<forall>w. snd (fst (x_exec E [''umount'', p] w)) = None)"

text \<open>\<open>umount\<close> takes the topmost entry of the mount point, unless the program fails; the run does not say
  which.\<close>

definition removes :: "'w env \<Rightarrow> string \<Rightarrow> mount_entry list \<Rightarrow> mount_entry list \<Rightarrow> bool" where
  "removes E p t t' \<longleftrightarrow> t' = dropMount p t \<or> (t' = t \<and> \<not> umount_works E p)"

lemma unmount_does:
  assumes host: "mount_host E V" and p: "path_ok p"
  shows "does (mv_tab V) (unmount E p) t (\<lambda>r t'. removes E p t t')"
  unfolding does_def
proof (intro allI impI)
  fix s :: "'a st"
  assume "mv_tab V (ext s) = t"
  moreover have "mv_tab V (ext (snd (unmount E p s))) = mv_tab V (snd (x_exec E [''umount'', p] (ext s)))"
    using path_okD [OF p] by (simp add: unmount_def RunCmd_def go_eval Let_def split_beta host_others [OF host])
  ultimately show "removes E p t (mv_tab V (ext (snd (unmount E p s))))"
    using host_umount [OF host, of p "ext s"] by (auto simp: removes_def umount_works_def)
qed

lemma Mount_does:
  assumes host: "mount_host E V" and paths: "v_DevicePath v = [] \<or> path_ok (v_DevicePath v)" "path_ok dest"
    and fs: "''--bind'' \<in> set options \<or> TrimSpace fs \<noteq> []"
  shows "does (mv_tab V) (Mount E v dest options fs) t (\<lambda>r t'. case r of
      Ret (Inr w) \<Rightarrow> w = v\<lparr>v_MountPath := dest\<rparr> \<and> adds V (v_DevicePath v) dest t t' | _ \<Rightarrow> t' = t)"
proof (cases "v_DevicePath v = []")
  case True
  then show ?thesis by (simp add: Mount_def does_ret)
next
  case False
  with paths have "path_ok (v_DevicePath v)" by simp
  from mount_dev_does [OF host this paths(2) fs] show ?thesis
    unfolding Mount_def if_not_P [OF False] by (rule does_try) (auto intro!: does_ret)
qed

lemma BindMount_does:
  assumes host: "mount_host E V" and paths: "v_MountPath v = [] \<or> path_ok (v_MountPath v)" "path_ok dest"
  shows "does (mv_tab V) (BindMount E v dest fs) t (\<lambda>r t'. case r of
      Ret (Inr _) \<Rightarrow> adds V (v_MountPath v) dest t t' | _ \<Rightarrow> t' = t)"
proof (cases "v_DevicePath v = [] \<or> v_MountPath v = []")
  case True
  then show ?thesis by (auto simp: BindMount_def intro!: does_ret)
next
  case False
  with paths have "path_ok (v_MountPath v)" by simp
  note mount = mount_dev_does [OF host this paths(2), of "[''--bind'']" fs]
  from False show ?thesis
    by (auto simp: BindMount_def intro!: does_try [OF mount] does_ret)
qed

lemma Unmount_does:
  assumes host: "mount_host E V" and "v_MountPath v = [] \<or> path_ok (v_MountPath v)"
  shows "does (mv_tab V) (Unmount E v) t (\<lambda>r t'. if v_MountPath v = [] then t' = t else removes E (v_MountPath v) t t')"
proof (cases "v_MountPath v = []")
  case False
  with assms(2) have "path_ok (v_MountPath v)" by simp
  from unmount_does [OF host this] show ?thesis
    unfolding Unmount_def if_not_P [OF False] by (rule does_try) (auto intro: does_ret)
qed (simp add: Unmount_def does_ret)

lemma UnBindMount_does:
  assumes host: "mount_host E V" and "path_ok p"
  shows "does (mv_tab V) (UnBindMount E v p) t (\<lambda>r t'. removes E p t t')"
  unfolding UnBindMount_def
  by (rule does_bind [OF unmount_does [OF assms]])
    (auto intro!: does_ret does_leaves [OF kp.frame_bind [OF kp.frame_deref kp.frame_ret]] split: sum.splits)

section \<open>What leaves the table alone\<close>

lemma backend_leaves:
  assumes "mount_host E V"
  shows "leaves (mv_tab V) (GetMetadata E ai)" "leaves (mv_tab V) (SetMetadata E debug v md)"
    "leaves (mv_tab V) (GetVolume E n False b)" "leaves (mv_tab V) (Reload E v False False)"
    "leaves (mv_tab V) (Online E v)" "leaves (mv_tab V) (Delete E v force)"
proof -
  note other = host_others [OF assms]
  show md: "leaves (mv_tab V) (GetMetadata E ai)" for ai
    unfolding GetMetadata_def by (intro leaves_rules other)
  show "leaves (mv_tab V) (SetMetadata E debug v md)"
    unfolding SetMetadata_def by (intro leaves_rules other md)
  have conv: "leaves (mv_tab V) (aiToClientVol E ai False b c)" for ai b c
    unfolding aiToClientVol_def readLimits_off firstVolume_def Let_def split_beta by (intro leaves_rules md)
  show "leaves (mv_tab V) (GetVolume E n False b)"
    unfolding GetVolume_def by (intro leaves_rules other conv)
  show reload: "leaves (mv_tab V) (Reload E v False False)" for v
    unfolding Reload_def by (intro leaves_rules other conv)
  show "leaves (mv_tab V) (Online E v)" "leaves (mv_tab V) (Delete E v force)"
    unfolding Online_def Delete_def by (intro leaves_rules other reload)+
qed

lemma access_leaves:
  assumes "mount_host E V"
  shows "leaves (mv_tab V) (CreateGetInitiator E)" "leaves (mv_tab V) (updateAcl E v ini f)"
    "leaves (mv_tab V) (Login E v multipath round_robin chap)" "leaves (mv_tab V) (Logout E v)"
proof -
  note other = host_others [OF assms]
  have name: "leaves (mv_tab V) (GenName E [])"
    unfolding GenName_def GenId_def sliceRunes_def by (intro leaves_rules other)
  show "leaves (mv_tab V) (CreateGetInitiator E)"
    unfolding CreateGetInitiator_def GetClientIqn_def toInitiator_def by (intro leaves_rules other name)
  show "leaves (mv_tab V) (updateAcl E v ini f)"
    unfolding updateAcl_def Let_def by (intro leaves_rules other)
  show "leaves (mv_tab V) (Login E v multipath round_robin chap)"
    unfolding Login_def loginIps_def robin_def Let_def by (intro leaves_rules other)
  show "leaves (mv_tab V) (Logout E v)"
    unfolding Logout_def by (intro leaves_rules other)
qed

end
