(* ===== verification/Node_Mounts.thy ===== *)
theory Node_Mounts
  imports Mount_Table Driver_Handlers
begin

text \<open>
  The node's handlers over the table of mounts: each is, whatever it returns, one step of a small
  specification, so that the mounts of a host are those that requests asked for. What staging and
  publishing add, unstaging and unpublishing take away.
\<close>

section \<open>Handlers\<close>

lemma does_serve:
  assumes "\<And>w. g (snd (x_new_uuid (dr_env D) w)) = g w" and "\<And>c. does g (body c) t Q"
    and "\<And>p. Q (Panic p) t" and "\<And>e. Q (Ret (Inl e)) t"
  shows "does g (serve D ctx piece fn req body) t Q"
  unfolding does_def
proof (intro allI impI)
  fix s :: "'a st"
  assume s: "g (ext s) = t"
  show "Q (fst (serve D ctx piece fn req body s)) (g (ext (snd (serve D ctx piece fn req body s))))"
  proof (cases rule: InitFunc_cases [of D ctx piece fn req s])
    case (1 p)
    then show ?thesis using s assms(3) by (simp add: serve_def go_eval)
  next
    case (2 i ctxt s0)
    let ?k = "callKey D piece fn req"
    have "leaves g (WithCtxt (dr_env D) c n i)" for c n i
      unfolding WithCtxt_def GenId_def by (intro leaves_rules assms(1))
    from frameD [OF this 2(1)] s have s0: "g (ext s0) = t" by (simp add: keeps_def)
    show ?thesis
    proof (cases "isRunning ?k s0")
      case True
      then show ?thesis using 2(2) s0 assms(4) by (simp add: serve_def go_eval)
    next
      case False
      have "ext (setRunning ?k s0) = ext s0" by (simp add: setRunning_def)
      with s0 have start: "g (ext (setRunning ?k s0)) = t" by simp
      obtain r u where body: "body (dr_sdkContext D ctxt) (setRunning ?k s0) = (r, u)" by fastforce
      have "Q r (g (ext u))" by (rule doesD [OF assms(2) start body])
      then show ?thesis using 2(2) False body by (simp add: serve_def go_eval clearRunning_def)
    qed
  qed
qed

lemma does_failWith:
  assumes "does g m t A" and "\<And>x t'. A (Ret (Inr x)) t' \<Longrightarrow> Q (Ret (Inr x)) t'"
    and "\<And>e e' t'. A (Ret (Inl e)) t' \<Longrightarrow> Q (Ret (Inl e')) t'" and "\<And>p t'. A (Panic p) t' \<Longrightarrow> Q (Panic p) t'"
  shows "does g (failWith D c m) t Q"
  unfolding failWith_def by (rule does_bind [OF assms(1)]) (auto intro!: does_ret assms(2-4) split: sum.splits)

lemma does_try_fail:
  assumes "does g m t A" and "\<And>x t'. A (Ret (Inr x)) t' \<Longrightarrow> does g (k x) t' Q"
    and "\<And>e e' t'. A (Ret (Inl e)) t' \<Longrightarrow> Q (Ret (Inl e')) t'" and "\<And>p t'. A (Panic p) t' \<Longrightarrow> Q (Panic p) t'"
  shows "does g (tryG (failWith D c m) k) t Q"
proof (rule does_try)
  show "does g (failWith D c m) t (\<lambda>r t'. case r of
      Ret (Inr x) \<Rightarrow> A (Ret (Inr x)) t' | Ret (Inl _) \<Rightarrow> \<exists>e. A (Ret (Inl e)) t' | Panic p \<Rightarrow> A (Panic p) t')"
    by (rule does_failWith [OF assms(1)]) auto
qed (use assms in auto)

lemma storeMetadata_leaves: "mount_host (dr_env D) V \<Longrightarrow> leaves (mv_tab V) (storeMetadata D vol md)"
  unfolding storeMetadata_def by (intro leaves_rules backend_leaves)

lemma orElse_leaves: "leaves g m \<Longrightarrow> leaves g (orElse m d)"
  unfolding orElse_def by (intro leaves_rules)

text \<open>What the look-ups give.\<close>

lemma GetMetadata_mount_path:
  assumes "mount_host E V"
  shows "gives (GetMetadata E ai) (\<lambda>md. mdGet md ''mount_path'' = [] \<or>
    path_ok (mdGet md ''mount_path'') \<and> mv_rec V (mdGet md ''mount_path''))"
proof -
  have "mdGet md ''mount_path'' = [] \<or> path_ok (mdGet md ''mount_path'') \<and> mv_rec V (mdGet md ''mount_path'')"
    if "fst (x_md_get E ai w) = (Some md, e)" for md w e
  proof -
    have "paths_law E V" using assms by (simp add: mount_host_def)
    moreover have "fst (fst (x_md_get E ai w)) = Some md" using that by simp
    ultimately show ?thesis unfolding paths_law_def by blast
  qed
  then show ?thesis
    by (auto simp: gives_def GetMetadata_def go_eval derefG_def sdkResult_def sdkCall_def
        split: prod.splits outcome.splits option.splits sum.splits)
qed

lemma GetVolume_mount_path:
  assumes "mount_host E V"
  shows "gives (GetVolume E n False True) (\<lambda>v. v_MountPath v = [] \<or> path_ok (v_MountPath v) \<and> mv_rec V (v_MountPath v))"
proof -
  have conv: "gives (aiToClientVol E p False True c) (\<lambda>v. v_MountPath v = [] \<or> path_ok (v_MountPath v) \<and> mv_rec V (v_MountPath v))" for p c
  proof (cases p)
    case (Some ai)
    show ?thesis
      unfolding aiToClientVol_def Some option.case readLimits_off tryG_ret_Inr Let_def split_beta if_True
      by (rule gives_bind, rule gives_bind, rule gives_bind, rule gives_try_post [OF GetMetadata_mount_path [OF assms]],
          rule gives_ret) (auto simp: withMetadata_def)
  qed (simp add: aiToClientVol_def gives_error)
  then show ?thesis
    unfolding GetVolume_def by (intro gives_branches gives_error gives_try)
qed

lemma GetVolume_path:
  "mount_host E V \<Longrightarrow> gives (GetVolume E n False True) (\<lambda>v. v_MountPath v = [] \<or> path_ok (v_MountPath v))"
  by (rule gives_weaken [OF GetVolume_mount_path]) auto

lemma Login_path:
  assumes "mount_host E V"
  shows "gives (Login E v mp rr chap) (\<lambda>w. path_ok (v_DevicePath w))"
proof -
  have "paths_law E V" using assms by (simp add: mount_host_def)
  then show ?thesis
    by (auto simp: gives_def Login_def go_eval paths_law_def Let_def
        split: prod.splits outcome.splits option.splits if_splits)
qed

lemma Register_fs:
  "gives (RegisterVolumeCapability D md (Some vc)) (\<lambda>md'. case vcp_AccessType vc of
     MountAccess _ \<Rightarrow> mdGet md' ''fs_type'' \<in> {Ext4, Xfs} | _ \<Rightarrow> True)"
proof (cases "vcp_AccessType vc")
  case (MountAccess m)
  show ?thesis
    unfolding RegisterVolumeCapability_def Let_def option.case MountAccess access_type.case
    by (rule gives_bind, rule gives_if, rule gives_error, rule gives_ret)
      (auto simp: mdGet_def isSupportedFs_def SupportedFsTypes_def)
qed (auto simp: gives_def)

lemma fs_trimmed: "fs \<in> {Ext4, Xfs} \<Longrightarrow> TrimSpace fs \<noteq> []"
proof -
  assume fs: "fs \<in> {Ext4, Xfs}"
  have "TrimSpace ''ext4'' \<noteq> []" "TrimSpace ''xfs'' \<noteq> []"
    by (rule TrimSpace_nonspace; simp add: isSpace_def)+
  with fs show ?thesis by (auto simp: Ext4_def Xfs_def)
qed

section \<open>Staging\<close>

text \<open>The outcomes of a handler that mounts: a success has added one entry, and an error or a panic has
  added one or none.\<close>

definition mountedOk ::
    "'w mount_view \<Rightarrow> string \<Rightarrow> mount_entry list \<Rightarrow> (goerr + 'r) outcome \<Rightarrow> mount_entry list \<Rightarrow> bool" where
  "mountedOk V dest t r t' \<longleftrightarrow> (case r of
      Ret (Inr _) \<Rightarrow> \<exists>src. path_ok src \<and> adds V src dest t t'
    | _ \<Rightarrow> t' = t \<or> (\<exists>src. path_ok src \<and> adds V src dest t t'))"

lemma mountedOk_simps [simp]:
  "mountedOk V dest t (Panic p) t" "mountedOk V dest t (Ret (Inl e)) t"
  by (simp_all add: mountedOk_def)

definition staged :: "'w mount_view \<Rightarrow> vol_cap \<Rightarrow> string \<Rightarrow> mount_entry list \<Rightarrow> (goerr + 'r) outcome \<Rightarrow> mount_entry list \<Rightarrow> bool" where
  "staged V vc dest t r t' \<longleftrightarrow> (case vcp_AccessType vc of MountAccess _ \<Rightarrow> mountedOk V dest t r t' | _ \<Rightarrow> t' = t)"

lemma staged_simps [simp]: "staged V vc dest t (Panic p) t" "staged V vc dest t (Ret (Inl e)) t"
  by (simp_all add: staged_def split: access_type.splits)

lemma stageMount_does:
  assumes host: "mount_host (dr_env D) V" and paths: "path_ok (v_DevicePath vol)" "path_ok dest"
    and fs: "case vcp_AccessType vc of MountAccess _ \<Rightarrow> mdGet md ''fs_type'' \<in> {Ext4, Xfs} | _ \<Rightarrow> True"
  shows "does (mv_tab V) (stageMount D vol md vc dest) t (\<lambda>r t'. (case r of
      Ret (Inr _) \<Rightarrow> staged V vc dest t r t' | _ \<Rightarrow> t' = t))"
proof (cases "vcp_AccessType vc")
  case (MountAccess m)
  with fs have fsok: "mdGet md ''fs_type'' \<in> {Ext4, Xfs}" by simp
  then have same: "(if mdGet md ''fs_type'' = [] then Ext4 else mdGet md ''fs_type'') = mdGet md ''fs_type''"
    by (auto simp: Ext4_def Xfs_def)
  let ?fs = "mdGet md ''fs_type''"
  have keepDev: "gives (stageFormat D vol md ?fs) (\<lambda>(v, md'). v_DevicePath v = v_DevicePath vol)"
  proof -
    have fmt: "gives (Format (dr_env D) vol ?fs args n) (\<lambda>v. v_DevicePath v = v_DevicePath vol)" for args n
      unfolding Format_def by (auto intro!: gives_bind gives_try gives_intros)
    show ?thesis
      unfolding stageFormat_def Let_def
      by (intro gives_if gives_try_post [OF gives_failWith [OF fmt]] gives_ret) auto
  qed
  have format: "leaves (mv_tab V) (stageFormat D vol md ?fs)"
    unfolding stageFormat_def Let_def by (intro leaves_rules leaves_failWith mount_client_leaves host)
  have mount: "does (mv_tab V) (Mount (dr_env D) v dest opts ?fs) t (\<lambda>r t'. case r of
      Ret (Inr w) \<Rightarrow> w = v\<lparr>v_MountPath := dest\<rparr> \<and> adds V (v_DevicePath v) dest t t' | _ \<Rightarrow> t' = t)"
    if "v_DevicePath v = v_DevicePath vol" for v opts
    by (rule Mount_does [OF host]) (use paths fs_trimmed [OF fsok] that in auto)
  show ?thesis
    unfolding stageMount_def MountAccess access_type.case Let_def same
  proof (rule does_try_gives [OF format keepDev])
    fix x :: "volume \<times> smap"
    assume x: "case x of (v, md') \<Rightarrow> v_DevicePath v = v_DevicePath vol"
    obtain v md' where "x = (v, md')" by (cases x)
    with x have v: "v_DevicePath v = v_DevicePath vol" by simp
    show "does (mv_tab V) (case x of (vol, md) \<Rightarrow> tryG (failWith D Unknown
        (Mount (dr_env D) vol dest (splitOn CHR '' '' (mdGet md ''m_args'')) ?fs)) (\<lambda>vol.
        ret (Inr (vol, md(''mount_path'' \<mapsto> v_MountPath vol))))) t
      (\<lambda>r t'. case r of Ret (Inr _) \<Rightarrow> staged V vc dest t r t' | _ \<Rightarrow> t' = t)"
      unfolding \<open>x = (v, md')\<close> prod.case
      by (rule does_try_fail [OF mount [OF v]])
        (use paths v in \<open>auto intro!: does_ret simp: staged_def MountAccess mountedOk_def\<close>)
  qed simp_all
qed (auto simp: stageMount_def staged_def intro!: does_ret)

lemma staged_any: "staged V vc dest t (Ret (Inr x)) t' \<Longrightarrow> staged V vc dest t r t'"
  by (auto simp: staged_def mountedOk_def split: access_type.splits outcome.splits sum.splits)

lemma NodeStage_does:
  assumes host: "mount_host (dr_env D) V" and dest: "path_ok (sgq_StagingTargetPath req)"
    and vc: "sgq_VolumeCapability req = Some vc"
  shows "does (mv_tab V) (NodeStageVolume D ctx req) t (staged V vc (sgq_StagingTargetPath req) t)"
proof -
  let ?E = "dr_env D" and ?dest = "sgq_StagingTargetPath req"
  let ?Q = "staged V vc ?dest t :: (goerr + unit) outcome \<Rightarrow> _"
  have stored: "does (mv_tab V) (failWith D Unknown (storeMetadata D v m)) t' ?Q" if "staged V vc ?dest t (Ret (Inr (x :: volume \<times> smap))) t'" for v m t' x
    by (rule does_leaves [OF leaves_failWith [OF storeMetadata_leaves [OF host]]], rule staged_any [OF that])
  have mounts: "does (mv_tab V) (tryG (stageMount D vol md vc ?dest) (\<lambda>p. failWith D Unknown (storeMetadata D (fst p) (snd p)))) t ?Q"
    if "path_ok (v_DevicePath vol)" "case vcp_AccessType vc of MountAccess _ \<Rightarrow> mdGet md ''fs_type'' \<in> {Ext4, Xfs} | _ \<Rightarrow> True" for vol md
    by (rule does_try [OF stageMount_does [OF host that(1) dest that(2)]]) (auto intro: stored)
  have fs: "case vcp_AccessType vc of MountAccess _ \<Rightarrow> mdGet (md(''device_path'' \<mapsto> d)) ''fs_type'' \<in> {Ext4, Xfs} | _ \<Rightarrow> True"
    if "case vcp_AccessType vc of MountAccess _ \<Rightarrow> mdGet md ''fs_type'' \<in> {Ext4, Xfs} | _ \<Rightarrow> True" for md d
    using that by (simp add: mdGet_def split: access_type.splits)
  note quiet = leaves_failWith backend_leaves [OF host] access_leaves [OF host] RegisterVolumeCapability_frame
  have registered: "does (mv_tab V) (tryG (failWith D Unknown (CreateGetInitiator ?E)) (\<lambda>ini.
      tryG (failWith D Unknown (RegisterAcl ?E vol ini)) (\<lambda>_.
      tryG (failWith D Unknown (Online ?E vol)) (\<lambda>vol.
      tryG (failWith D Unknown (Login ?E vol mp (mdGet md ''round_robin'' = ''true'') chap)) (\<lambda>vol.
      tryG (stageMount D vol (md(''device_path'' \<mapsto> v_DevicePath vol)) vc ?dest) (\<lambda>p.
      failWith D Unknown (storeMetadata D (fst p) (snd p)))))))) t ?Q"
    if "case vcp_AccessType vc of MountAccess _ \<Rightarrow> mdGet md ''fs_type'' \<in> {Ext4, Xfs} | _ \<Rightarrow> True" for vol md mp chap
    unfolding RegisterAcl_def
    by (intro does_try_after quiet staged_simps
        does_try_gives [OF leaves_failWith [OF access_leaves(3) [OF host]] gives_failWith [OF Login_path [OF host]]] mounts fs that)
  show ?thesis
    unfolding NodeStageVolume_def StripAndServe_def Let_def split_beta vc option.case
    by (intro does_serve host_others [OF host] frame_branches) (auto intro!: does_ret does_try_after quiet registered
        does_try_gives [OF leaves_failWith [OF RegisterVolumeCapability_frame(2)] gives_failWith [OF Register_fs]])
qed

section \<open>Publishing\<close>

lemma mountedOk_any: "mountedOk V dest t (Ret (Inr x)) t' \<Longrightarrow> mountedOk V dest t r t'"
  by (auto simp: mountedOk_def split: outcome.splits sum.splits)

lemma NodePublish_does:
  assumes host: "mount_host (dr_env D) V" and dest: "path_ok (pbq_TargetPath req)"
  shows "does (mv_tab V) (NodePublishVolume D ctx req) t (mountedOk V (pbq_TargetPath req) t)"
proof -
  let ?E = "dr_env D" and ?dest = "pbq_TargetPath req"
  let ?Q = "mountedOk V ?dest t :: (goerr + unit) outcome \<Rightarrow> _"
  note quiet = leaves_failWith backend_leaves [OF host] RegisterVolumeCapability_frame kp.frame_rules
  have stored: "does (mv_tab V) (bindG (derefG p) (\<lambda>ps. failWith D Unknown (storeMetadata D v (m ps)))) t' ?Q"
    if "mountedOk V ?dest t (Ret (Inr (x :: volume))) t'" for v m t' x p
    by (rule does_leaves [OF kp.frame_bind [OF kp.frame_deref leaves_failWith [OF storeMetadata_leaves [OF host]]]], rule mountedOk_any [OF that])
  have bound: "does (mv_tab V) (tryG (failWith D Unknown (BindMount ?E (vol\<lparr>v_BindMountPaths := ps\<rparr>) ?dest fs)) (\<lambda>vol.
      bindG (derefG (v_BindMountPaths vol)) (\<lambda>ps. failWith D Unknown (storeMetadata D vol (m ps))))) t ?Q"
    if "v_MountPath vol = [] \<or> path_ok (v_MountPath vol)" for vol ps fs m
  proof -
    have "does (mv_tab V) (BindMount ?E (vol\<lparr>v_BindMountPaths := ps\<rparr>) ?dest fs) t (\<lambda>r t'. case r of
        Ret (Inr _) \<Rightarrow> mountedOk V ?dest t r t' | _ \<Rightarrow> t' = t)"
    proof (cases "v_MountPath vol = []")
      case True
      then show ?thesis by (auto simp: BindMount_def intro!: does_ret)
    next
      case False
      with that have ok: "path_ok (v_MountPath vol)" by simp
      then have "v_MountPath (vol\<lparr>v_BindMountPaths := ps\<rparr>) = [] \<or> path_ok (v_MountPath (vol\<lparr>v_BindMountPaths := ps\<rparr>))"
        by simp
      from BindMount_does [OF host this dest] show ?thesis
        by (rule does_weaken) (use ok in \<open>auto simp: mountedOk_def split: outcome.splits sum.splits\<close>)
    qed
    then show ?thesis
      by (rule does_try_fail) (auto intro: stored)
  qed
  have found: "does (mv_tab V) (tryG (failWith D Unknown (GetMetadata ?E ai)) (\<lambda>md.
      tryG (failWith D InvalidArgument (RegisterVolumeCapability D md vc)) (\<lambda>md.
      bindG (derefG p) (\<lambda>ps.
      tryG (failWith D Unknown (BindMount ?E (vol\<lparr>v_BindMountPaths := Some (f md ps)\<rparr>) ?dest (mdGet md ''fs_type''))) (\<lambda>vol.
      bindG (derefG (v_BindMountPaths vol)) (\<lambda>ps. failWith D Unknown (storeMetadata D vol (h md ps)))))))) t ?Q"
    if "v_MountPath vol = [] \<or> path_ok (v_MountPath vol)" for ai vc p vol f h
    by (intro does_try_after does_after quiet mountedOk_simps bound that)
  have looked: "does (mv_tab V) (bindG (GetVolume ?E n False True) k) t ?Q"
    if "\<And>v. v_MountPath v = [] \<or> path_ok (v_MountPath v) \<Longrightarrow> does (mv_tab V) (k (Inr v)) t ?Q"
      and "\<And>e. does (mv_tab V) (k (Inl e)) t ?Q" for n k
  proof (rule does_bind)
    show "does (mv_tab V) (GetVolume ?E n False True) t
        (\<lambda>r t'. t' = t \<and> (\<forall>x. r = Ret (Inr x) \<longrightarrow> v_MountPath x = [] \<or> path_ok (v_MountPath x)))"
      using backend_leaves(3) [OF host, of n True] GetVolume_path [OF host, of n]
      unfolding does_def gives_def frame_def keeps_def by (metis prod.collapse)
    show "does (mv_tab V) (k r) t' ?Q"
      if "t' = t \<and> (\<forall>x. Ret r = Ret (Inr x) \<longrightarrow> v_MountPath x = [] \<or> path_ok (v_MountPath x))" for r t'
      using that \<open>\<And>v. v_MountPath v = [] \<or> path_ok (v_MountPath v) \<Longrightarrow> does (mv_tab V) (k (Inr v)) t ?Q\<close>
        \<open>\<And>e. does (mv_tab V) (k (Inl e)) t ?Q\<close> by (cases r) auto
  qed simp
  have nil: "does (mv_tab V) (bindG (derefG None) k) t ?Q" for k :: "volume \<Rightarrow> _"
    by (simp add: does_def go_eval)
  show ?thesis
    unfolding NodePublishVolume_def Let_def
    by (intro does_serve host_others [OF host]) (auto intro!: does_ret looked found nil split: option.splits)
qed

section \<open>Unpublishing and unstaging\<close>

text \<open>The outcomes of a handler that unmounts: a success has tried to; an error or a panic may have.\<close>

definition unmountedOk ::
    "'w env \<Rightarrow> string \<Rightarrow> mount_entry list \<Rightarrow> (goerr + 'r) outcome \<Rightarrow> mount_entry list \<Rightarrow> bool" where
  "unmountedOk E p t r t' \<longleftrightarrow> (case r of Ret (Inr _) \<Rightarrow> removes E p t t' | _ \<Rightarrow> t' = t \<or> removes E p t t')"

lemma unmountedOk_simps [simp]: "unmountedOk E p t (Panic q) t" "unmountedOk E p t (Ret (Inl e)) t"
  by (simp_all add: unmountedOk_def)

lemma removes_any: "removes E p t t' \<Longrightarrow> unmountedOk E p t r t'"
  by (simp add: unmountedOk_def split: outcome.splits sum.splits)

lemma NodeUnpublish_does:
  assumes host: "mount_host (dr_env D) V" and dest: "path_ok (pbq_TargetPath req)"
  shows "does (mv_tab V) (NodeUnpublishVolume D ctx req) t (unmountedOk (dr_env D) (pbq_TargetPath req) t)"
proof -
  let ?E = "dr_env D" and ?dest = "pbq_TargetPath req"
  let ?Q = "unmountedOk ?E ?dest t :: (goerr + unit) outcome \<Rightarrow> _"
  note quiet = leaves_failWith backend_leaves [OF host] storeMetadata_leaves [OF host] kp.frame_rules
  have unbind: "does (mv_tab V) (bindG (UnBindMount ?E v ?dest) (\<lambda>_. ret (Inr ()))) t ?Q" for v
    by (rule does_bind [OF UnBindMount_does [OF host dest]]) (auto intro!: does_ret removes_any)
  have "does (mv_tab V) (tryG (failWith D NotFound (GetVolume ?E n False True)) (\<lambda>vol.
       tryG (failWith D Unknown (GetMetadata ?E (v_Ai vol))) (\<lambda>md.
       bindG (derefG (v_BindMountPaths vol)) (\<lambda>ps.
       tryG (failWith D Unknown (storeMetadata D (f vol md ps) (g md))) (\<lambda>_.
          bindG (UnBindMount ?E (f vol md ps) ?dest) (\<lambda>_. ret (Inr ()))))))) t ?Q" for n f g
    by (intro does_try_after does_after quiet unmountedOk_simps unbind)
  then show ?thesis
    unfolding NodeUnpublishVolume_def Let_def
    by (intro does_serve host_others [OF host] frame_branches) (auto intro!: does_ret)
qed

text \<open>Unstaging takes the mount point from the volume that was looked up.\<close>

lemma unstage_does:
  assumes host: "mount_host (dr_env D) V" and vol: "v_MountPath vol = [] \<or> path_ok (v_MountPath vol)"
  shows "does (mv_tab V) (bindG (orElse (Unmount (dr_env D) vol) vol) (\<lambda>vol.
       bindG (orElse (GetMetadata (dr_env D) (v_Ai vol)) Map.empty) (\<lambda>md.
       bindG (storeMetadata D vol (md(''mount_path'' \<mapsto> []))) (\<lambda>_.
       bindG (orElse (Logout (dr_env D) vol) vol) (\<lambda>vol.
       bindG (orElse (CreateGetInitiator (dr_env D)) None) (\<lambda>ini.
       bindG (UnregisterAcl (dr_env D) vol ini) (\<lambda>_.
       bindG (if mdGet (md(''mount_path'' \<mapsto> [])) ''delete_on_unmount'' = ''true'' then Delete (dr_env D) vol False
              else ret (Inr ())) (\<lambda>_.
       ret (Inr ())))))))))  t
    (\<lambda>r t'. if v_MountPath vol = [] then t' = t else removes (dr_env D) (v_MountPath vol) t t')"
proof -
  note quiet = leaves_failWith backend_leaves [OF host] storeMetadata_leaves [OF host] access_leaves [OF host]
  have un: "does (mv_tab V) (orElse (Unmount (dr_env D) vol) vol) t
      (\<lambda>r t'. if v_MountPath vol = [] then t' = t else removes (dr_env D) (v_MountPath vol) t t')"
    unfolding orElse_def by (rule does_bind [OF Unmount_does [OF host vol]]) (auto intro!: does_ret)
  show ?thesis
    unfolding UnregisterAcl_def
    by (rule does_bind [OF un], rule does_leaves, intro frame_branches kp.frame_rules quiet orElse_leaves) auto
qed

lemma NodeUnstage_does:
  assumes host: "mount_host (dr_env D) V"
  shows "does (mv_tab V) (NodeUnstageVolume D ctx req) t
    (\<lambda>r t'. t' = t \<or> (\<exists>p. mv_rec V p \<and> removes (dr_env D) p t t'))"
    (is "does _ _ _ ?Q")
proof -
  have looked: "does (mv_tab V) (tryG (failWith D NotFound (GetVolume (dr_env D) n False True)) k) t ?Q"
    if "\<And>v. v_MountPath v = [] \<or> path_ok (v_MountPath v) \<Longrightarrow>
      does (mv_tab V) (k v) t (\<lambda>r t'. if v_MountPath v = [] then t' = t else removes (dr_env D) (v_MountPath v) t t')" for n k
  proof (rule does_try_gives [OF leaves_failWith [OF backend_leaves(3) [OF host]] gives_failWith [OF GetVolume_mount_path [OF host]]])
    fix v :: volume assume v: "v_MountPath v = [] \<or> path_ok (v_MountPath v) \<and> mv_rec V (v_MountPath v)"
    then have "does (mv_tab V) (k v) t (\<lambda>r t'. if v_MountPath v = [] then t' = t else removes (dr_env D) (v_MountPath v) t t')"
      by (intro that) auto
    then show "does (mv_tab V) (k v) t ?Q"
      by (rule does_weaken) (use v in \<open>auto split: if_splits\<close>)
  qed simp_all
  show ?thesis
    unfolding NodeUnstageVolume_def Let_def
    by (intro does_serve host_others [OF host] frame_branches) (auto intro!: does_ret looked unstage_does [OF host])
qed

lemma NodeOthers_leave:
  assumes host: "mount_host (dr_env D) V"
  shows "does (mv_tab V) (NodeGetCapabilities D ctx r) t (\<lambda>_ t'. t' = t)"
    "does (mv_tab V) (NodeGetInfo D ctx r) t (\<lambda>_ t'. t' = t)"
    "does (mv_tab V) (NodeGetVolumeStats D ctx vid) t (\<lambda>_ t'. t' = t)"
    "does (mv_tab V) (NodeExpandVolume D ctx ereq) t (\<lambda>_ t'. t' = t)"
  unfolding NodeGetCapabilities_def NodeGetInfo_def NodeGetVolumeStats_def NodeExpandVolume_def GetUsage_def
    firstVolume_def Let_def split_beta
  by (intro does_serve host_others [OF host] does_leaves leaves_rules leaves_failWith backend_leaves [OF host]
      mount_client_leaves [OF host]; simp)+

end
