(* ===== verification/Mount_Refinement.thy ===== *)
theory Mount_Refinement
  imports Node_Mounts
begin

text \<open>
  The node service as a refinement of a table of mounts: what each RPC may do to the table is one rule of
  \<open>mount_step\<close>, and a sequence of RPCs behind the interceptor is a run of the specification. From the
  runs follow the mounts that a host can have and the ones that it keeps.
\<close>

section \<open>The specification\<close>

definition mountCap :: "vol_cap option \<Rightarrow> bool" where
  "mountCap p \<longleftrightarrow> (case p of Some vc \<Rightarrow> (case vcp_AccessType vc of MountAccess _ \<Rightarrow> True | _ \<Rightarrow> False) | None \<Rightarrow> False)"

text \<open>The RPCs of the node, with paths as the kubelet gives them.\<close>

fun nodeRpc :: "rpc \<Rightarrow> bool" where
  "nodeRpc (RpcNodeStage r) = path_ok (sgq_StagingTargetPath r)"
| "nodeRpc (RpcNodeUnstage _) = True"
| "nodeRpc (RpcNodePublish r) = path_ok (pbq_TargetPath r)"
| "nodeRpc (RpcNodeUnpublish r) = path_ok (pbq_TargetPath r)"
| "nodeRpc (RpcNodeCapabilities _) = True"
| "nodeRpc (RpcNodeInfo _) = True"
| "nodeRpc (RpcNodeStats _) = True"
| "nodeRpc (RpcNodeExpand _) = True"
| "nodeRpc _ = False"

text \<open>Those that mount or unmount.\<close>

fun mounting :: "rpc \<Rightarrow> bool" where
  "mounting (RpcNodeStage _) = True"
| "mounting (RpcNodeUnstage _) = True"
| "mounting (RpcNodePublish _) = True"
| "mounting (RpcNodeUnpublish _) = True"
| "mounting _ = False"

text \<open>\<open>mount_step E V r ok t t'\<close>: the request \<open>r\<close>, answered without an error when \<open>ok\<close>, may take the table
  \<open>t\<close> to \<open>t'\<close>. Only a request that fails may leave its mount out; one that fails after it mounted does not
  take the mount back.\<close>

inductive mount_step ::
    "'w env \<Rightarrow> 'w mount_view \<Rightarrow> rpc \<Rightarrow> bool \<Rightarrow> mount_entry list \<Rightarrow> mount_entry list \<Rightarrow> bool" for E V where
  Failed: "mount_step E V r False t t"
| Stage: "mountCap (sgq_VolumeCapability q) \<Longrightarrow> path_ok src \<Longrightarrow> adds V src (sgq_StagingTargetPath q) t t' \<Longrightarrow>
    mount_step E V (RpcNodeStage q) ok t t'"
| StageBlock: "\<not> mountCap (sgq_VolumeCapability q) \<Longrightarrow> mount_step E V (RpcNodeStage q) ok t t"
| Publish: "path_ok src \<Longrightarrow> adds V src (pbq_TargetPath p) t t' \<Longrightarrow> mount_step E V (RpcNodePublish p) ok t t'"
| Unpublish: "removes E (pbq_TargetPath p) t t' \<Longrightarrow> mount_step E V (RpcNodeUnpublish p) ok t t'"
| Unstage: "mv_rec V path \<Longrightarrow> removes E path t t' \<Longrightarrow> mount_step E V (RpcNodeUnstage q) ok t t'"
| UnstageNone: "mount_step E V (RpcNodeUnstage q) ok t t"
| Other: "\<not> mounting r \<Longrightarrow> mount_step E V r ok t t"

text \<open>Runs of the specification, from request to request.\<close>

inductive mount_run ::
    "'w env \<Rightarrow> 'w mount_view \<Rightarrow> (rpc \<times> bool) list \<Rightarrow> mount_entry list \<Rightarrow> mount_entry list \<Rightarrow> bool" for E V where
  Done: "mount_run E V [] t t"
| Next: "mount_step E V r ok t t1 \<Longrightarrow> mount_run E V rs t1 t' \<Longrightarrow> mount_run E V ((r, ok) # rs) t t'"

section \<open>The handlers\<close>

fun succeeded :: "(goerr + 'a) outcome \<Rightarrow> bool" where
  "succeeded (Ret (Inr _)) = True"
| "succeeded _ = False"

lemma does_void:
  assumes "does g m t (\<lambda>r t'. S (succeeded r) t')"
  shows "does g (void m) t (\<lambda>r t'. S (succeeded r) t')"
  unfolding void_def by (rule does_bind [OF assms]) (auto intro!: does_ret split: sum.splits)

lemma does_interceptor:
  assumes "\<And>w. g (snd (x_new_uuid E w)) = g w" and "\<And>c. does g (h c) t Q" and "\<And>p. Q (Panic p) t"
  shows "does g (logServerAndSetId E ctx h) t Q"
  unfolding logServerAndSetId_def GenId_def WithCtxt_def
  by (intro does_after leaves_rules assms)

lemma stage_step:
  assumes "staged V vc (sgq_StagingTargetPath q) t r t'" and "sgq_VolumeCapability q = Some vc"
  shows "mount_step E V (RpcNodeStage q) (succeeded r) t t'"
proof (cases "mountCap (sgq_VolumeCapability q)")
  case True
  with assms have "mountedOk V (sgq_StagingTargetPath q) t r t'"
    by (auto simp: mountCap_def staged_def split: access_type.splits)
  then show ?thesis
    by (cases r rule: succeeded.cases) (auto simp: mountedOk_def intro: Failed Stage [OF True])
next
  case False
  with assms have "t' = t" by (auto simp: mountCap_def staged_def split: access_type.splits)
  with False show ?thesis by (simp add: StageBlock)
qed

lemma publish_step:
  "mountedOk V (pbq_TargetPath p) t r t' \<Longrightarrow> mount_step E V (RpcNodePublish p) (succeeded r) t t'"
  by (cases r rule: succeeded.cases) (auto simp: mountedOk_def intro: Failed Publish)

lemma unpublish_step:
  "unmountedOk E (pbq_TargetPath p) t r t' \<Longrightarrow> mount_step E V (RpcNodeUnpublish p) (succeeded r) t t'"
  by (cases r rule: succeeded.cases) (auto simp: unmountedOk_def intro: Failed Unpublish)

text \<open>Staging without a capability is an error.\<close>

lemma NodeStage_no_cap:
  assumes host: "mount_host (dr_env D) V" and none: "sgq_VolumeCapability req = None"
  shows "does (mv_tab V) (NodeStageVolume D ctx req) t (\<lambda>r t'. t' = t)"
  unfolding NodeStageVolume_def StripAndServe_def Let_def split_beta none option.case
  by (intro does_serve host_others [OF host] frame_branches) (auto intro!: does_ret)

lemma handle_does:
  assumes host: "mount_host (dr_env D) V" and "nodeRpc r"
  shows "does (mv_tab V) (handle D ctx r) t (\<lambda>x t'. mount_step (dr_env D) V r (succeeded x) t t')"
  using assms(2)
proof (cases r)
  case (RpcNodeStage q)
  then have path: "path_ok (sgq_StagingTargetPath q)" using assms(2) by simp
  have "does (mv_tab V) (NodeStageVolume D ctx q) t (\<lambda>x t'. mount_step (dr_env D) V (RpcNodeStage q) (succeeded x) t t')"
  proof (cases "sgq_VolumeCapability q")
    case None
    then have "\<not> mountCap (sgq_VolumeCapability q)" by (simp add: mountCap_def)
    then show ?thesis by (auto intro: does_weaken [OF NodeStage_no_cap [OF host None]] StageBlock)
  next
    case (Some vc)
    then show ?thesis by (auto intro: does_weaken [OF NodeStage_does [OF host path Some]] stage_step)
  qed
  then show ?thesis unfolding RpcNodeStage handle.simps by (rule does_void)
next
  case (RpcNodePublish p)
  with assms(2) have "path_ok (pbq_TargetPath p)" by simp
  then show ?thesis
    unfolding RpcNodePublish handle.simps
    by (intro does_void) (auto intro: does_weaken [OF NodePublish_does [OF host]] publish_step)
next
  case (RpcNodeUnpublish p)
  with assms(2) have "path_ok (pbq_TargetPath p)" by simp
  then show ?thesis
    unfolding RpcNodeUnpublish handle.simps
    by (intro does_void) (auto intro: does_weaken [OF NodeUnpublish_does [OF host]] unpublish_step)
next
  case (RpcNodeUnstage q)
  show ?thesis
    unfolding RpcNodeUnstage handle.simps
    by (intro does_void) (auto intro: does_weaken [OF NodeUnstage_does [OF host]] Unstage UnstageNone)
next
  case (RpcNodeCapabilities q)
  show ?thesis
    unfolding RpcNodeCapabilities handle.simps
    by (rule does_void, rule does_weaken [OF NodeOthers_leave(1) [OF host]]) (simp add: Other)
next
  case (RpcNodeInfo q)
  show ?thesis
    unfolding RpcNodeInfo handle.simps
    by (rule does_void, rule does_weaken [OF NodeOthers_leave(2) [OF host]]) (simp add: Other)
next
  case (RpcNodeStats q)
  show ?thesis
    unfolding RpcNodeStats handle.simps
    by (rule does_void, rule does_weaken [OF NodeOthers_leave(3) [OF host]]) (simp add: Other)
next
  case (RpcNodeExpand q)
  show ?thesis
    unfolding RpcNodeExpand handle.simps
    by (rule does_void, rule does_weaken [OF NodeOthers_leave(4) [OF host]]) (simp add: Other)
qed simp_all

text \<open>Requests one after the other, each behind the interceptor: which of them succeeded, and the state.\<close>

fun calls :: "'w driver \<Rightarrow> rpc_ctx \<Rightarrow> rpc list \<Rightarrow> 'w st \<Rightarrow> bool list \<times> 'w st" where
  "calls D c [] s = ([], s)"
| "calls D c (r # rs) s =
     (let (x, s1) = logServerAndSetId (dr_env D) c (\<lambda>ctx. handle D ctx r) s;
          (oks, s2) = calls D c rs s1
      in (succeeded x # oks, s2))"

lemma call_step:
  assumes "mount_host (dr_env D) V" and "nodeRpc r" and "logServerAndSetId (dr_env D) c (\<lambda>ctx. handle D ctx r) s = (x, s1)"
  shows "mount_step (dr_env D) V r (succeeded x) (mv_tab V (ext s)) (mv_tab V (ext s1))"
proof -
  have "does (mv_tab V) (logServerAndSetId (dr_env D) c (\<lambda>ctx. handle D ctx r)) (mv_tab V (ext s))
      (\<lambda>x t'. mount_step (dr_env D) V r (succeeded x) (mv_tab V (ext s)) t')"
    by (rule does_interceptor) (auto intro: handle_does assms host_others [OF assms(1)] Failed)
  from doesD [OF this refl assms(3)] show ?thesis .
qed

lemma calls_run:
  assumes "mount_host (dr_env D) V" and "list_all nodeRpc rs"
  shows "mount_run (dr_env D) V (zip rs (fst (calls D c rs s))) (mv_tab V (ext s)) (mv_tab V (ext (snd (calls D c rs s))))"
  using assms(2)
proof (induction rs arbitrary: s)
  case Nil
  then show ?case by (simp add: Done)
next
  case (Cons r rs)
  obtain x s1 where step: "logServerAndSetId (dr_env D) c (\<lambda>ctx. handle D ctx r) s = (x, s1)" by fastforce
  from Cons call_step [OF assms(1) _ step] show ?case
    by (simp add: step split_beta Next)
qed


section \<open>The mounts of a host\<close>

text \<open>The mount points that a request asks for, and those that it may take away.\<close>

fun asksFor :: "rpc \<Rightarrow> string set" where
  "asksFor (RpcNodeStage q) = (if mountCap (sgq_VolumeCapability q) then {sgq_StagingTargetPath q} else {})"
| "asksFor (RpcNodePublish p) = {pbq_TargetPath p}"
| "asksFor _ = {}"

fun givesUp :: "'w mount_view \<Rightarrow> rpc \<Rightarrow> string \<Rightarrow> bool" where
  "givesUp V (RpcNodeUnpublish p) path = (path = pbq_TargetPath p)"
| "givesUp V (RpcNodeUnstage _) path = mv_rec V path"
| "givesUp V _ path = False"

lemma removes_subset: "removes E p t t' \<Longrightarrow> set t' \<subseteq> set t"
  using dropMount_subset by (auto simp: removes_def)

lemma step_new:
  "mount_step E V r ok t t' \<Longrightarrow> e \<in> set t' \<Longrightarrow> e \<in> set t \<or> fst (snd e) \<in> asksFor r"
  by (induction rule: mount_step.induct) (auto simp: adds_def dest: removes_subset)

lemma step_keeps:
  "mount_step E V r ok t t' \<Longrightarrow> e \<in> set t \<Longrightarrow> \<not> givesUp V r (fst e) \<Longrightarrow> \<not> givesUp V r (fst (snd e)) \<Longrightarrow> e \<in> set t'"
  by (induction rule: mount_step.induct) (auto simp: adds_def removes_def mountedAt_def intro!: dropMount_keeps)

lemma run_new:
  "mount_run E V rs t t' \<Longrightarrow> e \<in> set t' \<Longrightarrow> e \<in> set t \<or> (\<exists>r \<in> set rs. fst (snd e) \<in> asksFor (fst r))"
  by (induction rule: mount_run.induct) (auto dest!: step_new)

lemma run_keeps:
  "mount_run E V rs t t' \<Longrightarrow> e \<in> set t \<Longrightarrow>
   \<forall>r \<in> set rs. \<not> givesUp V (fst r) (fst e) \<and> \<not> givesUp V (fst r) (fst (snd e)) \<Longrightarrow> e \<in> set t'"
  by (induction rule: mount_run.induct) (auto dest: step_keeps)



section \<open>Round trips\<close>

text \<open>The table together with the metadata.\<close>

abbreviation withMd :: "'w mount_view \<Rightarrow> ('w \<Rightarrow> string \<Rightarrow> smap) \<Rightarrow> 'w \<Rightarrow> mount_entry list \<times> (string \<Rightarrow> smap)" where
  "withMd V M \<equiv> (\<lambda>w. (mv_tab V w, M w))"

lemma does_table: "does (mv_tab V) m t Q \<Longrightarrow> does (withMd V M) m (t, md) (\<lambda>r x. Q r (fst x))"
  by (simp add: does_def)

lemma GetVolume_does:
  assumes host: "mount_host E V" and store: "md_store E M"
  shows "does (withMd V M) (GetVolume E n False True) (t, md)
    (\<lambda>r x. x = (t, md) \<and> (\<forall>v. r = Ret (Inr v) \<longrightarrow> v_MountPath v = mdGet (md n) ''mount_path''))"
  unfolding does_def
proof (intro allI impI)
  fix s :: "'a st"
  assume s: "withMd V M (ext s) = (t, md)"
  obtain r s' where run: "GetVolume E n False True s = (r, s')" by fastforce
  have "mv_tab V (ext s') = t" "M (ext s') = md"
    using frameD [OF backend_leaves(3) [OF host] run] frameD [OF reads_keep(2) [OF store] run] s
    by (simp_all add: keeps_def)
  moreover have "v_MountPath v = mdGet (md n) ''mount_path''" if "r = Ret (Inr v)" for v
    using GetVolume_metadata [OF store, of n s v s'] run that s by simp
  ultimately show "withMd V M (ext (snd (GetVolume E n False True s))) = (t, md) \<and>
      (\<forall>v. fst (GetVolume E n False True s) = Ret (Inr v) \<longrightarrow> v_MountPath v = mdGet (md n) ''mount_path'')"
    by (simp add: run)
qed

lemma NodeUnstage_removes:
  assumes host: "mount_host (dr_env D) V" and store: "md_store (dr_env D) M" and quiet: "md_quiet (dr_env D) M"
    and path: "mdGet (md (sgq_VolumeId req)) ''mount_path'' = p" "path_ok p"
  shows "does (withMd V M) (NodeUnstageVolume D ctx req) (t, md)
    (\<lambda>r x. r = Ret (Inr ()) \<longrightarrow> removes (dr_env D) p t (fst x))"
    (is "does _ _ _ ?Q")
proof -
  have uuid: "withMd V M (snd (x_new_uuid (dr_env D) w)) = withMd V M w" for w
    using host_others(18) [OF host] quiet by (simp add: md_quiet_def)
  have looked: "does (withMd V M) (tryG (failWith D NotFound (GetVolume (dr_env D) (sgq_VolumeId req) False True)) k) (t, md) ?Q"
    if "\<And>v. v_MountPath v = p \<Longrightarrow>
      does (mv_tab V) (k v) t (\<lambda>r t'. if v_MountPath v = [] then t' = t else removes (dr_env D) (v_MountPath v) t t')" for k
  proof (rule does_try_fail [OF GetVolume_does [OF host store]])
    fix v :: volume and x assume "x = (t, md) \<and> (\<forall>u. Ret (Inr v) = Ret (Inr u) \<longrightarrow> v_MountPath u = mdGet (md (sgq_VolumeId req)) ''mount_path'')"
    then have x: "x = (t, md)" and v: "v_MountPath v = p" using path by auto
    have "p \<noteq> []" using path(2) by (auto simp: path_ok_def)
    with v show "does (withMd V M) (k v) x ?Q"
      unfolding x by (intro does_weaken [OF does_table [OF that [OF v]]]) simp
  qed simp_all
  show ?thesis
    unfolding NodeUnstageVolume_def Let_def
    by (intro does_serve uuid frame_branches) (use path(2) in \<open>auto intro!: does_ret looked unstage_does [OF host]\<close>)
qed

lemma mountOk_added:
  assumes "mountedOk V p t (Ret (Inr x)) t'"
  obtains src r where "t' = t @ [(resolve V t src, p, r)]"
  using assms by (auto simp: mountedOk_def adds_def)

lemma unmounted_last: "umount_works E p \<Longrightarrow> removes E p (t @ [(d, p, r)]) t' \<Longrightarrow> t' = t"
  by (simp add: removes_def dropMount_last mountedAt_def)

lemma staged_then_unstaged:
  assumes host: "mount_host (dr_env D) V" and store: "md_store (dr_env D) M" and quiet: "md_quiet (dr_env D) M"
    and path: "path_ok (sgq_StagingTargetPath req)" and works: "umount_works (dr_env D) (sgq_StagingTargetPath req)"
    and vc: "sgq_VolumeCapability req = Some vc" "vcp_AccessType vc = MountAccess m"
    and stage: "NodeStageVolume D ctx req s = (Ret (Inr ()), s')"
    and same: "mv_tab V (ext u) = mv_tab V (ext s')" "M (ext u) (sgq_VolumeId req) = M (ext s') (sgq_VolumeId req)"
    and unstage: "NodeUnstageVolume D ctx' ureq u = (Ret (Inr ()), u')" "sgq_VolumeId ureq = sgq_VolumeId req"
  shows "(\<exists>d r. mv_tab V (ext s') = mv_tab V (ext s) @ [(d, sgq_StagingTargetPath req, r)]) \<and>
    mv_tab V (ext u') = mv_tab V (ext s)"
proof -
  let ?p = "sgq_StagingTargetPath req"
  from doesD [OF NodeStage_does [OF host path vc(1)] refl stage] vc(2)
  have "mountedOk V ?p (mv_tab V (ext s)) (Ret (Inr ()) :: (goerr + unit) outcome) (mv_tab V (ext s'))"
    by (simp add: staged_def)
  then obtain d r where added: "mv_tab V (ext s') = mv_tab V (ext s) @ [(d, ?p, r)]"
    by (rule mountOk_added)
  have "remembered vc ?p (M (ext s') (sgq_VolumeId req))"
    using NodeStage_ends [OF store vc(1)] stage by (auto simp: ends_def)
  then have rec: "mdGet (M (ext u) (sgq_VolumeId ureq)) ''mount_path'' = ?p"
    using vc(2) by (simp add: remembered_def mdGet_def same(2) unstage(2))
  have start: "withMd V M (ext u) = (mv_tab V (ext s) @ [(d, ?p, r)], M (ext u))"
    by (simp add: same(1) added)
  from doesD [OF NodeUnstage_removes [where md = "M (ext u)", OF host store quiet rec path] start unstage(1)]
  have "mv_tab V (ext u') = mv_tab V (ext s)" by (simp add: unmounted_last [OF works])
  with added show ?thesis by blast
qed




section \<open>What the searches of the table find\<close>

text \<open>C19: the search for the device of a path takes any line that matches: with a line of another device before,
  such as \<open>/dev/sdba\<close> when the volume's is \<open>/dev/sdb\<close>, it is that other device that is mounted.\<close>

theorem mount_takes_matching_device:
  assumes "mount_host E V" and "path_ok (v_DevicePath v)" and "path_ok dest" and "TrimSpace fs \<noteq> []"
    and "filter (\<lambda>e. mv_match V (v_DevicePath v) (procLine e)) (mv_tab V (ext s)) = (d, q, r) # es"
    and "Mount E v dest options fs s = (Ret (Inr w), s')"
  shows "\<exists>x. mv_tab V (ext s') = mv_tab V (ext s) @ [(mv_real V d, dest, x)]"
proof -
  have "does (mv_tab V) (Mount E v dest options fs) (mv_tab V (ext s)) (\<lambda>r t'. case r of
      Ret (Inr w) \<Rightarrow> w = v\<lparr>v_MountPath := dest\<rparr> \<and> adds V (v_DevicePath v) dest (mv_tab V (ext s)) t'
    | _ \<Rightarrow> t' = mv_tab V (ext s))"
    by (rule Mount_does [OF assms(1)]) (use assms(2-4) in simp_all)
  from doesD [OF this refl assms(6)] assms(5) show ?thesis
    by (simp add: adds_def resolve_def)
qed

text \<open>The check whether a device is mounted runs grep without a shell, with the quotes in the pattern: on a
  host where grep finds no line for a pattern with a quote when no line of the table has one, the check
  never finds a device, and \<open>Format\<close> goes on to make a file system on a device that is mounted.\<close>

theorem mounted_check_never_fires:
  assumes "prefix ''/'' (v_DevicePath v)" and "\<not> v_Formatted v"
    and "\<And>p w. \<forall>e \<in> set (mv_tab V w). CHR 39 \<notin> set (procLine e) \<Longrightarrow>
      snd (fst (x_exec E [''grep'', [CHR 39, CHR ''/''] @ p, ''/proc/mounts''] w)) \<noteq> None"
    and "findFs E (v_DevicePath v) s = (Ret (Inl e), s1)"
    and "\<forall>e \<in> set (mv_tab V (ext s1)). CHR 39 \<notin> set (procLine e)"
  shows "Format E v fsType fsArgs timeout s =
    tryG (format_device E (v_DevicePath v) fsType fsArgs timeout)
      (\<lambda>_. ret (Inr (v\<lparr>v_FsType := fsType, v_FsArgs := fsArgs\<rparr>))) (snd (findMnt E (v_DevicePath v) s1))"
proof -
  from assms(1) obtain p where path: "v_DevicePath v = CHR ''/'' # p" by (auto simp: prefix_def)
  have "TrimSpace ([CHR 39] @ v_DevicePath v @ [CHR 39]) = [CHR 39, CHR ''/''] @ p @ [CHR 39]"
    "TrimSpace ''/proc/mounts'' = ''/proc/mounts''"
    unfolding path by ((subst TrimSpace_id; simp add: isSpace_def)+)
  with assms(3) [OF assms(5), of "p @ [CHR 39]"]
  have "\<exists>e. fst (findMnt E (v_DevicePath v) s1) = Ret (Inl e)"
    by (auto simp: findMnt_def RunCmd_def go_eval Let_def split_beta split: option.splits)
  then obtain e' s2 where "findMnt E (v_DevicePath v) s1 = (Ret (Inl e'), s2)"
    by (metis prod.collapse)
  then show ?thesis using assms(2,4) by (simp add: Format_def go_eval)
qed

end
