(* ===== verification/Demo_Host.thy ===== *)
theory Demo_Host
  imports Demo_Server Mount_Refinement
begin

text \<open>
  A host with a table of mounts, and a backend that keeps metadata: concrete functions for the programs
  that the driver runs, which satisfy the laws of \<open>mount_host\<close>, \<open>md_store\<close> and \<open>md_quiet\<close>. Like the
  backend of \<open>Demo_Backend\<close> they model no code of the repository.
\<close>

section \<open>The host\<close>

definition deviceOk :: "string \<Rightarrow> bool" where
  "deviceOk d \<longleftrightarrow> d \<noteq> [] \<and> list_all (\<lambda>c. \<not> isSpace c) d"

definition mountsOf :: "demo \<Rightarrow> mount_entry list" where
  "mountsOf w = filter (\<lambda>e. deviceOk (fst e)) (dm_mounts w)"

definition realOf :: "string \<Rightarrow> string" where
  "realOf d = (if path_ok d then d else ''/'')"

definition failed :: "demo \<Rightarrow> (string \<times> goerr option) \<times> demo" where
  "failed w = (([], Some unsupported), w)"

definition grepAnswer :: "string \<Rightarrow> demo \<Rightarrow> (string \<times> goerr option) \<times> demo" where
  "grepAnswer p w = (case filter (\<lambda>e. contains (procLine e) p) (mountsOf w) of
      [] \<Rightarrow> failed w
    | es \<Rightarrow> ((concat (map (\<lambda>e. procLine e @ [CHR 10]) es), None), w))"

definition hostExec :: "string list \<Rightarrow> demo \<Rightarrow> (string \<times> goerr option) \<times> demo" where
  "hostExec c w = (case c of
      [] \<Rightarrow> failed w
    | p # args \<Rightarrow>
        if p = ''mount'' then
          (case mountOf args of
             Some (d, q) \<Rightarrow>
               if deviceOk d then (([], None), w\<lparr>dm_mounts := mountsOf w @ [(d, q, ''ext4 rw'')]\<rparr>) else failed w
           | None \<Rightarrow> failed w)
        else if p = ''umount'' then (([], None), w\<lparr>dm_mounts := dropMount (concat args) (mountsOf w)\<rparr>)
        else if p = ''sh'' then grepAnswer (takeWhile (\<lambda>c. c \<noteq> CHR 39) (drop 6 (concat (drop 1 args)))) w
        else if p = ''grep'' then grepAnswer (hd args) w
        else if p = ''readlink'' then ((realOf (last args), None), w)
        else (([], None), w))"

section \<open>The backend\<close>

text \<open>Metadata that would name another mount point than \<open>/stage\<close> is not taken.\<close>

definition mdOk :: "smap \<Rightarrow> bool" where
  "mdOk m \<longleftrightarrow> mdGet m ''mount_path'' \<in> {[], ''/stage''}"

definition mdOf :: "demo \<Rightarrow> string \<Rightarrow> smap" where
  "mdOf w n = (case map_of (dm_md w) n of None \<Rightarrow> Map.empty | Some m \<Rightarrow> if mdOk m then m else Map.empty)"

definition nodeEnv :: "demo env" where
  "nodeEnv = demoEnv
     \<lparr>x_ai_get := (\<lambda>n w. found (map_option (\<lambda>_. demoAi n 16) (map_of (dm_ais w) n)) w),
      x_ai_reload := (\<lambda>ai w. found (Some (demoAi (ai_Name ai) 16)) w),
      x_md_get := (\<lambda>ai w. found (Some (mdOf w (ai_Name ai))) w),
      x_md_set := (\<lambda>ai md w.
        if mdOk md then ((Some md, None, None), w\<lparr>dm_md := (ai_Name ai, mdOf w (ai_Name ai) ++ md) # dm_md w\<rparr>)
        else ((None, Some notFound, None), w)),
      x_exec := hostExec\<rparr>"

lemma mdOk_add: "mdOk m \<Longrightarrow> mdOk m' \<Longrightarrow> mdOk (m ++ m')"
  by (auto simp: mdOk_def mdGet_def map_add_def split: option.splits)

lemma mdOk_mdOf: "mdOk (mdOf w n)"
  by (simp add: mdOf_def mdOk_def mdGet_def split: option.splits)

lemma mdOf_cong: "dm_md w' = dm_md w \<Longrightarrow> mdOf w' = mdOf w"
  by (simp add: fun_eq_iff mdOf_def)

lemma hostExec_md: "dm_md (snd (hostExec c w)) = dm_md w"
  by (simp add: hostExec_def grepAnswer_def failed_def split: list.splits option.splits prod.splits)

lemma nodeEnv_store: "md_store nodeEnv mdOf"
proof -
  have stored: "mdOf (w\<lparr>dm_md := (n, mdOf w n ++ m) # dm_md w\<rparr>) = (mdOf w)(n := mdOf w n ++ m)" if "mdOk m" for w n m
    using mdOk_add [OF mdOk_mdOf that, of w n] by (auto simp: fun_eq_iff mdOf_def)
  show ?thesis
    by (auto simp: md_store_def nodeEnv_def found_def stored split: option.splits if_splits)
qed

lemma nodeEnv_quiet: "md_quiet nodeEnv mdOf"
  by (auto simp: md_quiet_def nodeEnv_def demoEnv_def hostExec_md intro!: mdOf_cong)

section \<open>The laws\<close>

definition demoView :: "demo mount_view" where
  "demoView = \<lparr>mv_tab = mountsOf, mv_match = (\<lambda>p l. contains l p), mv_real = realOf, mv_rec = (\<lambda>p. p = ''/stage'')\<rparr>"

lemma demoView_simps [simp]:
  "mv_tab demoView = mountsOf" "mv_match demoView p l = contains l p" "mv_real demoView = realOf"
  "mv_rec demoView p = (p = ''/stage'')"
  by (simp_all add: demoView_def)

lemma demo_paths [simp]: "path_ok ''/stage''" "path_ok ''/pod''" "path_ok ''/dev/sdb''" "path_ok ''/dev/sdba''" "path_ok ''/data''" "path_ok ''/''"
  by (simp_all add: path_ok_def) (rule TrimSpace_id; simp add: isSpace_def)+

lemma realOf_ok: "path_ok (realOf d)"
  by (simp add: realOf_def)

lemma mountsOf_updates [simp]:
  "mountsOf (w\<lparr>dm_mounts := mountsOf u @ [(d, p, r)]\<rparr>) = mountsOf u @ (if deviceOk d then [(d, p, r)] else [])"
  "mountsOf (w\<lparr>dm_mounts := dropMount p (mountsOf u)\<rparr>) = dropMount p (mountsOf u)"
proof -
  have "filter (\<lambda>e. deviceOk (fst e)) xs = xs" if "set xs \<subseteq> set (mountsOf u)" for xs
    using that by (auto simp: filter_id_conv mountsOf_def)
  from this [OF dropMount_subset] show "mountsOf (w\<lparr>dm_mounts := dropMount p (mountsOf u)\<rparr>) = dropMount p (mountsOf u)"
    by (simp add: mountsOf_def)
qed (simp add: mountsOf_def)

lemma mountsOf_other [simp]:
  "mountsOf (w\<lparr>dm_ais := a\<rparr>) = mountsOf w" "mountsOf (w\<lparr>dm_snaps := b\<rparr>) = mountsOf w"
  "mountsOf (w\<lparr>dm_md := c\<rparr>) = mountsOf w" "mountsOf (w\<lparr>dm_files := d\<rparr>) = mountsOf w"
  by (simp_all add: mountsOf_def)

lemma mountsOf_found [simp]: "snd (found p w) = w"
  by (simp add: found_def split: option.splits)

lemma grepCmd_exec:
  assumes "CHR 39 \<notin> set p"
  shows "hostExec (grepCmd p) w = grepAnswer p w"
proof -
  have "takeWhile (\<lambda>c. c \<noteq> CHR 39) (p @ CHR 39 # rest) = p" for rest
    by (subst takeWhile_append2) (use assms in auto)
  then show ?thesis by (simp add: hostExec_def grepCmd_def)
qed

lemma nodeEnv_grep: "grep_law nodeEnv demoView"
  by (auto simp: grep_law_def nodeEnv_def grepCmd_exec grepAnswer_def failed_def unsupported_def
      split: list.splits)

lemma nodeEnv_programs:
  "readlink_law nodeEnv demoView" "mount_law nodeEnv demoView" "umount_law nodeEnv demoView" "exec_law nodeEnv demoView"
proof -
  have "TrimSpace (realOf d) = realOf d" for d
    using realOf_ok [of d] by (simp add: path_okD)
  then show "readlink_law nodeEnv demoView"
    by (simp add: readlink_law_def nodeEnv_def hostExec_def)
  show "mount_law nodeEnv demoView"
    by (auto simp: mount_law_def nodeEnv_def hostExec_def failed_def unsupported_def)
  show "umount_law nodeEnv demoView"
    by (simp add: umount_law_def nodeEnv_def hostExec_def)
  show "exec_law nodeEnv demoView"
    by (auto simp: exec_law_def nodeEnv_def hostExec_def grepAnswer_def failed_def split: list.splits)
qed

lemma nodeEnv_others: "mount_others nodeEnv demoView"
  by (simp add: mount_others_def nodeEnv_def demoEnv_def Let_def)

lemma nodeEnv_paths: "paths_law nodeEnv demoView" "entries_law demoView"
proof -
  have "mdGet (mdOf w n) ''mount_path'' \<in> {[], ''/stage''}" for w n
    using mdOk_mdOf [of w n] by (simp add: mdOk_def)
  then have "mdGet (mdOf w n) ''mount_path'' = [] \<or>
      path_ok (mdGet (mdOf w n) ''mount_path'') \<and> mdGet (mdOf w n) ''mount_path'' = ''/stage''" for w n
    by (metis demo_paths(1) insertE singletonD)
  then show "paths_law nodeEnv demoView"
    by (auto simp: paths_law_def nodeEnv_def demoEnv_def found_def)
  show "entries_law demoView"
    by (auto simp: entries_law_def realOf_ok mountsOf_def deviceOk_def list_all_iff)
qed

lemma nodeEnv_host: "mount_host nodeEnv demoView"
  by (simp add: mount_host_def nodeEnv_grep nodeEnv_programs nodeEnv_others nodeEnv_paths)

lemma nodeEnv_umounts: "umount_works nodeEnv p"
  by (simp add: umount_works_def nodeEnv_def hostExec_def)

end
