(* ===== verification/Demo_Node.thy ===== *)
theory Demo_Node
  imports Demo_Host
begin

text \<open>
  Runs of the node RPCs on the host with a table of mounts: staging, publishing and unpublishing a volume
  there. \<open>goes\<close> is a run between two worlds.
\<close>

section \<open>Steps\<close>

definition stageReq :: stage_req where
  "stageReq = \<lparr>sgq_VolumeId = ''CSI-a'', sgq_StagingTargetPath = ''/stage'',
     sgq_VolumeCapability = Some \<lparr>vcp_AccessMode = None, vcp_AccessType = MountAccess (Some \<lparr>mv_FsType = [], mv_MountFlags = []\<rparr>)\<rparr>,
     sgq_Secrets = Map.empty\<rparr>"

lemmas runs = go_eval sdkResult_def Let_def found_def failWith_def

lemma node_calls:
  "x_ai_get nodeEnv = (\<lambda>n w. found (map_option (\<lambda>_. demoAi n 16) (map_of (dm_ais w) n)) w)"
  "x_ai_reload nodeEnv = (\<lambda>ai w. found (Some (demoAi (ai_Name ai) 16)) w)"
  "x_md_get nodeEnv = (\<lambda>ai w. found (Some (mdOf w (ai_Name ai))) w)"
  "x_md_set nodeEnv = (\<lambda>ai md w.
     if mdOk md then ((Some md, None, None), w\<lparr>dm_md := (ai_Name ai, mdOf w (ai_Name ai) ++ md) # dm_md w\<rparr>)
     else ((None, Some notFound, None), w))"
  "x_exec nodeEnv = hostExec"
  "x_ai_set nodeEnv = x_ai_set demoEnv" "x_not_exist nodeEnv = x_not_exist demoEnv"
  "x_mkdir_all nodeEnv = x_mkdir_all demoEnv" "x_iscsi_connect nodeEnv = x_iscsi_connect demoEnv"
  "x_read_file nodeEnv = x_read_file demoEnv" "x_init_get nodeEnv = x_init_get demoEnv"
  "x_acl_get nodeEnv = x_acl_get demoEnv" "x_acl_set nodeEnv = x_acl_set demoEnv"
  "x_lsblk_json nodeEnv = x_lsblk_json demoEnv"
  by (simp_all add: nodeEnv_def)

lemma clientVol_fields [simp]:
  "v_Ai (clientVol c ai si dv acl t) = ai" "v_Ips (clientVol c ai si dv acl t) = si_Ips si"
  "v_Formatted (clientVol c ai si dv acl t) = False" "v_DevicePath (clientVol c ai si dv acl t) = []"
  by (simp_all add: clientVol_def)

text \<open>A run from any state with the world \<open>w\<close>.\<close>

definition goes :: "('w, 'a) io \<Rightarrow> 'w \<Rightarrow> 'a \<Rightarrow> 'w \<Rightarrow> bool" where
  "goes m w x w' \<longleftrightarrow> (\<forall>s. ext s = w \<longrightarrow> (\<exists>s'. m s = (Ret x, s') \<and> ext s' = w'))"

lemma goesD: "goes m w x w' \<Longrightarrow> ext s = w \<Longrightarrow> \<exists>s'. m s = (Ret x, s') \<and> ext s' = w'"
  unfolding goes_def by blast

lemma goes_bind: "goes m w x w1 \<Longrightarrow> goes (k x) w1 y w2 \<Longrightarrow> goes (bindG m k) w y w2"
  by (fastforce simp: goes_def go_eval)

lemma goes_try: "goes m w (Inr x) w1 \<Longrightarrow> goes (k x) w1 y w2 \<Longrightarrow> goes (tryG m k) w y w2"
  by (fastforce simp: goes_def go_eval)

lemma goes_failWith: "goes m w (Inr x) w' \<Longrightarrow> goes (failWith D c m) w (Inr x) w'"
  by (fastforce simp: goes_def go_eval failWith_def)

lemma goes_ret: "goes (ret x) w x w"
  by (simp add: goes_def go_eval)

text \<open>What each step of staging does.\<close>

definition nodeVol :: volume where
  "nodeVol = clientVol True (demoAi ''CSI-a'' 16) (demoSi ''CSI-a'' 16) (demoDv ''CSI-a'' 16) \<lparr>acl_Initiators = []\<rparr> []"

lemma node_GetVolume:
  assumes "map_of (dm_ais w) ''CSI-a'' \<noteq> None"
  shows "goes (GetVolume nodeEnv ''CSI-a'' False True) w (Inr (withMetadata nodeEnv (mdOf w ''CSI-a'') nodeVol)) w"
  using assms
  by (auto simp: goes_def GetVolume_def runs node_calls sdkCall_def aiToClientVol_def firstVolume_def demoAi_def
      demoSi_def readLimits_off GetMetadata_def clientVol_def nodeVol_def)

lemma node_GetMetadata: "goes (GetMetadata nodeEnv ai) w (Inr (mdOf w (ai_Name ai))) w"
  by (auto simp: goes_def GetMetadata_def runs node_calls sdkCall_def)

lemma node_initiator:
  assumes "map_of (dm_files w) initiatorFile = Some ''InitiatorName=iqn.host''"
  shows "goes (CreateGetInitiator nodeEnv) w (Inr (Some \<lparr>ci_Init = \<lparr>in_Name = ''i'', in_Path = ''/initiators/iqn.host'',
    in_Id = ''iqn.host'', in_Tenant = []\<rparr>, ci_Name = ''i'', ci_Path = ''/initiators/iqn.host'', ci_Iqn = ''iqn.host''\<rparr>)) w"
  using assms
  by (auto simp: goes_def CreateGetInitiator_def GetClientIqn_def toInitiator_def runs node_calls demoEnv_def
      TrimSpace_def trimBytes_def isSpace_def)

lemma node_RegisterAcl: "v_Ai v = demoAi ''CSI-a'' 16 \<Longrightarrow> goes (RegisterAcl nodeEnv v (Some ci)) w (Inr ()) w"
  by (auto simp: goes_def RegisterAcl_def updateAcl_def runs node_calls sdkCall_def demo_calls demoAi_def demoSi_def)

definition onlineWorld :: "demo \<Rightarrow> demo" where
  "onlineWorld w = snd (x_ai_set demoEnv (demoAi ''CSI-a'' 16) ''online'' False w)"

lemma onlineWorld_fields [simp]:
  "mdOf (onlineWorld w) = mdOf w" "dm_files (onlineWorld w) = dm_files w" "mountsOf (onlineWorld w) = mountsOf w"
  "map_of (dm_ais (onlineWorld w)) ''CSI-a'' \<noteq> None"
  by (auto simp: onlineWorld_def demo_calls mdOf_def fun_eq_iff update_Some_unfold Let_def)

lemma node_Online:
  "v_Ai v = demoAi ''CSI-a'' 16 \<Longrightarrow> v_dc v \<Longrightarrow> goes (Online nodeEnv v) w (Inr nodeVol) (onlineWorld w)"
  by (auto simp: goes_def Online_def Reload_def runs node_calls sdkCall_def demo_calls onlineWorld_def
      aiToClientVol_def firstVolume_def demoAi_def demoSi_def readLimits_off clientVol_def nodeVol_def)

lemma node_Login: "v_Ips v \<noteq> [] \<Longrightarrow> goes (Login nodeEnv v mp False chap) w (Inr (v\<lparr>v_DevicePath := ''/dev/sdb''\<rparr>)) w"
  by (cases "v_Ips v") (auto simp: goes_def Login_def loginIps_def runs node_calls demoEnv_def)

text \<open>The programs.\<close>

lemma node_run:
  assumes "filter (\<lambda>c. c \<noteq> []) (map TrimSpace cmd) = c # cs" and "hostExec (c # cs) w = (r, w')"
  shows "goes (RunCmd nodeEnv cmd) w r w'"
  using assms by (simp add: goes_def RunCmd_def Let_def go_eval node_calls)

lemma hostExec_keeps: "c \<noteq> ''mount'' \<Longrightarrow> c \<noteq> ''umount'' \<Longrightarrow> snd (hostExec (c # cs) w) = w"
  by (simp add: hostExec_def grepAnswer_def failed_def split: list.splits)

lemma node_device:
  assumes "CHR 39 \<notin> set p"
  shows "goes (deviceFromMount nodeEnv p) w (case filter (\<lambda>e. contains (procLine e) p) (mountsOf w) of
      [] \<Rightarrow> Inl unsupported | e # _ \<Rightarrow> Inr (realOf (fst e))) w"
proof (cases "filter (\<lambda>e. contains (procLine e) p) (mountsOf w)")
  case Nil
  have "deviceFromMount nodeEnv p = bindG (RunCmd nodeEnv (grepCmd p)) (\<lambda>(out, err). case err of
      Some e \<Rightarrow> ret (Inl e)
    | None \<Rightarrow> bindG (indexG (Fields out) 0) (\<lambda>device. bindG (readlink nodeEnv device) (\<lambda>(dev, err). case err of
        Some _ \<Rightarrow> ret (Inr device) | None \<Rightarrow> ret (Inr (TrimSpace dev)))))"
    by (simp only: deviceFromMount_def grepCmd_def)
  with Nil assms show ?thesis
    by (simp add: goes_def RunCmd_grep go_eval node_calls grepCmd_exec grepAnswer_def failed_def)
next
  case (Cons e es)
  have keep: "frame (keeps ext) (RunCmd nodeEnv (c # cs))"
    if "TrimSpace c = c" "c \<noteq> []" "c \<noteq> ''mount''" "c \<noteq> ''umount''" for c cs
    using that by (simp add: RunCmd_def Let_def frame_def keeps_def go_eval node_calls hostExec_keeps)
  have "frame (keeps ext) (deviceFromMount nodeEnv p)"
    unfolding deviceFromMount_def readlink_def by (intro frame_branches kp.frame_rules keep; simp)
  moreover have "does mountsOf (deviceFromMount nodeEnv p) (mountsOf w) (\<lambda>r t'. r = Ret (Inr (realOf (fst e))))"
    using deviceFromMount_does [OF nodeEnv_host assms, of "mountsOf w"] Cons by (auto elim: does_weaken)
  ultimately have "fst (deviceFromMount nodeEnv p t) = Ret (Inr (realOf (fst e)))" "ext (snd (deviceFromMount nodeEnv p t)) = w"
    if "ext t = w" for t
    using that by (auto simp: does_def frame_def keeps_def)
  then show ?thesis
    unfolding goes_def Cons list.case by (metis prod.collapse)
qed

definition madeDir :: "string \<Rightarrow> demo \<Rightarrow> demo" where
  "madeDir dest w = (if map_of (dm_files w) dest = None then w\<lparr>dm_files := (dest, []) # dm_files w\<rparr> else w)"

definition mounted :: "string \<Rightarrow> string \<Rightarrow> demo \<Rightarrow> demo" where
  "mounted source dest w = (madeDir dest w)
     \<lparr>dm_mounts := mountsOf w @ [(resolve demoView (mountsOf w) source, dest, ''ext4 rw'')]\<rparr>"

lemma madeDir_simps [simp]:
  "mountsOf (madeDir dest w) = mountsOf w" "dm_ais (madeDir dest w) = dm_ais w" "dm_md (madeDir dest w) = dm_md w"
  by (simp_all add: madeDir_def)

lemma mounted_simps [simp]:
  "dm_ais (mounted source dest w) = dm_ais w" "dm_md (mounted source dest w) = dm_md w"
  "mdOf (mounted source dest w) = mdOf w"
  by (simp_all add: mounted_def) (rule mdOf_cong, simp)

lemma node_mount:
  assumes "path_ok source" and "path_ok dest" and "''--bind'' \<in> set opts \<or> TrimSpace fs \<noteq> []"
    and "deviceOk (resolve demoView (mountsOf w) source)"
  shows "goes (mount_dev nodeEnv source dest opts fs) w (Inr ()) (mounted source dest w)"
proof -
  define r where "r = (case filter (\<lambda>e. contains (procLine e) source) (mountsOf w) of
      [] \<Rightarrow> Inl unsupported | e # _ \<Rightarrow> Inr (realOf (fst e)))"
  have dev: "(case r of Inl _ \<Rightarrow> source | Inr dev \<Rightarrow> dev) = resolve demoView (mountsOf w) source"
    by (auto simp: r_def resolve_def split: list.splits)
  have ok: "case r of Inr dev \<Rightarrow> path_ok dev | Inl _ \<Rightarrow> True"
    by (auto simp: r_def realOf_ok split: list.splits)
  note device = node_device [of source "madeDir dest w", OF path_okD(4) [OF assms(1)], unfolded madeDir_simps, folded r_def]
  obtain args where cmd: "(case r of
      Inl _ \<Rightarrow> if ''--bind'' \<in> set opts then [''mount'', source, dest] @ opts else [''mount'', ''-t'', fs, source, dest] @ opts
    | Inr dev \<Rightarrow> [''mount'', dev, dest] @ remove1 ''--bind'' opts) = ''mount'' # args"
    and args: "mountOf (filter (\<lambda>c. c \<noteq> []) (map TrimSpace args)) = Some (resolve demoView (mountsOf w) source, dest)"
    using mount_command [OF assms(1,2) ok assms(3)] unfolding dev by metis
  have run: "goes (RunCmd nodeEnv (''mount'' # args)) (madeDir dest w) ([], None) (mounted source dest w)"
    by (rule node_run [where c = "''mount''"]) (simp, use args assms(4) in \<open>simp add: hostExec_def mounted_def\<close>)
  have stat: "goes (extG (StatFile dest) (x_not_exist nodeEnv dest)) w (map_of (dm_files w) dest = None) w"
    by (simp add: goes_def go_eval node_calls demoEnv_def)
  have dir: "goes (if map_of (dm_files w) dest = None then extG (MkdirAll dest) (x_mkdir_all nodeEnv dest) else ret None)
      w None (madeDir dest w)"
    by (simp add: goes_def go_eval node_calls demoEnv_def madeDir_def)
  show ?thesis
    unfolding mount_dev_def Let_def
    by (rule goes_bind [OF stat], rule goes_bind [OF dir], unfold option.case, rule goes_bind [OF device], unfold cmd,
      rule goes_bind [OF run]) (simp add: goes_ret)
qed

lemma node_storeMetadata:
  assumes "\<not> ev_MetadataDebug (dr_vars D)" and "dr_env D = nodeEnv" and "mdOk md"
  shows "goes (storeMetadata D vol md) w (Inr ())
    (w\<lparr>dm_md := (ai_Name (v_Ai vol), mdOf w (ai_Name (v_Ai vol)) ++ md) # dm_md w\<rparr>)"
  using assms by (auto simp: goes_def storeMetadata_def SetMetadata_def runs node_calls sdkCall_def)

text \<open>\<open>lsblk\<close>'s answer cannot be read there, the device is not found in the table, and \<open>mkfs\<close> succeeds.\<close>

lemma node_findFs: "goes (findFs nodeEnv ''/dev/sdb'') w (Inl unsupported) w"
proof -
  have "TrimSpace ''--json'' = ''--json''" "TrimSpace ''/dev/sdb'' = ''/dev/sdb''"
    by (rule TrimSpace_id; simp add: isSpace_def)+
  then have lsblk: "goes (RunCmd nodeEnv [''lsblk'', ''-f'', ''/dev/sdb'', ''--json'']) w ([], None) w"
    by (intro node_run [where c = "''lsblk''"]) (simp_all add: hostExec_def)
  show ?thesis
    unfolding findFs_def by (rule goes_bind [OF lsblk]) (simp add: nodeEnv_def demoEnv_def goes_ret)
qed

lemma node_Format:
  assumes "\<not> v_Formatted v" and "v_DevicePath v = ''/dev/sdb''" and "list_all (\<lambda>e. CHR 39 \<notin> set (procLine e)) (mountsOf w)"
  shows "goes (Format nodeEnv v Ext4 [[]] timeout) w (Inr (v\<lparr>v_FsType := Ext4, v_FsArgs := [[]]\<rparr>)) w"
proof -
  have trim: "TrimSpace ''/proc/mounts'' = ''/proc/mounts''" "TrimSpace ''mkfs.ext4'' = ''mkfs.ext4''"
    "TrimSpace ([CHR 39] @ ''/dev/sdb'' @ [CHR 39]) = [CHR 39] @ ''/dev/sdb'' @ [CHR 39]" "TrimSpace ''/dev/sdb'' = ''/dev/sdb''"
    by (rule TrimSpace_id; simp add: isSpace_def)+
  have "\<not> contains (procLine e) ([CHR 39] @ ''/dev/sdb'' @ [CHR 39])" if "e \<in> set (mountsOf w)" for e
  proof
    assume "contains (procLine e) ([CHR 39] @ ''/dev/sdb'' @ [CHR 39])"
    then have "CHR 39 \<in> set (procLine e)" unfolding contains_iff by auto
    with assms(3) that show False by (simp add: list_all_iff)
  qed
  then have none: "filter (\<lambda>e. contains (procLine e) ([CHR 39] @ ''/dev/sdb'' @ [CHR 39])) (mountsOf w) = []"
    by (simp only: filter_empty_conv) blast
  have grep: "goes (RunCmd nodeEnv [''grep'', [CHR 39] @ ''/dev/sdb'' @ [CHR 39], ''/proc/mounts'']) w ([], Some unsupported) w"
  proof (rule node_run [where c = "''grep''" and cs = "[[CHR 39] @ ''/dev/sdb'' @ [CHR 39], ''/proc/mounts'']"])
    show "filter (\<lambda>c. c \<noteq> []) (map TrimSpace [''grep'', [CHR 39] @ ''/dev/sdb'' @ [CHR 39], ''/proc/mounts'']) =
        [''grep'', [CHR 39] @ ''/dev/sdb'' @ [CHR 39], ''/proc/mounts'']"
      using trim by simp
    have "hostExec [''grep'', p, ''/proc/mounts''] w = grepAnswer p w" for p
      by (simp add: hostExec_def)
    then show "hostExec [''grep'', [CHR 39] @ ''/dev/sdb'' @ [CHR 39], ''/proc/mounts''] w = (([], Some unsupported), w)"
      by (simp only: grepAnswer_def none failed_def list.case)
  qed
  have mkfs: "goes (RunCmd nodeEnv ([''mkfs.'' @ Ext4] @ [[]] @ [''/dev/sdb''])) w ([], None) w"
    by (rule node_run [where c = "''mkfs.ext4''"])
      (simp add: Ext4_def trim TrimSpace_def [of "[]"] trimBytes_def, simp add: hostExec_def)
  have mnt: "goes (findMnt nodeEnv ''/dev/sdb'') w (Inl unsupported) w"
    unfolding findMnt_def by (rule goes_bind [OF grep]) (simp add: goes_ret)
  have made: "goes (format_device nodeEnv ''/dev/sdb'' Ext4 [[]] timeout) w (Inr ()) w"
    unfolding format_device_def
    by (subst formatLoop.simps, rule goes_bind [OF mkfs]) (simp add: goes_ret)
  show ?thesis
    unfolding Format_def if_not_P [OF assms(1)] assms(2)
    by (rule goes_bind [OF node_findFs], unfold sum.case, rule goes_bind [OF mnt], unfold sum.case, rule goes_try [OF made])
      (rule goes_ret)
qed

definition nodeDriver :: "demo driver" where
  "nodeDriver = demoDriver nodeEnv ''node''"

lemma nodeDriver_simps [simp]:
  "dr_env nodeDriver = nodeEnv" "\<not> ev_MetadataDebug (dr_vars nodeDriver)" "\<not> ev_DisableMultipath (dr_vars nodeDriver)"
  by (simp_all add: nodeDriver_def demoDriver_def newDriver_def readEnvVars_def Let_def)

lemma node_stageMount:
  assumes "\<not> v_Formatted v" and "v_DevicePath v = ''/dev/sdb''" and "v_Ai v = ai"
    and "list_all (\<lambda>e. CHR 39 \<notin> set (procLine e)) (mountsOf w)" and "deviceOk (resolve demoView (mountsOf w) ''/dev/sdb'')"
    and "dr_env D = nodeEnv" and "mdGet md ''m_args'' = []" and "mdGet md ''fs_args'' = []" and "mdGet md ''fs_type'' = Ext4"
  obtains v' where "v_Ai v' = ai" and "goes (stageMount D v md \<lparr>vcp_AccessMode = am, vcp_AccessType = MountAccess m\<rparr> ''/stage'') w
    (Inr (v', md(''formatted'' \<mapsto> ''true'', ''mount_path'' \<mapsto> ''/stage''))) (mounted ''/dev/sdb'' ''/stage'' w)"
proof -
  have args: "splitOn CHR '' '' [] = [[]]" by simp
  have same: "md(''formatted'' \<mapsto> ''true'') = md" if "mdGet md ''formatted'' = ''true''"
    using that by (auto simp: mdGet_def fun_upd_idem split: option.splits)
  obtain v1 where v1: "v_Ai v1 = ai" "v_DevicePath v1 = ''/dev/sdb''"
    and format: "goes (stageFormat D v md Ext4) w (Inr (v1, md(''formatted'' \<mapsto> ''true''))) w"
  proof (cases "mdGet md ''formatted'' = ''true''")
    case True
    then have "goes (stageFormat D v md Ext4) w (Inr (v, md(''formatted'' \<mapsto> ''true''))) w"
      by (simp add: stageFormat_def Let_def same goes_ret)
    with that assms(2,3) show thesis by blast
  next
    case False
    have "goes (stageFormat D v md Ext4) w
        (Inr (v\<lparr>v_FsType := Ext4, v_FsArgs := [[]], v_Formatted := True\<rparr>, md(''formatted'' \<mapsto> ''true''))) w"
      unfolding stageFormat_def Let_def assms(6,8) args
      using assms(1) False by (auto intro!: goes_try [OF goes_failWith [OF node_Format [OF assms(1,2,4)]]] goes_ret)
    then show thesis by (rule that [rotated 2]) (use assms(2,3) in simp_all)
  qed
  have fs: "TrimSpace Ext4 \<noteq> []" by (simp add: Ext4_def TrimSpace_def trimBytes_def isSpace_def)
  have mount: "goes (Mount nodeEnv v1 ''/stage'' opts Ext4) w (Inr (v1\<lparr>v_MountPath := ''/stage''\<rparr>)) (mounted ''/dev/sdb'' ''/stage'' w)" for opts
  proof -
    have "v_DevicePath v1 \<noteq> []" by (simp add: v1)
    then show ?thesis
      unfolding Mount_def v1(2) by (auto intro!: goes_try [OF node_mount] goes_ret simp: fs assms(5))
  qed
  have "goes (stageMount D v md \<lparr>vcp_AccessMode = am, vcp_AccessType = MountAccess m\<rparr> ''/stage'') w
    (Inr (v1\<lparr>v_MountPath := ''/stage''\<rparr>, md(''formatted'' \<mapsto> ''true'', ''mount_path'' \<mapsto> ''/stage''))) (mounted ''/dev/sdb'' ''/stage'' w)"
    unfolding stageMount_def vol_cap.simps access_type.case Let_def assms(6,9)
    by (simp add: Ext4_def, fold Ext4_def, rule goes_try [OF format], simp only: prod.case,
      rule goes_try [OF goes_failWith [OF mount]]) (simp add: goes_ret)
  with v1(1) show thesis by (intro that [of "v1\<lparr>v_MountPath := ''/stage''\<rparr>"]) simp_all
qed

text \<open>A handler from a state in which nothing runs.\<close>

lemma goes_serve:
  assumes "\<And>c. goes (body c) (ext s) x w" and "rpcStatus s = {}" and "ctx_TraceId ctx = Some i" and "i \<noteq> []"
  shows "\<exists>s'. serve D ctx piece fn req body s = (Ret x, s') \<and> ext s' = w"
proof -
  let ?k = "callKey D piece fn req"
    and ?c = "dr_sdkContext D (topctxt\<lparr>ctx_TraceId := Some i, ctx_ReqName := Some (joinWith ''.'' [piece, fn])\<rparr>)"
  have "ext (setRunning ?k s) = ext s" by (simp add: setRunning_def)
  with assms(1) [of ?c] obtain t where "body ?c (setRunning ?k s) = (Ret x, t)" and "ext t = w"
    unfolding goes_def by blast
  moreover have "\<not> isRunning ?k s" using assms(2) by (simp add: isRunning_def)
  ultimately show ?thesis
    using assms(3,4) by (simp add: serve_run Let_def) (simp add: clearRunning_def)
qed

section \<open>Staging\<close>

abbreviation stagedMd :: smap where
  "stagedMd \<equiv> [''access_type'' \<mapsto> ''mount'', ''fs_type'' \<mapsto> Ext4, ''m_flags'' \<mapsto> [], ''access_mode'' \<mapsto> [],
     ''device_path'' \<mapsto> ''/dev/sdb'', ''formatted'' \<mapsto> ''true'', ''mount_path'' \<mapsto> ''/stage'']"

text \<open>A world in which staging the volume succeeds.\<close>

definition stageable :: "demo \<Rightarrow> bool" where
  "stageable w \<longleftrightarrow> map_of (dm_ais w) ''CSI-a'' \<noteq> None \<and> map_of (dm_files w) initiatorFile = Some ''InitiatorName=iqn.host'' \<and>
     list_all (\<lambda>e. CHR 39 \<notin> set (procLine e)) (mountsOf w) \<and> deviceOk (resolve demoView (mountsOf w) ''/dev/sdb'') \<and>
     (\<forall>k \<in> {''m_args'', ''fs_args'', ''round_robin''}. mdGet (mdOf w ''CSI-a'') k = [])"

lemma stageReq_simps:
  "sgq_VolumeId stageReq = ''CSI-a''" "sgq_StagingTargetPath stageReq = ''/stage''"
  "sgq_VolumeCapability stageReq =
     Some \<lparr>vcp_AccessMode = None, vcp_AccessType = MountAccess (Some \<lparr>mv_FsType = [], mv_MountFlags = []\<rparr>)\<rparr>"
  by (simp_all add: stageReq_def)

lemma mdGet_upd: "mdGet (md(k \<mapsto> v)) k' = (if k' = k then v else mdGet md k')"
  by (simp add: mdGet_def)

lemma node_cap: "goes (RegisterVolumeCapability nodeDriver md
    (Some \<lparr>vcp_AccessMode = None, vcp_AccessType = MountAccess (Some \<lparr>mv_FsType = [], mv_MountFlags = []\<rparr>)\<rparr>)) w
  (Inr (md(''access_type'' \<mapsto> ''mount'', ''fs_type'' \<mapsto> Ext4, ''m_flags'' \<mapsto> [], ''access_mode'' \<mapsto> []))) w"
  by (simp add: goes_def go_eval RegisterVolumeCapability_def isSupportedFs_def SupportedFsTypes_def)

lemma node_stage:
  assumes "stageable (ext s)" and "rpcStatus s = {}" and "ctx_TraceId ctx = Some i" and "i \<noteq> []"
  obtains s' where "NodeStageVolume nodeDriver ctx stageReq s = (Ret (Inr ()), s')" and "rpcStatus s' = {}"
    and "map_of (dm_ais (ext s')) ''CSI-a'' \<noteq> None" and "dm_files (ext s') = dm_files (madeDir ''/stage'' (ext s))"
    and "mountsOf (ext s') = mountsOf (ext s) @ [(resolve demoView (mountsOf (ext s)) ''/dev/sdb'', ''/stage'', ''ext4 rw'')]"
    and "mdOf (ext s') ''CSI-a'' = mdOf (ext s) ''CSI-a'' ++ stagedMd"
proof -
  let ?w1 = "onlineWorld (ext s)" and ?old = "mdOf (ext s) ''CSI-a''"
  let ?md = "?old(''access_type'' \<mapsto> ''mount'', ''fs_type'' \<mapsto> Ext4, ''m_flags'' \<mapsto> [], ''access_mode'' \<mapsto> [])"
  let ?md' = "?md(''device_path'' \<mapsto> ''/dev/sdb'', ''formatted'' \<mapsto> ''true'', ''mount_path'' \<mapsto> ''/stage'')"
  let ?w2 = "mounted ''/dev/sdb'' ''/stage'' ?w1"
  let ?w3 = "?w2\<lparr>dm_md := (''CSI-a'', mdOf ?w2 ''CSI-a'' ++ ?md') # dm_md ?w2\<rparr>"
  have world: "map_of (dm_ais (ext s)) ''CSI-a'' \<noteq> None" "map_of (dm_files (ext s)) initiatorFile = Some ''InitiatorName=iqn.host''"
    "list_all (\<lambda>e. CHR 39 \<notin> set (procLine e)) (mountsOf ?w1)" "deviceOk (resolve demoView (mountsOf ?w1) ''/dev/sdb'')"
    using assms(1) by (simp_all add: stageable_def)
  have keys: "mdGet ?old ''m_args'' = []" "mdGet ?old ''fs_args'' = []" "mdGet ?old ''round_robin'' = []"
    using assms(1) by (simp_all add: stageable_def)
  have ai: "v_Ai (withMetadata nodeEnv md nodeVol) = demoAi ''CSI-a'' 16" "v_dc (withMetadata nodeEnv md nodeVol)" for md
    by (simp_all add: withMetadata_def nodeVol_def)
  have vol: "\<not> v_Formatted nodeVol" "v_Ai nodeVol = demoAi ''CSI-a'' 16" "v_Ips nodeVol \<noteq> []"
    by (simp_all add: nodeVol_def demoSi_def)
  have keys': "mdGet (?md(''device_path'' \<mapsto> d)) ''m_args'' = []" "mdGet (?md(''device_path'' \<mapsto> d)) ''fs_args'' = []"
    "mdGet (?md(''device_path'' \<mapsto> d)) ''fs_type'' = Ext4" "mdGet ?md ''round_robin'' = []" for d
    using keys by (simp_all add: mdGet_upd)
  obtain v' where v': "v_Ai v' = demoAi ''CSI-a'' 16"
    and mount: "goes (stageMount nodeDriver (nodeVol\<lparr>v_DevicePath := ''/dev/sdb''\<rparr>) (?md(''device_path'' \<mapsto> ''/dev/sdb''))
      \<lparr>vcp_AccessMode = None, vcp_AccessType = MountAccess (Some \<lparr>mv_FsType = [], mv_MountFlags = []\<rparr>)\<rparr> ''/stage'') ?w1
      (Inr (v', ?md')) ?w2"
    by (rule node_stageMount [of "nodeVol\<lparr>v_DevicePath := ''/dev/sdb''\<rparr>" "demoAi ''CSI-a'' 16" ?w1 nodeDriver
      "?md(''device_path'' \<mapsto> ''/dev/sdb'')"]) (use vol world(3,4) keys' in \<open>simp_all\<close>)
  have mdok: "mdOk ?md'" by (simp add: mdOk_def mdGet_def)
  have stored: "goes (failWith nodeDriver Unknown (storeMetadata nodeDriver v' ?md')) ?w2 (Inr ()) ?w3"
    using node_storeMetadata [of nodeDriver ?md' v' ?w2] mdok v' by (intro goes_failWith) simp
  have staged: "goes (tryG (stageMount nodeDriver (nodeVol\<lparr>v_DevicePath := ''/dev/sdb''\<rparr>)
        (?md(''device_path'' \<mapsto> v_DevicePath (nodeVol\<lparr>v_DevicePath := ''/dev/sdb''\<rparr>)))
        \<lparr>vcp_AccessMode = None, vcp_AccessType = MountAccess (Some \<lparr>mv_FsType = [], mv_MountFlags = []\<rparr>)\<rparr> ''/stage'') (\<lambda>p.
      failWith nodeDriver Unknown (storeMetadata nodeDriver (fst p) (snd p)))) ?w1 (Inr ()) ?w3"
  proof (rule goes_try)
    show "goes (stageMount nodeDriver (nodeVol\<lparr>v_DevicePath := ''/dev/sdb''\<rparr>)
        (?md(''device_path'' \<mapsto> v_DevicePath (nodeVol\<lparr>v_DevicePath := ''/dev/sdb''\<rparr>)))
        \<lparr>vcp_AccessMode = None, vcp_AccessType = MountAccess (Some \<lparr>mv_FsType = [], mv_MountFlags = []\<rparr>)\<rparr> ''/stage'') ?w1
      (Inr (v', ?md')) ?w2"
      using mount by simp
  qed (simp only: prod.sel, rule stored)
  have rr: "(mdGet ?md ''round_robin'' = ''true'') = False" using keys' by simp
  have "\<exists>s'. NodeStageVolume nodeDriver ctx stageReq s = (Ret (Inr ()), s') \<and> ext s' = ?w3"
    unfolding NodeStageVolume_def StripAndServe_def split_beta Let_def nodeDriver_simps
    by (rule goes_serve [where i = i], simp only: stageReq_simps option.case list.distinct if_False,
      rule goes_try [OF goes_failWith [OF node_GetVolume [OF world(1)]]],
      rule goes_try [OF goes_failWith [OF node_GetMetadata]], simp only: ai demo_names,
      rule goes_try [OF goes_failWith [OF node_cap]],
      rule goes_try [OF goes_failWith [OF node_initiator [OF world(2)]]],
      rule goes_try [OF goes_failWith [OF node_RegisterAcl [OF ai(1)]]],
      rule goes_try [OF goes_failWith [OF node_Online [OF ai]]], simp only: rr,
      rule goes_try [OF goes_failWith [OF node_Login [OF vol(3)]]], rule staged) (use assms(2-4) in simp_all)
  then obtain s' where run: "NodeStageVolume nodeDriver ctx stageReq s = (Ret (Inr ()), s')" and w: "ext s' = ?w3"
    by blast
  have "rpcStatus s' = {}"
    using frameD [OF keeps_parts(1) [OF node_frame(1)] run] assms(2) by (simp add: keeps_def)
  moreover have "mountsOf (ext s') = mountsOf (ext s) @ [(resolve demoView (mountsOf (ext s)) ''/dev/sdb'', ''/stage'', ''ext4 rw'')]"
    using world(4) by (simp add: w mounted_def)
  moreover have "mdOf (ext s') ''CSI-a'' = ?old ++ ?md'"
    using mdOk_add [OF mdOk_mdOf mdok, of "ext s" "''CSI-a''"] by (simp add: w mdOf_def [of "_\<lparr>dm_md := _\<rparr>"])
  moreover have "?old ++ ?md' = ?old ++ stagedMd" by (auto simp: fun_eq_iff map_add_def split: option.splits)
  moreover have "map_of (dm_ais (ext s')) ''CSI-a'' \<noteq> None" "dm_files (ext s') = dm_files (madeDir ''/stage'' (ext s))"
    using onlineWorld_fields(4) [of "ext s"] by (simp_all add: w) (simp add: mounted_def madeDir_def)
  ultimately show thesis using run that by metis
qed

lemma demo_stageable: "stageable demoWorld"
  by (simp add: stageable_def demoWorld_def mountsOf_def initiatorFile_def resolve_def deviceOk_def isSpace_def mdOf_def mdGet_def)

theorem staged_volume_remembered_witness:
  "\<exists>s' v t'. NodeStageVolume nodeDriver tracedCtx stageReq (demoSt demoWorld) = (Ret (Inr ()), s') \<and>
     GetVolume nodeEnv ''CSI-a'' False True s' = (Ret (Inr v), t') \<and> v_Formatted v \<and> v_MountPath v = ''/stage''"
proof -
  obtain s' where run: "NodeStageVolume nodeDriver tracedCtx stageReq (demoSt demoWorld) = (Ret (Inr ()), s')"
    and ais: "map_of (dm_ais (ext s')) ''CSI-a'' \<noteq> None"
    by (rule node_stage [of "demoSt demoWorld" tracedCtx "''t-1''"]) (use demo_stageable in auto)
  obtain v t' where get: "GetVolume nodeEnv ''CSI-a'' False True s' = (Ret (Inr v), t')"
    using node_GetVolume [OF ais] by (auto simp: goes_def)
  with staged_volume_remembered [of nodeDriver mdOf stageReq _ tracedCtx "demoSt demoWorld" s' s' v t'] run nodeEnv_store
  show ?thesis by (auto simp: stageReq_simps)
qed

section \<open>Staging again\<close>

definition formattedMdEnv :: "demo env" where
  "formattedMdEnv = nodeEnv\<lparr>x_md_get := (\<lambda>_ w. found (Some [''formatted'' \<mapsto> ''true'']) w)\<rparr>"

theorem restaging_spares_data_witness:
  "frame (logs (\<lambda>e. \<not> formats e)) (NodeStageVolume (demoDriver formattedMdEnv ''node'') tracedCtx stageReq)"
  by (rule restaging_spares_data) (auto simp: formattedMdEnv_def found_def mdGet_def)

section \<open>Publishing\<close>

definition publishReq :: publish_req where
  "publishReq = \<lparr>pbq_VolumeId = ''CSI-a'', pbq_StagingTargetPath = ''/stage'', pbq_TargetPath = ''/pod'',
     pbq_VolumeCapability = Some \<lparr>vcp_AccessMode = None, vcp_AccessType = BlockAccess\<rparr>, pbq_VolumeContext = None\<rparr>"

definition stagedWorld :: demo where
  "stagedWorld = demoWorld\<lparr>dm_md := [(''CSI-a'', stagedMd)], dm_mounts := [(''/dev/sdb'', ''/stage'', ''ext4 rw'')]\<rparr>"

lemma goes_deref: "p = Some x \<Longrightarrow> goes (k x) w y w' \<Longrightarrow> goes (bindG (derefG p) k) w y w'"
  by (simp add: goes_def go_eval)

lemma node_store:
  "v_Ai v = demoAi ''CSI-a'' 16 \<Longrightarrow> mdOk md \<Longrightarrow> goes (failWith nodeDriver Unknown (storeMetadata nodeDriver v md)) w (Inr ())
    (w\<lparr>dm_md := (''CSI-a'', mdOf w ''CSI-a'' ++ md) # dm_md w\<rparr>)"
  by (rule goes_failWith) (use node_storeMetadata [of nodeDriver md v w] in simp)

lemma withMetadata_fields [simp]:
  "v_Ai (withMetadata E md v) = v_Ai v" "v_BindMountPaths (withMetadata E md v) =
     Some (x_ss_new E (splitOn CHR '' '' (mdGet md ''bind-mount-paths'')))"
  "v_DevicePath (withMetadata E md v) = mdGet md ''device_path''" "v_MountPath (withMetadata E md v) = mdGet md ''mount_path''"
  by (simp_all add: withMetadata_def)

lemma podDetails_none: "podDetails None md = md"
  by (simp add: podDetails_def)

lemma staged_mounts: "mountsOf stagedWorld = [(''/dev/sdb'', ''/stage'', ''ext4 rw'')]"
  "mdOf stagedWorld ''CSI-a'' = stagedMd" "map_of (dm_ais stagedWorld) ''CSI-a'' \<noteq> None" "mdOk stagedMd"
proof -
  show "mdOk stagedMd" by (simp add: mdOk_def mdGet_def)
  then show "mountsOf stagedWorld = [(''/dev/sdb'', ''/stage'', ''ext4 rw'')]" "mdOf stagedWorld ''CSI-a'' = stagedMd"
    "map_of (dm_ais stagedWorld) ''CSI-a'' \<noteq> None"
    by (simp_all add: stagedWorld_def demoWorld_def mdOf_def mountsOf_def deviceOk_def isSpace_def)
qed

lemma publishReq_simps:
  "pbq_VolumeId publishReq = ''CSI-a''" "pbq_StagingTargetPath publishReq = ''/stage''"
  "pbq_TargetPath publishReq = ''/pod''" "pbq_VolumeContext publishReq = None"
  "pbq_VolumeCapability publishReq = Some \<lparr>vcp_AccessMode = None, vcp_AccessType = BlockAccess\<rparr>"
  by (simp_all add: publishReq_def)

text \<open>The device of the staging path is found in the table, and it is the device that is mounted for the
  pod.\<close>

lemma staged_device: "resolve demoView [(''/dev/sdb'', ''/stage'', ''ext4 rw'')] ''/stage'' = ''/dev/sdb''"
  by (simp add: resolve_def procLine_def realOf_def)

lemma node_publish:
  obtains s' where "NodePublishVolume nodeDriver tracedCtx publishReq (demoSt stagedWorld) = (Ret (Inr ()), s')"
    and "map_of (dm_ais (ext s')) ''CSI-a'' \<noteq> None" and "rpcStatus s' = {}"
    and "mountsOf (ext s') = [(''/dev/sdb'', ''/stage'', ''ext4 rw''), (''/dev/sdb'', ''/pod'', ''ext4 rw'')]"
proof -
  let ?w1 = "mounted ''/stage'' ''/pod'' stagedWorld"
  have ai: "v_Ai nodeVol = demoAi ''CSI-a'' 16" by (simp add: nodeVol_def)
  have bind: "goes (BindMount nodeEnv v ''/pod'' fs) stagedWorld
      (Inr (v\<lparr>v_BindMountPaths := Some (x_ss_add nodeEnv ''/pod'' ps)\<rparr>)) ?w1"
    if "v_DevicePath v \<noteq> []" "v_MountPath v = ''/stage''" "v_BindMountPaths v = Some ps" for v fs ps
    using that by (auto simp: BindMount_def staged_mounts staged_device deviceOk_def isSpace_def
        intro!: goes_try [OF node_mount] goes_ret)
  have cap: "goes (RegisterVolumeCapability nodeDriver md (Some \<lparr>vcp_AccessMode = None, vcp_AccessType = BlockAccess\<rparr>)) w
      (Inr (md(''access_type'' \<mapsto> ''block'', ''access_mode'' \<mapsto> []))) w" for md w
    by (simp add: goes_def go_eval RegisterVolumeCapability_def)
  let ?md = "stagedMd(''access_type'' \<mapsto> ''block'', ''access_mode'' \<mapsto> [])"
  let ?vol = "withMetadata nodeEnv stagedMd nodeVol"
  have mdok: "mdOk (?md(''bind_mount'' \<mapsto> x))" for x by (simp add: mdOk_def mdGet_def)
  have stored: "goes (tryG (failWith nodeDriver Unknown (BindMount nodeEnv (?vol\<lparr>v_BindMountPaths := Some ps\<rparr>) ''/pod'' fs)) (\<lambda>vol.
      bindG (derefG (v_BindMountPaths vol)) (\<lambda>ps.
      failWith nodeDriver Unknown (storeMetadata nodeDriver vol (podDetails None
        (?md(''bind_mount'' \<mapsto> joinWith '','' (x_ss_list nodeEnv ps)))))))) stagedWorld (Inr ())
      (?w1\<lparr>dm_md := (''CSI-a'', mdOf ?w1 ''CSI-a'' ++ podDetails None
        (?md(''bind_mount'' \<mapsto> joinWith '','' (x_ss_list nodeEnv (x_ss_add nodeEnv ''/pod'' ps))))) # dm_md ?w1\<rparr>)" for ps fs
    by (rule goes_try [OF goes_failWith [OF bind [where ps = ps]]])
      (simp add: mdGet_def, simp add: mdGet_def, simp, rule goes_deref [where x = "x_ss_add nodeEnv ''/pod'' ps"], simp,
        rule node_store, simp add: ai, unfold podDetails_none, rule mdok)
  define ps where "ps = fold (x_ss_add nodeEnv) (splitOn CHR '','' (mdGet ?md ''bind_mount''))
      (x_ss_new nodeEnv (splitOn CHR '' '' (mdGet stagedMd ''bind-mount-paths'')))"
  have "\<exists>s'. NodePublishVolume nodeDriver tracedCtx publishReq (demoSt stagedWorld) = (Ret (Inr ()), s') \<and>
      ext s' = ?w1\<lparr>dm_md := (''CSI-a'', mdOf ?w1 ''CSI-a'' ++ podDetails None
        (?md(''bind_mount'' \<mapsto> joinWith '','' (x_ss_list nodeEnv (x_ss_add nodeEnv ''/pod'' ps))))) # dm_md ?w1\<rparr>"
    unfolding NodePublishVolume_def Let_def nodeDriver_simps
    by (rule goes_serve [where i = "''t-1''"], simp only: publishReq_simps option.case demoSt_simps list.distinct if_False,
      rule goes_bind [OF node_GetVolume [OF staged_mounts(3)]], simp only: staged_mounts(2) sum.case, rule goes_deref, rule refl,
      rule goes_try [OF goes_failWith [OF node_GetMetadata]], simp only: withMetadata_fields ai demo_names staged_mounts(2),
      rule goes_try [OF goes_failWith [OF cap]], rule goes_deref, rule refl, fold ps_def, rule stored) simp_all
  then obtain s' md where run: "NodePublishVolume nodeDriver tracedCtx publishReq (demoSt stagedWorld) = (Ret (Inr ()), s')"
    and s': "ext s' = ?w1\<lparr>dm_md := (''CSI-a'', mdOf ?w1 ''CSI-a'' ++ podDetails None md) # dm_md ?w1\<rparr>"
    by blast
  have "rpcStatus s' = {}"
    using frameD [OF keeps_parts(1) [OF node_frame(3)] run] by (simp add: keeps_def)
  moreover have "map_of (dm_ais (ext s')) ''CSI-a'' \<noteq> None"
    "mountsOf (ext s') = [(''/dev/sdb'', ''/stage'', ''ext4 rw''), (''/dev/sdb'', ''/pod'', ''ext4 rw'')]"
    using staged_mounts(3) by (simp_all add: s') (simp add: mounted_def mountsOf_def [of "_\<lparr>dm_mounts := _\<rparr>"] staged_mounts(1) staged_device deviceOk_def isSpace_def)
  ultimately show thesis using that run by blast
qed

text \<open>\<open>umount\<close> succeeds there, and the mount point is removed.\<close>

definition unmounted :: "string \<Rightarrow> demo \<Rightarrow> demo" where
  "unmounted p w = w\<lparr>dm_mounts := dropMount p (mountsOf w)\<rparr>"

lemma unmounted_simps [simp]:
  "dm_ais (unmounted p w) = dm_ais w" "dm_files (unmounted p w) = dm_files w" "mdOf (unmounted p w) = mdOf w"
  "mountsOf (unmounted p w) = dropMount p (mountsOf w)"
  by (simp_all add: unmounted_def) (rule mdOf_cong, simp)

lemma node_umount:
  assumes "path_ok p"
  shows "goes (RunCmd nodeEnv [''umount'', p]) w ([], None) (unmounted p w)"
  by (rule node_run [where c = "''umount''"]) (simp add: path_okD [OF assms], simp add: hostExec_def unmounted_def)

lemma node_unmount:
  assumes "path_ok p"
  shows "goes (unmount nodeEnv p) w (Inr ()) ((unmounted p w)\<lparr>dm_files := filter (\<lambda>(q, _). q \<noteq> p) (dm_files w)\<rparr>)"
  unfolding unmount_def
  by (rule goes_bind [OF node_umount [OF assms]])
    (simp add: goes_def go_eval nodeEnv_def demoEnv_def)

lemma mdOk_upd: "k \<noteq> ''mount_path'' \<Longrightarrow> mdOk (md(k \<mapsto> v)) = mdOk md"
  by (simp add: mdOk_def mdGet_upd)

lemma node_unpublish:
  assumes "map_of (dm_ais (ext s)) ''CSI-a'' \<noteq> None" and "rpcStatus s = {}"
  obtains s' where "NodeUnpublishVolume nodeDriver tracedCtx publishReq s = (Ret (Inr ()), s')" and "rpcStatus s' = {}"
proof -
  let ?md = "mdOf (ext s) ''CSI-a''"
  let ?md' = "?md(''pod_name'' \<mapsto> [], ''pod_namespace'' \<mapsto> [], ''pod_uid'' \<mapsto> [], ''k8s_service_account'' \<mapsto> [])"
  let ?w1 = "(ext s)\<lparr>dm_md := (''CSI-a'', ?md ++ ?md') # dm_md (ext s)\<rparr>"
  have ai: "v_Ai nodeVol = demoAi ''CSI-a'' 16" by (simp add: nodeVol_def)
  have ok: "mdOk ?md'" by (simp add: mdOk_upd mdOk_mdOf)
  have unbind: "goes (UnBindMount nodeEnv v ''/pod'') w (Inr (v\<lparr>v_BindMountPaths := Some (x_ss_delete nodeEnv ''/pod'' ps)\<rparr>))
      ((unmounted ''/pod'' w)\<lparr>dm_files := filter (\<lambda>(q, _). q \<noteq> ''/pod'') (dm_files w)\<rparr>)"
    if "v_BindMountPaths v = Some ps" for v ps w
    unfolding UnBindMount_def
    by (rule goes_bind [OF node_unmount], simp, unfold sum.case, rule goes_deref [OF that], rule goes_ret)
  have "\<exists>s'. NodeUnpublishVolume nodeDriver tracedCtx publishReq s = (Ret (Inr ()), s') \<and>
      ext s' = (unmounted ''/pod'' ?w1)\<lparr>dm_files := filter (\<lambda>(q, _). q \<noteq> ''/pod'') (dm_files ?w1)\<rparr>"
    unfolding NodeUnpublishVolume_def Let_def nodeDriver_simps
    by (rule goes_serve [where i = "''t-1''"], simp only: publishReq_simps list.distinct if_False,
      rule goes_try [OF goes_failWith [OF node_GetVolume [OF assms(1)]]],
      rule goes_try [OF goes_failWith [OF node_GetMetadata]], simp only: withMetadata_fields ai demo_names,
      rule goes_deref, rule refl, rule goes_try [OF node_store], simp add: ai, rule ok,
      rule goes_bind [OF unbind], simp, rule goes_ret) (use assms in simp_all)
  then obtain s' where run: "NodeUnpublishVolume nodeDriver tracedCtx publishReq s = (Ret (Inr ()), s')" by blast
  have "rpcStatus s' = {}"
    using frameD [OF keeps_parts(1) [OF node_frame(4)] run] assms(2) by (simp add: keeps_def)
  with run show thesis by (rule that)
qed

theorem unpublish_leaves_record_witness:
  "\<exists>s1 s2. NodePublishVolume nodeDriver tracedCtx publishReq (demoSt stagedWorld) = (Ret (Inr ()), s1) \<and>
     NodeUnpublishVolume nodeDriver tracedCtx publishReq s1 = (Ret (Inr ()), s2) \<and>
     (\<exists>ps. mdOf (ext s2) ''CSI-a'' ''bind_mount'' = Some (joinWith '','' (''/pod'' # ps)))"
proof -
  obtain s1 where run: "NodePublishVolume nodeDriver tracedCtx publishReq (demoSt stagedWorld) = (Ret (Inr ()), s1)"
    and free: "map_of (dm_ais (ext s1)) ''CSI-a'' \<noteq> None" "rpcStatus s1 = {}"
    by (rule node_publish) blast
  obtain s2 where un: "NodeUnpublishVolume nodeDriver tracedCtx publishReq s1 = (Ret (Inr ()), s2)"
    by (rule node_unpublish [OF free])
  have "x_ss_list nodeEnv xs = xs" "x_ss_add nodeEnv x xs = x # xs" for x xs
    by (simp_all add: nodeEnv_def demoEnv_def)
  then have "\<exists>ps. mdOf (ext s2) ''CSI-a'' ''bind_mount'' = Some (joinWith '','' (''/pod'' # ps))"
    using unpublish_leaves_record [of nodeDriver mdOf tracedCtx publishReq "demoSt stagedWorld" "()" s1 s1 tracedCtx publishReq "()" s2]
      nodeEnv_store nodeEnv_quiet run un by (simp add: publishReq_def)
  with run un show ?thesis by blast
qed

section \<open>Unstaging\<close>

lemma goes_orElse: "goes m w (Inr x) w' \<Longrightarrow> goes (orElse m d) w x w'"
  unfolding orElse_def by (erule goes_bind) (simp add: goes_ret)

lemma node_Unmount:
  assumes "path_ok (v_MountPath v)"
  shows "goes (Unmount nodeEnv v) w (Inr (v\<lparr>v_MountPath := []\<rparr>))
    ((unmounted (v_MountPath v) w)\<lparr>dm_files := filter (\<lambda>(q, _). q \<noteq> v_MountPath v) (dm_files w)\<rparr>)"
  unfolding Unmount_def if_not_P [OF path_okD(2) [OF assms]]
  by (rule goes_try [OF node_unmount [OF assms]]) (rule goes_ret)

lemma node_Logout: "goes (Logout nodeEnv v) w (Inr (v\<lparr>v_DevicePath := []\<rparr>)) w"
  by (simp add: goes_def Logout_def go_eval nodeEnv_def demoEnv_def)

lemma node_UnregisterAcl: "v_Ai v = demoAi ''CSI-a'' 16 \<Longrightarrow> goes (UnregisterAcl nodeEnv v (Some ci)) w (Inr ()) w"
  by (auto simp: goes_def UnregisterAcl_def updateAcl_def runs node_calls sdkCall_def demo_calls demoAi_def demoSi_def)

lemma map_of_others: "k \<noteq> p \<Longrightarrow> map_of (filter (\<lambda>(q, _). q \<noteq> p) xs) k = map_of xs k"
  by (induction xs) auto

lemma node_unstage:
  assumes "map_of (dm_ais (ext s)) ''CSI-a'' \<noteq> None" and "rpcStatus s = {}" and "ctx_TraceId ctx = Some i" and "i \<noteq> []"
    and "map_of (dm_files (ext s)) initiatorFile = Some ''InitiatorName=iqn.host''"
    and "mdGet (mdOf (ext s) ''CSI-a'') ''mount_path'' = ''/stage''" and "mdGet (mdOf (ext s) ''CSI-a'') ''delete_on_unmount'' = []"
  obtains s' where "NodeUnstageVolume nodeDriver ctx stageReq s = (Ret (Inr ()), s')" and "rpcStatus s' = {}"
proof -
  let ?md = "mdOf (ext s) ''CSI-a''"
  let ?vol = "withMetadata nodeEnv ?md nodeVol"
  let ?w1 = "(unmounted ''/stage'' (ext s))\<lparr>dm_files := filter (\<lambda>(q, _). q \<noteq> ''/stage'') (dm_files (ext s))\<rparr>"
  have ai: "v_Ai nodeVol = demoAi ''CSI-a'' 16" by (simp add: nodeVol_def)
  have vol: "v_Ai (?vol\<lparr>v_MountPath := []\<rparr>) = demoAi ''CSI-a'' 16" by (simp add: ai)
  have un: "goes (Unmount nodeEnv ?vol) (ext s) (Inr (?vol\<lparr>v_MountPath := []\<rparr>)) ?w1"
    using node_Unmount [of ?vol "ext s"] assms(6) by simp
  have md: "mdOf ?w1 = mdOf (ext s)" by (simp add: mdOf_cong [of "dm_files_update _ _" "unmounted _ _"])
  have files: "map_of (dm_files (?w1\<lparr>dm_md := x\<rparr>)) initiatorFile = Some ''InitiatorName=iqn.host''" for x
    using assms(5) by (simp add: map_of_others initiatorFile_def)
  have ok: "mdOk (?md(''mount_path'' \<mapsto> []))" by (simp add: mdOk_def mdGet_upd)
  have store: "goes (storeMetadata nodeDriver v (?md(''mount_path'' \<mapsto> []))) ?w1 (Inr ())
      (?w1\<lparr>dm_md := (''CSI-a'', ?md ++ ?md(''mount_path'' \<mapsto> [])) # dm_md ?w1\<rparr>)"
    if "v_Ai v = demoAi ''CSI-a'' 16" for v
    using node_storeMetadata [of nodeDriver "?md(''mount_path'' \<mapsto> [])" v ?w1] ok md that by simp
  have keep: "(mdGet (?md(''mount_path'' \<mapsto> [])) ''delete_on_unmount'' = ''true'') = False"
    using assms(7) by (simp add: mdGet_upd)
  have "\<exists>s'. NodeUnstageVolume nodeDriver ctx stageReq s = (Ret (Inr ()), s') \<and>
      ext s' = ?w1\<lparr>dm_md := (''CSI-a'', ?md ++ ?md(''mount_path'' \<mapsto> [])) # dm_md ?w1\<rparr>"
    unfolding NodeUnstageVolume_def Let_def nodeDriver_simps
    by (rule goes_serve [where i = i], simp only: stageReq_simps list.distinct if_False,
      rule goes_try [OF goes_failWith [OF node_GetVolume [OF assms(1)]]],
      rule goes_bind [OF goes_orElse [OF un]],
      rule goes_bind [OF goes_orElse [OF node_GetMetadata]], simp only: vol demo_names md keep if_False,
      rule goes_bind [OF store], simp add: ai,
      rule goes_bind [OF goes_orElse [OF node_Logout]],
      rule goes_bind [OF goes_orElse [OF node_initiator [OF files]]],
      rule goes_bind [OF node_UnregisterAcl], simp add: ai, rule goes_bind [OF goes_ret], rule goes_ret) (use assms in simp_all)
  then obtain s' where run: "NodeUnstageVolume nodeDriver ctx stageReq s = (Ret (Inr ()), s')" by blast
  have "rpcStatus s' = {}"
    using frameD [OF keeps_parts(1) [OF node_frame(2)] run] assms(2) by (simp add: keeps_def)
  with run show thesis by (rule that)
qed

end
