(* ===== verification/Demo_Mounts.thy ===== *)
theory Demo_Mounts
  imports Demo_Node
begin

text \<open>The theorems about the table of mounts, on the host and the runs of \<open>Demo_Node\<close>.\<close>

section \<open>The specification\<close>

definition podRpcs :: "rpc list" where
  "podRpcs = [RpcNodeStage stageReq, RpcNodePublish publishReq, RpcNodeUnpublish publishReq, RpcNodeUnstage stageReq]"

lemma podRpcs_node: "list_all nodeRpc podRpcs"
  by (simp add: podRpcs_def stageReq_simps publishReq_simps)

lemma demo_empty [simp]: "mountsOf demoWorld = []"
  by (simp add: mountsOf_def demoWorld_def)


text \<open>A request to stage behind the interceptor.\<close>

lemma stage_call:
  obtains s' where "calls nodeDriver topctxt [RpcNodeStage stageReq] (demoSt demoWorld) = ([True], s')"
    and "mountsOf (ext s') = [(''/dev/sdb'', ''/stage'', ''ext4 rw'')]"
proof -
  let ?ctx = "topctxt\<lparr>ctx_TraceId := Some ''u-1'', ctx_ReqName := Some ''rpc''\<rparr>"
    and ?s = "(demoSt demoWorld)\<lparr>log := [NewUuid]\<rparr>"
  have start: "logServerAndSetId nodeEnv topctxt h (demoSt demoWorld) = h ?ctx ?s" for h :: "rpc_ctx \<Rightarrow> (demo, goerr + unit) io"
    by (simp add: logServerAndSetId_def GenId_def WithCtxt_def go_eval nodeEnv_def demoEnv_def demoSt_def)
  obtain s' where run: "NodeStageVolume nodeDriver ?ctx stageReq ?s = (Ret (Inr ()), s')"
    and tab: "mountsOf (ext s') = mountsOf (ext ?s) @ [(resolve demoView (mountsOf (ext ?s)) ''/dev/sdb'', ''/stage'', ''ext4 rw'')]"
    by (rule node_stage [of ?s ?ctx "''u-1''"]) (use demo_stageable in auto)
  have "calls nodeDriver topctxt [RpcNodeStage stageReq] (demoSt demoWorld) = ([True], s')"
    by (simp add: start void_def go_eval run)
  moreover have "mountsOf (ext s') = [(''/dev/sdb'', ''/stage'', ''ext4 rw'')]"
    using tab by (simp add: resolve_def)
  ultimately show thesis by (rule that)
qed


definition busyWorld :: demo where
  "busyWorld = demoWorld\<lparr>dm_mounts := [(''/dev/sdba'', ''/data'', ''ext4 rw'')]\<rparr>"

lemma busy_mounts: "mountsOf busyWorld = [(''/dev/sdba'', ''/data'', ''ext4 rw'')]"
  by (simp add: busyWorld_def mountsOf_def deviceOk_def isSpace_def)


section \<open>Round trips\<close>

lemma stage_twice:
  obtains s1 s2 where "NodeStageVolume nodeDriver tracedCtx stageReq (demoSt demoWorld) = (Ret (Inr ()), s1)"
    and "NodeStageVolume nodeDriver tracedCtx stageReq s1 = (Ret (Inr ()), s2)"
    and "\<And>s. s \<in> {s1, s2} \<Longrightarrow> \<exists>s'. NodeUnstageVolume nodeDriver tracedCtx stageReq s = (Ret (Inr ()), s')"
proof -
  obtain s1 where one: "NodeStageVolume nodeDriver tracedCtx stageReq (demoSt demoWorld) = (Ret (Inr ()), s1)" "rpcStatus s1 = {}"
    "map_of (dm_ais (ext s1)) ''CSI-a'' \<noteq> None" "dm_files (ext s1) = dm_files (madeDir ''/stage'' demoWorld)"
    "mountsOf (ext s1) = [(''/dev/sdb'', ''/stage'', ''ext4 rw'')]" "mdOf (ext s1) ''CSI-a'' = mdOf demoWorld ''CSI-a'' ++ stagedMd"
    by (rule node_stage [of "demoSt demoWorld" tracedCtx "''t-1''"]) (use demo_stageable in \<open>auto simp: resolve_def\<close>)
  have files: "map_of (dm_files (madeDir ''/stage'' w)) initiatorFile = map_of (dm_files w) initiatorFile" for w
    by (simp add: madeDir_def initiatorFile_def)
  have iqn: "map_of (dm_files demoWorld) initiatorFile = Some ''InitiatorName=iqn.host''"
    using demo_stageable by (simp add: stageable_def)
  have md: "mdOf demoWorld ''CSI-a'' = Map.empty" by (simp add: mdOf_def demoWorld_def)
  have "stageable (ext s1)"
    using one iqn by (simp add: stageable_def files md mdGet_def resolve_def procLine_def realOf_def deviceOk_def isSpace_def)
  then obtain s2 where two: "NodeStageVolume nodeDriver tracedCtx stageReq s1 = (Ret (Inr ()), s2)" "rpcStatus s2 = {}"
    "map_of (dm_ais (ext s2)) ''CSI-a'' \<noteq> None" "dm_files (ext s2) = dm_files (madeDir ''/stage'' (ext s1))"
    "mdOf (ext s2) ''CSI-a'' = mdOf (ext s1) ''CSI-a'' ++ stagedMd"
    by (rule node_stage [of s1 tracedCtx "''t-1''"]) (use one in auto)
  have un: "\<exists>s'. NodeUnstageVolume nodeDriver tracedCtx stageReq s = (Ret (Inr ()), s')" if "s \<in> {s1, s2}" for s
  proof -
    have "map_of (dm_ais (ext s)) ''CSI-a'' \<noteq> None" "rpcStatus s = {}"
      "map_of (dm_files (ext s)) initiatorFile = Some ''InitiatorName=iqn.host''"
      "mdGet (mdOf (ext s) ''CSI-a'') ''mount_path'' = ''/stage''" "mdGet (mdOf (ext s) ''CSI-a'') ''delete_on_unmount'' = []"
      using that one(2-6) two(2-5) iqn files [of demoWorld] files [of "ext s1"] md by (auto simp: mdGet_def)
    then show ?thesis by (elim node_unstage) auto
  qed
  from that [OF one(1) two(1) un] show thesis .
qed




section \<open>Searches of the table\<close>

definition sdbVol :: volume where
  "sdbVol = nodeVol\<lparr>v_DevicePath := ''/dev/sdb''\<rparr>"

theorem mount_takes_matching_device_witness:
  "\<exists>s' w r. Mount nodeEnv sdbVol ''/stage'' [[]] Ext4 (demoSt busyWorld) = (Ret (Inr w), s') \<and>
     mountsOf (ext s') = [(''/dev/sdba'', ''/data'', ''ext4 rw''), (''/dev/sdba'', ''/stage'', r)]"
proof -
  have fs: "TrimSpace Ext4 \<noteq> []" by (simp add: Ext4_def TrimSpace_def trimBytes_def isSpace_def)
  have other: "filter (\<lambda>e. contains (procLine e) ''/dev/sdb'') (mountsOf busyWorld) = [(''/dev/sdba'', ''/data'', ''ext4 rw'')]"
    by (simp add: busy_mounts procLine_def)
  have "goes (mount_dev nodeEnv ''/dev/sdb'' ''/stage'' [[]] Ext4) busyWorld (Inr ()) (mounted ''/dev/sdb'' ''/stage'' busyWorld)"
    by (rule node_mount) (simp_all add: fs resolve_def other realOf_def deviceOk_def isSpace_def)
  then have "goes (Mount nodeEnv sdbVol ''/stage'' [[]] Ext4) busyWorld (Inr (sdbVol\<lparr>v_MountPath := ''/stage''\<rparr>))
      (mounted ''/dev/sdb'' ''/stage'' busyWorld)"
    by (auto simp: Mount_def sdbVol_def intro!: goes_try goes_ret)
  from goesD [OF this, of "demoSt busyWorld"]
  obtain s' w where run: "Mount nodeEnv sdbVol ''/stage'' [[]] Ext4 (demoSt busyWorld) = (Ret (Inr w), s')" by auto
  have "\<exists>x. mountsOf (ext s') = mountsOf busyWorld @ [(realOf ''/dev/sdba'', ''/stage'', x)]"
    using mount_takes_matching_device [of nodeEnv demoView sdbVol "''/stage''" Ext4 "demoSt busyWorld" "''/dev/sdba''" "''/data''" "''ext4 rw''" "[]"
      "[[]]" w s'] nodeEnv_host fs other run by (simp add: sdbVol_def)
  with run show ?thesis by (auto simp: busy_mounts realOf_def)
qed

theorem mounted_check_never_fires_witness:
  "\<exists>s1. findFs nodeEnv ''/dev/sdb'' (demoSt stagedWorld) = (Ret (Inl unsupported), s1) \<and>
     Format nodeEnv sdbVol Ext4 [] 60 (demoSt stagedWorld) =
       tryG (format_device nodeEnv ''/dev/sdb'' Ext4 [] 60) (\<lambda>_. ret (Inr (sdbVol\<lparr>v_FsType := Ext4, v_FsArgs := []\<rparr>)))
         (snd (findMnt nodeEnv ''/dev/sdb'' s1))"
proof -
  obtain s1 where find: "findFs nodeEnv ''/dev/sdb'' (demoSt stagedWorld) = (Ret (Inl unsupported), s1)" and w: "ext s1 = stagedWorld"
    using goesD [OF node_findFs, of "demoSt stagedWorld" stagedWorld] by auto
  have grep: "snd (fst (x_exec nodeEnv [''grep'', [CHR 39, CHR ''/''] @ p, ''/proc/mounts''] u)) \<noteq> None"
    if "\<forall>e \<in> set (mv_tab demoView u). CHR 39 \<notin> set (procLine e)" for p u
  proof -
    have "\<not> contains (procLine e) ([CHR 39, CHR ''/''] @ p)" if "e \<in> set (mountsOf u)" for e
    proof
      assume "contains (procLine e) ([CHR 39, CHR ''/''] @ p)"
      then have "CHR 39 \<in> set (procLine e)" unfolding contains_iff by auto
      with that \<open>\<forall>e \<in> set (mv_tab demoView u). CHR 39 \<notin> set (procLine e)\<close> show False by simp
    qed
    then have none: "filter (\<lambda>e. contains (procLine e) ([CHR 39, CHR ''/''] @ p)) (mountsOf u) = []"
      by (simp only: filter_empty_conv) blast
    have "hostExec [''grep'', [CHR 39, CHR ''/''] @ p, ''/proc/mounts''] u = grepAnswer ([CHR 39, CHR ''/''] @ p) u"
      by (simp add: hostExec_def)
    also have "\<dots> = failed u" by (simp only: grepAnswer_def none list.case)
    finally show ?thesis by (simp add: node_calls failed_def)
  qed
  have "Format nodeEnv sdbVol Ext4 [] 60 (demoSt stagedWorld) =
      tryG (format_device nodeEnv (v_DevicePath sdbVol) Ext4 [] 60) (\<lambda>_. ret (Inr (sdbVol\<lparr>v_FsType := Ext4, v_FsArgs := []\<rparr>)))
        (snd (findMnt nodeEnv (v_DevicePath sdbVol) s1))"
    by (rule mounted_check_never_fires [where V = demoView and e = unsupported, OF _ _ grep])
      (use find in \<open>auto simp: sdbVol_def nodeVol_def w staged_mounts(1) procLine_def\<close>)
  with find show ?thesis by (auto simp: sdbVol_def)
qed

end
