(* ===== verification/Demo_Panics.thy ===== *)
theory Demo_Panics
  imports Node_No_Panic Demo_Node
begin

text \<open>
  A host on which the node RPCs do not panic, one without the volume that is to be published, and one
  whose initiator name cannot be read.
\<close>

definition readableEnv :: "demo env" where
  "readableEnv = steadyEnv
     \<lparr>x_exec := (\<lambda>_ w. ((''/dev/sdb'', None), w)),
      x_read_file := (\<lambda>_ w. ((''InitiatorName=iqn.host'', None), w)),
      x_md_get := (\<lambda>_ w. found (Some [''fs_type'' \<mapsto> Ext4]) w)\<rparr>"

definition lostEnv :: "demo env" where
  "lostEnv = readableEnv\<lparr>x_ai_get := (\<lambda>_ w. ((None, Some notFound, None), w))\<rparr>"

definition namelessEnv :: "demo env" where
  "namelessEnv = readableEnv\<lparr>x_read_file := (\<lambda>_ w. (([], Some unsupported), w))\<rparr>"

lemma readable_host: "host_wf readableEnv" "host_wf lostEnv" "host_wf namelessEnv"
  by (simp_all add: host_wf_def lostEnv_def namelessEnv_def readableEnv_def steadyEnv_def demoEnv_def goodLsblk_def
      TrimSpace_def trimBytes_def isSpace_def)

lemma readable_sdk: "sdk_wf readableEnv" "sdk_wf lostEnv" "sdk_wf namelessEnv"
  using steadyEnv_wf
  by (simp_all add: sdk_wf_def lostEnv_def namelessEnv_def readableEnv_def goodAi_def answered_def found_def)

lemma readable_wf: "node_wf readableEnv" "node_wf lostEnv" "node_wf namelessEnv"
proof -
  have ai: "dialable (demoAi n 16)" for n
    by (simp add: dialable_def whole_def) (simp add: demoAi_def demoSi_def)
  have acl: "answered (fst (found p w))" for p :: "acl_policy option" and w
    by (cases p) (simp_all add: found_def answered_def)
  show "node_wf readableEnv" "node_wf lostEnv" "node_wf namelessEnv"
    unfolding node_wf_def using readable_host readable_sdk
    by (simp_all add: lostEnv_def namelessEnv_def readableEnv_def steadyEnv_def demoEnv_def ai acl)
      (simp_all add: found_def goodReload_def goodInit_def answered_def ai)
qed

lemma readable_initiator: "initiator_known readableEnv"
  by (auto simp: initiator_known_def returns_def CreateGetInitiator_def GetClientIqn_def toInitiator_def go_eval
      readableEnv_def steadyEnv_def demoEnv_def found_def TrimSpace_def trimBytes_def isSpace_def)

definition growReq :: expand_req where
  "growReq = \<lparr>exq_VolumeId = ''CSI-a'', exq_VolumePath = ''/pod'',
     exq_CapacityRange = Some \<lparr>cr_RequiredBytes = 32 * GiB, cr_LimitBytes = 0\<rparr>\<rparr>"


theorem publish_panics_iff_witness:
  "\<exists>p. fst (NodePublishVolume (demoDriver lostEnv ''node'') tracedCtx publishReq (demoSt demoWorld)) = Panic p"
proof -
  let ?D = "demoDriver lostEnv ''node''"
  let ?s = "setRunning (callKey ?D ''node'' ''NodePublishVolume'' (ReqPublish publishReq)) (demoSt demoWorld)"
  have "\<exists>e. fst (GetVolume lostEnv ''CSI-a'' False True ?s) = Ret (Inl e)"
    by (simp add: GetVolume_def go_eval sdkResult_def lostEnv_def)
  moreover have "pbq_VolumeCapability publishReq = Some \<lparr>vcp_AccessMode = None, vcp_AccessType = BlockAccess\<rparr>"
    "pbq_VolumeId publishReq = ''CSI-a''" "pbq_StagingTargetPath publishReq \<noteq> []" "pbq_TargetPath publishReq \<noteq> []"
    by (simp_all add: publishReq_def)
  ultimately show ?thesis
    using publish_panics_iff [of ?D tracedCtx "''t-1''" publishReq "\<lparr>vcp_AccessMode = None, vcp_AccessType = BlockAccess\<rparr>"
        "demoSt demoWorld"] readable_wf(2)
    by (simp add: mountWhole_def isRunning_def)
qed

theorem unstage_panics_without_initiator_witness:
  "fst (NodeUnstageVolume (demoDriver namelessEnv ''node'') tracedCtx stageReq (demoSt demoWorld)) =
     Panic ''invalid memory address or nil pointer dereference''"
proof -
  let ?D = "demoDriver namelessEnv ''node''"
  let ?s = "setRunning (callKey ?D ''node'' ''NodeUnstageVolume'' (ReqUnstage stageReq)) (demoSt demoWorld)"
  have "\<exists>vol. fst (GetVolume namelessEnv ''CSI-a'' False True ?s) = Ret (Inr vol)"
    by (simp add: GetVolume_def go_eval sdkResult_def sdkCall_def namelessEnv_def readableEnv_def steadyEnv_def found_def
        aiToClientVol_def firstVolume_def demoAi_def demoSi_def readLimits_off GetMetadata_def Let_def)
  then obtain vol where "fst (GetVolume namelessEnv (sgq_VolumeId stageReq) False True ?s) = Ret (Inr vol)"
    by (auto simp: stageReq_def)
  moreover have "snd (fst (x_read_file namelessEnv f w)) \<noteq> None" for f w by (simp add: namelessEnv_def)
  moreover have "sgq_VolumeId stageReq \<noteq> []" "sgq_StagingTargetPath stageReq \<noteq> []" by (simp_all add: stageReq_def)
  ultimately show ?thesis
    by (intro unstage_panics_without_initiator [where i = "''t-1''"])
      (simp_all add: readable_wf isRunning_def)
qed

text \<open>A host on which the device has grown to 32 GiB, and a backend without metadata.\<close>

definition grownEnv :: "demo env" where
  "grownEnv = readableEnv
     \<lparr>x_exec := (\<lambda>c w. (((if hd c = ''blockdev'' then ''34359738368'' else ''/dev/sdb''), None), w)),
      x_md_get := (\<lambda>_ w. found (Some Map.empty) w)\<rparr>"

lemma grown_run:
  assumes "filter (\<lambda>c. c \<noteq> []) (map TrimSpace cmd) = c # cs" and "ext s = w"
  shows "\<exists>s'. RunCmd grownEnv cmd s = (Ret ((if c = ''blockdev'' then ''34359738368'' else ''/dev/sdb''), None), s') \<and> ext s' = w"
  using assms by (simp add: RunCmd_def Let_def go_eval grownEnv_def)

theorem expanding_block_volume_panics_witness:
  "fst (NodeExpandVolume (demoDriver grownEnv ''node'') tracedCtx growReq (demoSt demoWorld)) = Panic ''index out of range''"
proof -
  let ?D = "demoDriver grownEnv ''node''"
  let ?s = "setRunning (callKey ?D ''node'' ''NodeExpandVolume'' (ReqExpand growReq)) (demoSt demoWorld)"
  have w: "ext ?s = demoWorld" by (simp add: setRunning_def)
  obtain v s1 where get: "GetVolume grownEnv ''CSI-a'' False False ?s = (Ret (Inr v), s1)"
    by (fastforce simp: GetVolume_def go_eval sdkResult_def sdkCall_def grownEnv_def readableEnv_def steadyEnv_def found_def
        aiToClientVol_def firstVolume_def demoAi_def demoSi_def readLimits_off Let_def)
  obtain s2 where md: "GetMetadata grownEnv (v_Ai v) s1 = (Ret (Inr Map.empty), s2)"
    by (simp add: GetMetadata_def go_eval sdkResult_def sdkCall_def grownEnv_def found_def)
  have words: "TrimSpace ''/pod'' = ''/pod''" by (simp add: TrimSpace_def trimBytes_def isSpace_def)
  obtain s3 where dev: "deviceFromMount grownEnv ''/pod'' s2 = (Ret (Inr ''/dev/sdb''), s3)"
    by (simp add: deviceFromMount_def readlink_def RunCmd_def go_eval Let_def grownEnv_def TrimSpace_def trimBytes_def isSpace_def)
  have "ParseInt (TrimSuffix ''34359738368'' [CHR 10]) 10 = (34359738368, None)"
    by (simp add: TrimSuffix_def suffix_def ParseInt_def ParseUint_def digitOf_def lowerc_def)
  moreover have "mul64 32 GiB = 34359738368" by (simp add: mul64_def wrap64_def GiB_def)
  ultimately have size: "\<exists>s4. checkDeviceSize grownEnv ''/dev/sdb'' 32 s3 = (Ret (Inr ()), s4)"
    unfolding checkDeviceSize_def
    by (subst sizeLoop.simps)
      (simp add: RunCmd_def go_eval Let_def grownEnv_def TrimSpace_def trimBytes_def isSpace_def)
  then obtain s4 where size: "checkDeviceSize grownEnv ''/dev/sdb'' 32 s3 = (Ret (Inr ()), s4)" by blast
  have num: "quot64 (cr_RequiredBytes (fillLimit \<lparr>cr_RequiredBytes = 32 * GiB, cr_LimitBytes = 0\<rparr>)) GiB = 32"
    by (simp add: fillLimit_def quot64_def wrap64_def GiB_def)
  have "checkDeviceSize (dr_env ?D) ''/dev/sdb''
      (quot64 (cr_RequiredBytes (fillLimit \<lparr>cr_RequiredBytes = 32 * GiB, cr_LimitBytes = 0\<rparr>)) GiB) s3 = (Ret (Inr ()), s4)"
    unfolding num using size by simp
  from expanding_block_volume_panics [OF _ _ _ _ _ _ _ _ this, of tracedCtx "''t-1''" growReq "demoSt demoWorld" v s1 Map.empty s2]
    get md dev show ?thesis
    by (simp add: growReq_def isRunning_def mdGet_def Ext4_def Xfs_def)
qed

end
