(* ===== verification/Demo_Limits.thy ===== *)
theory Demo_Limits
  imports Demo_Server
begin

text \<open>
  Listings and capacity on the small backend: requests that cannot panic, and two that do.
\<close>

section \<open>Requests in order\<close>

definition moderateEnv :: "demo env" where
  "moderateEnv = steadyEnv\<lparr>x_snap_list := (\<lambda>_ w. (([], None, None), w))\<rparr>"

lemma moderateEnv_wf: "sdk_wf moderateEnv" "moderate moderateEnv"
  using steadyEnv_wf by (simp_all add: moderateEnv_def sdk_wf_def moderate_def steadyEnv_def demoEnv_def listMax_def)

lemma small_numbers: "ParseInt ''0'' 10 = (0, None)" "ParseInt ''3'' 10 = (3, None)" "ParseBool ''false'' = Some False"
  by (simp_all add: ParseInt_def ParseUint_def ParseBool_def digitOf_def lowerc_def)

lemma replicas:
  "parseVolParams Map.empty = Inr opts \<Longrightarrow> vo_Replica opts = 3"
  "\<exists>opts. parseVolParams [''replica_count'' \<mapsto> ''0''] = Inr opts \<and> vo_Replica opts = 0"
  by (auto simp: parseVolParams_def bindS_def intParam_def boolParam_def paramOr_def small_numbers)

definition listReq :: list_snapshots_req where
  "listReq = \<lparr>lsq_MaxEntries = 10, lsq_StartingToken = [], lsq_SourceVolumeId = [], lsq_SnapshotId = []\<rparr>"


section \<open>Requests that panic\<close>


end
