(* ===== verification/Spec2Isabelle.thy ===== *)
theory Spec2Isabelle
  imports Demo_Ledger Demo_Mounts Demo_Panics Demo_Limits
begin

text \<open>
  \<^bold>\<open>The Datera CSI driver.\<close> The program is a Container Storage Interface plugin in Go: gRPC calls of
  Kubernetes come in through one interceptor, the handlers of three services (controller, node,
  identity) work through a client of the Datera storage backend and through programs of the host
  (mkfs, mount, lsblk, iscsiadm). Its state is the driver value (the table of calls in progress,
  the cached manifest, the health flag); everything else lives in the backend and on the host.

  \<^bold>\<open>How code is modelled.\<close> A function of the code that has effects is a computation
  \<open>'s \<Rightarrow> 'r outcome \<times> 's\<close> (theory \<^verbatim>\<open>Go_Prelude\<close>): it returns or panics, and passes on the state. The
  state \<open>'w st\<close> is the driver's mutable fields, the log of the calls made to the outside
  (\<open>event\<close>) and the outside world \<open>'w\<close>, of any type. An \<open>error\<close> result of Go is a sum whose left
  side is the error; a pointer that may be nil is an option, and reading through nil is a panic; int64
  and float conversions wrap as \<open>int64\<close>, \<open>add64\<close>, \<open>mul64\<close> write out. Receivers that a method
  mutates are returned updated. The code that is not in the repository - the SDK, the iSCSI
  connector, uuid, the operating system, fmt of structures - is the record \<open>'w env\<close> of functions on
  the world (\<^verbatim>\<open>Sdk_Interface\<close>), which every definition takes as an argument.

  \<^bold>\<open>Parts and theories.\<close>
    \<^item> \<^verbatim>\<open>Go_Prelude\<close>, \<^verbatim>\<open>Go_Strings\<close>: Go's run time and the functions of strings and strconv in use.
    \<^item> \<^verbatim>\<open>Sdk_Interface\<close>: the outside, events, and the frames over logs and fields.
    \<^item> \<^verbatim>\<open>Common_Util\<close>, \<^verbatim>\<open>Common_Log\<close>: pkg/common/util.go and log.go.
    \<^item> \<^verbatim>\<open>Client_System\<close>, \<^verbatim>\<open>Client_Volume\<close>, \<^verbatim>\<open>Client_Snapshots\<close>, \<^verbatim>\<open>Client_Access\<close>, \<^verbatim>\<open>Client_Mount\<close>:
      pkg/client/system.go with ip_pool.go and client.go, volume.go, snapshots.go, acl.go with
      login.go, mount.go.
    \<^item> \<^verbatim>\<open>Csi_Types\<close>: the messages of the interface, as far as they are read or built.
    \<^item> \<^verbatim>\<open>Driver_Core\<close>, \<^verbatim>\<open>Driver_Server\<close>: pkg/driver/driver.go - environment, driver value, table of
      calls, background loops; the constructors, Run and the interceptor.
    \<^item> \<^verbatim>\<open>Driver_Controller\<close>, \<^verbatim>\<open>Driver_Node\<close>, \<^verbatim>\<open>Driver_Identity\<close>: pkg/driver/controller.go, node.go,
      identity.go; an RPC that has the name of a client operation is called \<open>...Rpc\<close>.
    \<^item> \<^verbatim>\<open>Iscsi_Relay\<close>, \<^verbatim>\<open>Entry_Points\<close>: cmd/iscsi-recv, cmd/iscsi-send, cmd/dat-csi-plugin.

  \<^bold>\<open>What is shown.\<close>
    \<^item> \<^verbatim>\<open>Store_Refinement\<close>, \<^verbatim>\<open>Ledger_Refinement\<close>: the controller's RPCs that change something - creating
      volumes, empty or from a snapshot, deleting them, taking and deleting snapshots, expanding - run in any
      sequence behind the interceptor, refine an abstract ledger of volumes and snapshots, under laws of
      the backend; which snapshots stay, and which answers name a size that the volume does not have.
    \<^item> \<^verbatim>\<open>Ledger_Race\<close>: a deletion and another handler's call to take a snapshot, interleaved.
    \<^item> \<^verbatim>\<open>Driver_Handlers\<close>: for every RPC of every service, the table of calls is restored, and only
      the deletions destroy anything; thirteen RPCs only read.
    \<^item> \<^verbatim>\<open>Call_Table\<close>: the concurrent protocol of the table - the race it has, what a lock would give,
      what holds in spite of the race, and that a handler's bracket is a path of it.
    \<^item> \<^verbatim>\<open>No_Panic\<close>, \<^verbatim>\<open>Node_No_Panic\<close>: on a backend with well-formed answers seven RPCs of the controller
      never panic, and two more do not for requests in order; on a host with readable answers seven RPCs of
      the node do not; which requests, answers and hosts make the others panic.
    \<^item> \<^verbatim>\<open>Mount_Table\<close>, \<^verbatim>\<open>Node_Mounts\<close>, \<^verbatim>\<open>Mount_Refinement\<close>: the mounts of the host as an abstract table, under
      the documented behaviour of mount, umount, grep and readlink; any sequence of node RPCs refines a
      specification of the table, from which follow which mounts a host can have and which stay, and the
      round trips of staging and publishing; what repeated staging and the searches with grep get wrong.
    \<^item> \<^verbatim>\<open>Client_Consistency\<close>: the volumes the client hands out are well formed.
    \<^item> \<^verbatim>\<open>Node_Lifecycle\<close>: the node RPCs after one another, through the volume's metadata: what staging
      leaves for later look-ups, when a device is not formatted again, what unpublishing leaves.
    \<^item> \<^verbatim>\<open>Client_Lifecycle\<close>, \<^verbatim>\<open>Client_Progress\<close> and the component theories: what single operations do on
      each branch, round trips, bounds of the retry loops and their success.
    \<^item> \<^verbatim>\<open>Demo_Backend\<close>, \<^verbatim>\<open>Demo_Runs\<close>, \<^verbatim>\<open>Demo_Store\<close>, \<^verbatim>\<open>Demo_Ledger\<close>, \<^verbatim>\<open>Demo_Server\<close>, \<^verbatim>\<open>Demo_Host\<close>, \<^verbatim>\<open>Demo_Node\<close>,
      \<^verbatim>\<open>Demo_Mounts\<close>, \<^verbatim>\<open>Demo_Panics\<close>, \<^verbatim>\<open>Demo_Limits\<close>: concrete backends and hosts, on which every theorem with
      a hypothesis is applied.

  \<^bold>\<open>Loops.\<close> The poll of a new snapshot counts down from 30; formatting tries timeout + 2 times; the
  size check tries 61 times; these are the code's own bounds. \<open>Heartbeater\<close> and \<open>LogPusher\<close> never
  end in the code, so the models take the number of rounds to run. The goroutines of a snapshot
  listing run one after the other in an order that is a parameter; the result is shown not to
  depend on it when the backend's answers do not.

  \<^bold>\<open>Interfaces.\<close> \<open>step_preorder\<close> (what a run may do to the state), \<open>step_cost\<close> (how often it may do it),
  \<open>retry_loop\<close> (bounded retries), \<open>call_bracket\<close> (the start and end of a handler), \<open>step_invariant\<close>
  (reachable states) and \<open>pair_code\<close> (identifiers made of two parts) are locales, each interpreted
  on the model's own definitions.

  \<^bold>\<open>Not modelled.\<close> pkg/iscsi-rpc is generated by protoc. The calls of the logging functions are left out of
  the models, and with them the trace ids that are made for the log lines of the start and of the
  background loops; what logging can do to a run is in \<^verbatim>\<open>Common_Log\<close>. A handler's effect on the contexts
  inside the SDK client is not kept. Imports, flags and the settings of the log package have no counterpart.

  \<^bold>\<open>Further work.\<close> Templates in the ledger; interleavings of more than one handler's call in another.
\<close>

end
